(* ===== verification/Prelude.thy ===== *)
theory Prelude
  imports Main "HOL-Library.Word" "HOL-Library.Sublist" "HOL-Library.List_Lexorder" "HOL-Library.Char_ord"
begin

text \<open>
  Shared vocabulary of the development: results (Rust's \<open>Result<T, E>\<close> as a sum with the error
  on the left), byte strings (Rust's \<open>String\<close> is a sequence of UTF-8 bytes, so a \<open>char\<close> is one
  byte and \<open>length\<close> is Rust's \<open>len()\<close>), the string operations of the Rust standard library the
  sources call, and the generic lemmas the components share.
\<close>

named_theorems result_simps \<open>inversion of successful results\<close>
named_theorems string_simps \<open>segments and byte classes of strings\<close>

section \<open>Results\<close>

type_synonym byte = "8 word"
type_synonym u16 = "16 word"
type_synonym u32 = "32 word"
type_synonym u64 = "64 word"

definition ok_if :: "bool \<Rightarrow> 'a \<Rightarrow> 'e \<Rightarrow> 'e + 'a" where
  "ok_if c v e = (if c then Inr v else Inl e)"

definition ok_or :: "'a option \<Rightarrow> 'e \<Rightarrow> 'e + 'a" where
  "ok_or x e = (case x of Some v \<Rightarrow> Inr v | None \<Rightarrow> Inl e)"

definition and_then :: "'e + 'a \<Rightarrow> ('a \<Rightarrow> 'e + 'b) \<Rightarrow> 'e + 'b" where
  "and_then r f = (case r of Inl e \<Rightarrow> Inl e | Inr x \<Rightarrow> f x)"

definition map_err :: "('e \<Rightarrow> 'f) \<Rightarrow> 'e + 'a \<Rightarrow> 'f + 'a" where
  "map_err g r = (case r of Inl e \<Rightarrow> Inl (g e) | Inr x \<Rightarrow> Inr x)"

definition is_ok :: "'e + 'a \<Rightarrow> bool" where
  "is_ok r = (case r of Inl _ \<Rightarrow> False | Inr _ \<Rightarrow> True)"

primrec try_for_each :: "('a \<Rightarrow> 'e + unit) \<Rightarrow> 'a list \<Rightarrow> 'e + unit" where
  "try_for_each f [] = Inr ()"
| "try_for_each f (x # xs) = and_then (f x) (\<lambda>_. try_for_each f xs)"

primrec try_map :: "('a \<Rightarrow> 'e + 'b) \<Rightarrow> 'a list \<Rightarrow> 'e + 'b list" where
  "try_map f [] = Inr []"
| "try_map f (x # xs) = and_then (f x) (\<lambda>y. and_then (try_map f xs) (\<lambda>ys. Inr (y # ys)))"

text \<open>A loop that inserts keys into a \<open>BTreeSet\<close>/\<open>HashSet\<close> and stops at the first repetition.\<close>

primrec insert_all :: "'k set \<Rightarrow> 'k list \<Rightarrow> bool" where
  "insert_all seen [] = True"
| "insert_all seen (k # ks) = (k \<notin> seen \<and> insert_all (insert k seen) ks)"

section \<open>Actions: effectful calls that may fail\<close>

text \<open>
  A call through a port or to the file system takes the state of the world and returns a result
  and the new state; the state changes made before an error stay.
\<close>

type_synonym ('s, 'e, 'a) action = "'s \<Rightarrow> ('e + 'a) \<times> 's"

definition do_return :: "'a \<Rightarrow> ('s, 'e, 'a) action" where
  "do_return x s = (Inr x, s)"

definition do_fail :: "'e \<Rightarrow> ('s, 'e, 'a) action" where
  "do_fail e s = (Inl e, s)"

definition do_lift :: "'e + 'a \<Rightarrow> ('s, 'e, 'a) action" where
  "do_lift r s = (r, s)"

text \<open>The \<open>?\<close> operator: go on with the value, or stop with the error.\<close>

definition do_then :: "('s, 'e, 'a) action \<Rightarrow> ('a \<Rightarrow> ('s, 'e, 'b) action) \<Rightarrow> ('s, 'e, 'b) action" where
  "do_then m f s = (case m s of (Inl e, t) \<Rightarrow> (Inl e, t) | (Inr x, t) \<Rightarrow> f x t)"

definition do_map_err :: "('e \<Rightarrow> 'f) \<Rightarrow> ('s, 'e, 'a) action \<Rightarrow> ('s, 'f, 'a) action" where
  "do_map_err g m s = (case m s of (r, t) \<Rightarrow> (map_err g r, t))"

text \<open>A \<open>match\<close> on the result of a call.\<close>

definition do_match :: "('s, 'e, 'a) action \<Rightarrow> ('e + 'a \<Rightarrow> ('s, 'f, 'b) action) \<Rightarrow> ('s, 'f, 'b) action" where
  "do_match m f s = (case m s of (r, t) \<Rightarrow> f r t)"

primrec do_each :: "('a \<Rightarrow> ('s, 'e, unit) action) \<Rightarrow> 'a list \<Rightarrow> ('s, 'e, unit) action" where
  "do_each f [] = do_return ()"
| "do_each f (x # xs) = do_then (f x) (\<lambda>_. do_each f xs)"

primrec do_fold :: "('a \<Rightarrow> 'b \<Rightarrow> ('s, 'e, 'b) action) \<Rightarrow> 'a list \<Rightarrow> 'b \<Rightarrow> ('s, 'e, 'b) action" where
  "do_fold f [] acc = do_return acc"
| "do_fold f (x # xs) acc = do_then (f x acc) (do_fold f xs)"

section \<open>Byte strings\<close>

definition code :: "char \<Rightarrow> nat" where
  "code c = of_char c"

definition byte_in :: "nat \<Rightarrow> nat \<Rightarrow> char \<Rightarrow> bool" where
  "byte_in lo hi c \<longleftrightarrow> lo \<le> code c \<and> code c \<le> hi"

definition is_ascii_digit :: "char \<Rightarrow> bool" where
  "is_ascii_digit c = byte_in 48 57 c"

definition is_ascii_alphanumeric :: "char \<Rightarrow> bool" where
  "is_ascii_alphanumeric c \<longleftrightarrow> is_ascii_digit c \<or> byte_in 65 90 c \<or> byte_in 97 122 c"

definition is_ascii_hexdigit :: "char \<Rightarrow> bool" where
  "is_ascii_hexdigit c \<longleftrightarrow> is_ascii_digit c \<or> byte_in 65 70 c \<or> byte_in 97 102 c"

definition is_lower_hex :: "char \<Rightarrow> bool" where
  "is_lower_hex c \<longleftrightarrow> is_ascii_digit c \<or> byte_in 97 102 c"

text \<open>
  \<open>value.chars().any(char::is_control)\<close>: the control characters are U+0000--U+001F, U+007F and
  U+0080--U+009F. In UTF-8 the last group is the byte C2 followed by a byte 80--9F, and C2 occurs
  in no other role, so the test is exact on the bytes of a Rust string.
\<close>

fun has_control :: "string \<Rightarrow> bool" where
  "has_control [] = False"
| "has_control (b # bs) =
     (code b < 32 \<or> code b = 127 \<or>
      (code b = 194 \<and> (case bs of [] \<Rightarrow> False | c # _ \<Rightarrow> byte_in 128 159 c)) \<or> has_control bs)"

text \<open>\<open>str::split(char)\<close>: the pieces between separators, at least one.\<close>

fun split_on :: "char \<Rightarrow> string \<Rightarrow> string list" where
  "split_on c [] = [[]]"
| "split_on c (x # xs) =
     (if x = c then [] # split_on c xs
      else (case split_on c xs of [] \<Rightarrow> [[x]] | s # ss \<Rightarrow> (x # s) # ss))"

fun join_with :: "char \<Rightarrow> string list \<Rightarrow> string" where
  "join_with c [] = []"
| "join_with c [s] = s"
| "join_with c (s # ss) = s @ c # join_with c ss"

definition strip_prefix :: "string \<Rightarrow> string \<Rightarrow> string option" where
  "strip_prefix p s = (if prefix p s then Some (drop (length p) s) else None)"

definition strip_suffix :: "string \<Rightarrow> string \<Rightarrow> string option" where
  "strip_suffix p s = (if suffix p s then Some (take (length s - length p) s) else None)"

definition contains_any :: "char list \<Rightarrow> string \<Rightarrow> bool" where
  "contains_any cs s \<longleftrightarrow> list_ex (\<lambda>c. c \<in> set cs) s"

definition bytes_of :: "string \<Rightarrow> byte list" where
  "bytes_of s = map (\<lambda>c. word_of_nat (code c)) s"

text \<open>\<open>u32::to_be_bytes\<close> and \<open>from_be_bytes\<close>, on the number below \<open>2 ^ 32\<close>.\<close>

definition be32 :: "nat \<Rightarrow> byte list" where
  "be32 n = [word_of_nat (n div 2 ^ 24), word_of_nat (n div 2 ^ 16), word_of_nat (n div 2 ^ 8), word_of_nat n]"

definition be_nat :: "byte list \<Rightarrow> nat" where
  "be_nat bs = foldl (\<lambda>acc b. acc * 256 + unat b) 0 bs"

definition slice_get :: "'a list \<Rightarrow> nat \<Rightarrow> nat \<Rightarrow> 'a list option" where
  "slice_get xs i j =
     (if i \<le> j \<and> j \<le> length xs then Some (take (j - i) (drop i xs)) else None)"

abbreviation slash :: char where "slash \<equiv> CHR ''/''"
abbreviation backslash :: char where "backslash \<equiv> CHR 0x5C"
abbreviation nul :: char where "nul \<equiv> CHR 0x00"
abbreviation newline :: char where "newline \<equiv> CHR 0x0A"
abbreviation carriage_return :: char where "carriage_return \<equiv> CHR 0x0D"

definition hex_digit :: "nat \<Rightarrow> char" where
  "hex_digit n = ''0123456789abcdef'' ! n"

definition hex_byte :: "byte \<Rightarrow> string" where
  "hex_byte b = [hex_digit (unat b div 16), hex_digit (unat b mod 16)]"

definition hex :: "byte list \<Rightarrow> string" where
  "hex bs = concat (map hex_byte bs)"

text \<open>\<open>format!("{}", n)\<close> of an unsigned number.\<close>

fun show_nat :: "nat \<Rightarrow> string" where
  "show_nat n = (if n < 10 then [char_of (48 + n)] else show_nat (n div 10) @ [char_of (48 + n mod 10)])"

declare show_nat.simps [simp del]

section \<open>Lemmas on results\<close>

lemma ok_if_simps [simp, result_simps]:
  "ok_if c v e = Inr w \<longleftrightarrow> c \<and> v = w"
  "ok_if c v e = Inl f \<longleftrightarrow> \<not> c \<and> e = f"
  by (auto simp: ok_if_def)

lemma ok_or_simps [simp, result_simps]:
  "ok_or x e = Inr v \<longleftrightarrow> x = Some v"
  "ok_or x e = Inl f \<longleftrightarrow> x = None \<and> e = f"
  by (auto simp: ok_or_def split: option.splits)

lemma and_then_Inl [simp]: "and_then (Inl e) f = Inl e"
  by (simp add: and_then_def)

lemma and_then_Inr [simp]: "and_then (Inr x) f = f x"
  by (simp add: and_then_def)

lemma and_then_eq_Inr [simp, result_simps]:
  "and_then r f = Inr y \<longleftrightarrow> (\<exists>x. r = Inr x \<and> f x = Inr y)"
  by (cases r) auto

lemma and_then_eq_Inl [result_simps]:
  "and_then r f = Inl e \<longleftrightarrow> r = Inl e \<or> (\<exists>x. r = Inr x \<and> f x = Inl e)"
  by (cases r) auto

lemma map_err_simps [simp, result_simps]:
  "map_err g (Inr x) = Inr x"
  "map_err g (Inl e) = Inl (g e)"
  "map_err g r = Inr y \<longleftrightarrow> r = Inr y"
  "map_err g r = Inl f \<longleftrightarrow> (\<exists>e. r = Inl e \<and> f = g e)"
  by (cases r; auto simp: map_err_def)+

lemma is_ok_simps [simp, result_simps]:
  "is_ok (Inr x)"
  "\<not> is_ok (Inl e)"
  by (simp_all add: is_ok_def)

lemma is_ok_iff: "is_ok r \<longleftrightarrow> (\<exists>x. r = Inr x)"
  by (cases r) auto

lemma try_for_each_ok [simp, result_simps]:
  "try_for_each f xs = Inr u \<longleftrightarrow> (\<forall>x\<in>set xs. f x = Inr ())"
  by (induction xs) auto

lemma try_map_ok:
  "try_map f xs = Inr ys \<longleftrightarrow> list_all2 (\<lambda>x y. f x = Inr y) xs ys"
  by (induction xs arbitrary: ys) (auto simp: list_all2_Cons1)

lemma try_map_iff:
  assumes "\<And>x y. x \<in> set xs \<Longrightarrow> f x = Inr y \<longleftrightarrow> y = g x \<and> P x"
  shows "try_map f xs = Inr ys \<longleftrightarrow> (\<forall>x\<in>set xs. P x) \<and> ys = map g xs"
  using assms by (induction xs arbitrary: ys) auto

lemma in_set_map_filter [simp]: "y \<in> set (List.map_filter f xs) \<longleftrightarrow> (\<exists>x\<in>set xs. f x = Some y)"
  by (force simp: List.map_filter_def)

lemma map_filter_length: "length (List.map_filter f xs) \<le> length xs"
  by (simp add: List.map_filter_def)

lemma map_filter_empty: "List.map_filter f xs = [] \<longleftrightarrow> (\<forall>x\<in>set xs. f x = None)"
  by (auto simp: List.map_filter_def filter_empty_conv)

lemma card_set_length: "card (set xs) = length xs \<longleftrightarrow> distinct xs"
  by (metis card_distinct distinct_card)

lemma card_image_length: "card (f ` set xs) = length xs \<longleftrightarrow> distinct (map f xs)"
  using card_set_length [of "map f xs"] by simp

text \<open>\<open>sort\<close> then \<open>dedup\<close>, as on a Rust vector.\<close>

lemma strict_remdups_adj:
  fixes xs :: "'a :: linorder list"
  shows "sorted xs \<Longrightarrow> sorted_wrt (<) (remdups_adj xs)"
proof (induction xs rule: remdups_adj.induct)
  case (3 x y xs)
  then show ?case
    by (cases "x = y") (auto simp: order.strict_iff_order)
qed simp_all

lemma sort_empty: "sort xs = [] \<longleftrightarrow> xs = []"
  by (metis length_0_conv length_sort)

lemma insert_all_iff [simp]: "insert_all seen ks \<longleftrightarrow> distinct ks \<and> set ks \<inter> seen = {}"
  by (induction ks arbitrary: seen) auto

section \<open>Lemmas on actions\<close>

named_theorems action_simps \<open>evaluation of actions\<close>

lemmas do_defs = do_return_def do_fail_def do_lift_def do_then_def do_map_err_def do_match_def

lemma do_basic [simp, action_simps]:
  "do_return x s = (Inr x, s)"
  "do_fail e s = (Inl e, s)"
  "do_lift r s = (r, s)"
  by (simp_all add: do_defs)

lemma do_then_ok:
  "do_then m f s = (Inr y, t) \<longleftrightarrow> (\<exists>x u. m s = (Inr x, u) \<and> f x u = (Inr y, t))"
  by (auto simp: do_then_def split: prod.splits sum.splits)

lemma do_then_err:
  "do_then m f s = (Inl e, t) \<longleftrightarrow> m s = (Inl e, t) \<or> (\<exists>x u. m s = (Inr x, u) \<and> f x u = (Inl e, t))"
  by (auto simp: do_then_def split: prod.splits sum.splits)

lemma do_map_err_ok [simp]: "do_map_err g m s = (Inr y, t) \<longleftrightarrow> m s = (Inr y, t)"
  by (auto simp: do_map_err_def split: prod.splits)

lemma do_map_err_err: "do_map_err g m s = (Inl f, t) \<longleftrightarrow> (\<exists>e. m s = (Inl e, t) \<and> f = g e)"
  by (auto simp: do_map_err_def split: prod.splits)

section \<open>Lemmas on strings\<close>

lemma code_less: "code c < 256"
  by (simp add: code_def)

lemma code_inject [simp]: "code c = code d \<longleftrightarrow> c = d"
  by (simp add: code_def)

lemma split_on_nonempty [simp]: "split_on c s \<noteq> []"
  by (induction s) (auto split: list.splits)

lemma join_with_Cons: "ss \<noteq> [] \<Longrightarrow> join_with c (s # ss) = s @ c # join_with c ss"
  by (cases ss) auto

lemma join_split [simp]: "join_with c (split_on c s) = s"
proof (induction s)
  case Nil
  then show ?case by simp
next
  case (Cons x xs)
  obtain t ts where t: "split_on c xs = t # ts"
    by (cases "split_on c xs") auto
  with Cons show ?case by (cases ts) auto
qed

lemma split_on_no_sep: "s \<in> set (split_on c t) \<Longrightarrow> c \<notin> set s"
  by (induction t arbitrary: s) (auto split: if_splits list.splits)

lemma split_on_single: "c \<notin> set s \<Longrightarrow> split_on c s = [s]"
  by (induction s) auto

lemma split_on_append: "split_on c (a @ c # b) = split_on c a @ split_on c b"
proof (induction a)
  case Nil
  then show ?case by simp
next
  case (Cons x xs)
  then show ?case by (auto split: list.splits)
qed

lemma split_join:
  assumes "ss \<noteq> []" "\<forall>s\<in>set ss. c \<notin> set s"
  shows "split_on c (join_with c ss) = ss"
  using assms
proof (induction ss rule: join_with.induct)
  case (3 c s t ts)
  then have "split_on c (s @ c # join_with c (t # ts)) = [s] @ (t # ts)"
    by (simp add: split_on_append split_on_single)
  then show ?case by simp
qed (auto simp: split_on_single)

lemma split_on_inject: "split_on c a = split_on c b \<longleftrightarrow> a = b"
  by (metis join_split)

lemma strip_prefix_Some [simp]: "strip_prefix p s = Some t \<longleftrightarrow> s = p @ t"
  by (auto simp: strip_prefix_def elim: prefixE)

lemma strip_suffix_Some: "strip_suffix p s = Some t \<longleftrightarrow> s = t @ p"
  by (auto simp: strip_suffix_def suffix_def)

lemma contains_any_iff: "contains_any cs s \<longleftrightarrow> set cs \<inter> set s \<noteq> {}"
  by (auto simp: contains_any_def list_ex_iff)

lemma inj_word_of_code: "inj (\<lambda>c. word_of_nat (code c) :: byte)"
proof (rule injI)
  fix c d :: char
  assume "word_of_nat (code c) = (word_of_nat (code d) :: byte)"
  then have "unat (word_of_nat (code c) :: byte) = unat (word_of_nat (code d) :: byte)"
    by simp
  then have "code c mod 256 = code d mod 256"
    by (simp add: unat_of_nat)
  then show "c = d" using code_less by simp
qed

lemma bytes_of_inject [simp]: "bytes_of a = bytes_of b \<longleftrightarrow> a = b"
  unfolding bytes_of_def by (simp add: inj_map_eq_map inj_word_of_code)

lemma length_bytes_of [simp]: "length (bytes_of s) = length s"
  by (simp add: bytes_of_def)

lemma bytes_of_append [simp]: "bytes_of (a @ b) = bytes_of a @ bytes_of b"
  by (simp add: bytes_of_def)

section \<open>Lemmas on slices and big-endian numbers\<close>

lemma slice_get_Some: "slice_get xs i j = Some ys \<longleftrightarrow> i \<le> j \<and> (\<exists>pre post. xs = pre @ ys @ post \<and> length pre = i \<and> length ys = j - i)"
proof
  assume "slice_get xs i j = Some ys"
  then have ij: "i \<le> j" "j \<le> length xs" and ys: "ys = take (j - i) (drop i xs)"
    by (auto simp: slice_get_def split: if_splits)
  then have "xs = take i xs @ ys @ drop j xs"
    by (metis append_take_drop_id drop_drop le_add_diff_inverse2)
  with ij ys show "i \<le> j \<and> (\<exists>pre post. xs = pre @ ys @ post \<and> length pre = i \<and> length ys = j - i)"
    by (metis (no_types, lifting) diff_le_mono length_drop length_take min.absorb2 order.trans)
next
  assume "i \<le> j \<and> (\<exists>pre post. xs = pre @ ys @ post \<and> length pre = i \<and> length ys = j - i)"
  then show "slice_get xs i j = Some ys"
    by (auto simp: slice_get_def)
qed

lemma be_nat_4:
  "be_nat [a, b, c, d] = unat a * 2 ^ 24 + unat b * 2 ^ 16 + unat c * 2 ^ 8 + unat d"
  by (simp add: be_nat_def)

lemma unat_byte_less: "unat (b :: byte) < 256"
  using unsigned_less [of b] by simp

lemma length_be32 [simp]: "length (be32 n) = 4"
  by (simp add: be32_def)

lemma be_nat_be32 [simp]:
  assumes "n < 2 ^ 32"
  shows "be_nat (be32 n) = n"
proof -
  define x where "x = n div 256"
  define y where "y = x div 256"
  have d: "n div 2 ^ 8 = x" "n div 2 ^ 16 = y" "n div 2 ^ 24 = y div 256"
    by (simp_all add: x_def y_def flip: div_mult2_eq)
  have "y div 256 < 256"
    using assms unfolding d(3) [symmetric] by (simp add: less_mult_imp_div_less)
  then have "be_nat (be32 n) = y div 256 * 16777216 + y mod 256 * 65536 + x mod 256 * 256 + n mod 256"
    unfolding be32_def be_nat_4 d by (simp add: unat_of_nat)
  then show ?thesis
    using div_mult_mod_eq [of n 256] div_mult_mod_eq [of x 256] div_mult_mod_eq [of y 256]
    unfolding x_def [symmetric] y_def [symmetric] by linarith
qed

lemma be_nat_4_less: "be_nat [a, b, c, d] < 2 ^ 32"
  using unat_byte_less [of a] unat_byte_less [of b] unat_byte_less [of c] unat_byte_less [of d]
  by (simp add: be_nat_4)

lemma be32_be_nat [simp]: "be32 (be_nat [a, b, c, d]) = [a, b, c, d]"
proof -
  have w: "word_of_nat (m * 256 + unat (v :: byte)) = v" for m v
  proof (rule word_unat_eq_iff [THEN iffD2])
    show "unat (word_of_nat (m * 256 + unat v) :: byte) = unat v"
      unfolding unat_of_nat using unat_byte_less [of v] by simp
  qed
  have lt: "unat a < 256" "unat b < 256" "unat c < 256" "unat d < 256"
    by (simp_all add: unat_byte_less)
  let ?n = "be_nat [a, b, c, d]"
  have n: "?n = ((unat a * 256 + unat b) * 256 + unat c) * 256 + unat d"
    by (simp add: be_nat_def)
  have x: "?n div 256 = (unat a * 256 + unat b) * 256 + unat c"
    using lt unfolding n by simp
  have y: "?n div 256 div 256 = unat a * 256 + unat b"
    using lt unfolding x by simp
  have z: "?n div 256 div 256 div 256 = unat a"
    using lt unfolding y by simp
  have "?n div 2 ^ 8 = ?n div 256" "?n div 2 ^ 16 = ?n div 256 div 256" "?n div 2 ^ 24 = ?n div 256 div 256 div 256"
    by (simp_all flip: div_mult2_eq)
  then have "be32 ?n = [word_of_nat (unat a), word_of_nat (unat a * 256 + unat b),
      word_of_nat ((unat a * 256 + unat b) * 256 + unat c), word_of_nat ?n]"
    unfolding be32_def by (simp only: x y [unfolded x] z [unfolded y])
  then show ?thesis unfolding n w by simp
qed

lemma length_4_conv: "length bs = 4 \<longleftrightarrow> (\<exists>a b c d. bs = [a, b, c, d])"
  by (simp add: numeral_eq_Suc length_Suc_conv) blast

lemma be32_of_length4: "length bs = 4 \<Longrightarrow> be32 (be_nat bs) = bs \<and> be_nat bs < 2 ^ 32"
  unfolding length_4_conv using be_nat_4_less by auto

lemma be32_inject: "m < 2 ^ 32 \<Longrightarrow> n < 2 ^ 32 \<Longrightarrow> be32 m = be32 n \<longleftrightarrow> m = n"
  by (metis be_nat_be32)

section \<open>Lemmas on printing\<close>

lemma is_lower_hex_digit: "n < 16 \<Longrightarrow> is_lower_hex (hex_digit n)"
  by (auto simp: hex_digit_def less_Suc_eq numeral_eq_Suc is_lower_hex_def is_ascii_digit_def byte_in_def code_def)

lemma length_hex [simp]: "length (hex bs) = 2 * length bs"
  by (induction bs) (simp_all add: hex_def hex_byte_def)

lemma hex_lower: "list_all is_lower_hex (hex bs)"
proof -
  have "unat (b :: byte) div 16 < 16" for b
    using unat_byte_less [of b] by linarith
  then show ?thesis
    by (induction bs) (simp_all add: hex_def hex_byte_def is_lower_hex_digit)
qed

lemma is_digit_show_nat: "list_all is_ascii_digit (show_nat n)"
proof (induction n rule: show_nat.induct)
  case (1 n)
  have "is_ascii_digit (char_of (48 + k))" if "k < 10" for k :: nat
    using that by (simp add: is_ascii_digit_def byte_in_def code_def)
  then show ?case using 1 by (subst show_nat.simps) simp
qed

lemma split_at_first:
  assumes "c \<notin> set a" "c \<notin> set b"
  shows "a @ c # x = b @ c # y \<longleftrightarrow> a = b \<and> x = y"
  using assms
proof (induction a arbitrary: b)
  case Nil
  then show ?case by (cases b) auto
next
  case (Cons z a)
  then show ?case by (cases b) auto
qed

end
