(* ===== verification/File_System.thy ===== *)
theory File_System
  imports Prelude
begin

text \<open>
  The operations of \<open>std::fs\<close> the storage code calls, on an explicit disk. A path is the list of its
  components below the repository root; the disk is an association list from paths to entries (its
  order is the order in which the operating system lists a directory). Every call consumes one
  element of a fault schedule: it proceeds, is refused with an I/O error and no effect, or, for a
  write, is torn after some bytes. A crash is a schedule that refuses everything from some point on,
  since nothing the program does afterwards reaches the disk. What an unsynced write may lose in a
  power failure is not modelled: a synchronization can only fail.
\<close>

section \<open>Definitions\<close>

type_synonym path = "string list"

text \<open>A symbolic link records what it leads to (\<open>Path::exists\<close> and \<open>Path::is_dir\<close> follow it).\<close>

datatype link_target = Dangling | ToDirectory | ToOther

datatype entry = FsDir | FsFile "byte list" | FsLink link_target | FsSpecial

datatype fault = Proceed | Refuse | Tear nat

datatype fs_error = NotFound | AlreadyExists | OtherIo

type_synonym disk = "(path \<times> entry) list"

record world =
  disk :: disk
  faults :: "fault list"

definition entry_at :: "disk \<Rightarrow> path \<Rightarrow> entry option" where
  "entry_at d p = (if p = [] then Some FsDir else map_of d p)"

definition del :: "path \<Rightarrow> disk \<Rightarrow> disk" where
  "del p d = filter (\<lambda>(q, _). q \<noteq> p) d"

definition put :: "path \<Rightarrow> entry \<Rightarrow> disk \<Rightarrow> disk" where
  "put p e d = (p, e) # del p d"

definition del_tree :: "path \<Rightarrow> disk \<Rightarrow> disk" where
  "del_tree p d = filter (\<lambda>(q, _). \<not> prefix p q) d"

definition move_tree :: "path \<Rightarrow> path \<Rightarrow> disk \<Rightarrow> disk" where
  "move_tree p q d =
     map (\<lambda>(r, e). (if prefix p r then q @ drop (length p) r else r, e)) (del_tree q d)"

definition children :: "disk \<Rightarrow> path \<Rightarrow> string list" where
  "children d p =
     remdups (List.map_filter (\<lambda>(q, _). if q \<noteq> [] \<and> butlast q = p then Some (last q) else None) d)"

definition io :: "(disk \<Rightarrow> (fs_error + 'a) \<times> disk) \<Rightarrow> (nat \<Rightarrow> disk \<Rightarrow> disk) \<Rightarrow> (world, fs_error, 'a) action" where
  "io f torn w =
     (case faults w of
        [] \<Rightarrow> (case f (disk w) of (r, d) \<Rightarrow> (r, w\<lparr>disk := d\<rparr>))
      | Proceed # fs \<Rightarrow> (case f (disk w) of (r, d) \<Rightarrow> (r, w\<lparr>disk := d, faults := fs\<rparr>))
      | Refuse # fs \<Rightarrow> (Inl OtherIo, w\<lparr>faults := fs\<rparr>)
      | Tear n # fs \<Rightarrow> (Inl OtherIo, w\<lparr>disk := torn n (disk w), faults := fs\<rparr>))"

definition whole :: "nat \<Rightarrow> disk \<Rightarrow> disk" where
  "whole n d = d"

definition stat :: "path \<Rightarrow> (world, fs_error, entry) action" where
  "stat p = io (\<lambda>d. (ok_or (entry_at d p) NotFound, d)) whole"

text \<open>\<open>Path::exists\<close>: any error counts as absent.\<close>

definition path_exists :: "path \<Rightarrow> (world, 'e, bool) action" where
  "path_exists p w =
     (case stat p w of
        (Inr (FsLink target), w') \<Rightarrow> (Inr (target \<noteq> Dangling), w')
      | (Inr _, w') \<Rightarrow> (Inr True, w')
      | (Inl _, w') \<Rightarrow> (Inr False, w'))"

definition create_dir :: "path \<Rightarrow> (world, fs_error, unit) action" where
  "create_dir p = io (\<lambda>d.
     if entry_at d p \<noteq> None then (Inl AlreadyExists, d)
     else if entry_at d (butlast p) \<noteq> Some FsDir then (Inl NotFound, d)
     else (Inr (), put p FsDir d)) whole"

definition read_dir :: "path \<Rightarrow> (world, fs_error, string list) action" where
  "read_dir p = io (\<lambda>d.
     if entry_at d p = None then (Inl NotFound, d)
     else if entry_at d p \<noteq> Some FsDir then (Inl OtherIo, d)
     else (Inr (children d p), d)) whole"

text \<open>\<open>Path::is_dir\<close>: any error counts as no.\<close>

definition path_is_dir :: "path \<Rightarrow> (world, 'e, bool) action" where
  "path_is_dir p w =
     (case stat p w of
        (Inr e, w') \<Rightarrow> (Inr (e \<in> {FsDir, FsLink ToDirectory}), w')
      | (Inl _, w') \<Rightarrow> (Inr False, w'))"

text \<open>\<open>create_dir_all\<close>: the parent is created when the first attempt finds it missing.\<close>

definition accept_dir :: "path \<Rightarrow> fs_error \<Rightarrow> (world, fs_error, unit) action" where
  "accept_dir p e = do_then (path_is_dir p) (\<lambda>b. if b then do_return () else do_fail e)"

function create_dir_all :: "path \<Rightarrow> (world, fs_error, unit) action" where
  "create_dir_all p =
     do_match (create_dir p) (\<lambda>r.
       case r of
         Inr _ \<Rightarrow> do_return ()
       | Inl e \<Rightarrow>
           if e \<noteq> NotFound \<or> p = [] then accept_dir p e
           else
             do_then (create_dir_all (butlast p)) (\<lambda>_.
             do_match (create_dir p) (\<lambda>r. case r of Inr _ \<Rightarrow> do_return () | Inl e \<Rightarrow> accept_dir p e)))"
  by pat_completeness auto
termination by (relation "measure length") auto

declare create_dir_all.simps [simp del]

text \<open>\<open>OpenOptions::create(true)\<close> without truncation, as for lock files.\<close>

definition open_or_create :: "path \<Rightarrow> (world, fs_error, unit) action" where
  "open_or_create p = io (\<lambda>d.
     case entry_at d p of
       None \<Rightarrow>
         if entry_at d (butlast p) \<noteq> Some FsDir then (Inl NotFound, d) else (Inr (), put p (FsFile []) d)
     | Some (FsFile _) \<Rightarrow> (Inr (), d)
     | Some (FsLink ToOther) \<Rightarrow> (Inr (), d)
     | Some _ \<Rightarrow> (Inl OtherIo, d)) whole"

text \<open>\<open>OpenOptions::create_new\<close>, then \<open>write_all\<close> to the new file.\<close>

definition create_new :: "path \<Rightarrow> (world, fs_error, unit) action" where
  "create_new p = io (\<lambda>d.
     if entry_at d p \<noteq> None then (Inl AlreadyExists, d)
     else if entry_at d (butlast p) \<noteq> Some FsDir then (Inl NotFound, d)
     else (Inr (), put p (FsFile []) d)) whole"

definition append_file :: "path \<Rightarrow> byte list \<Rightarrow> disk \<Rightarrow> disk" where
  "append_file p bs d = (case entry_at d p of Some (FsFile old) \<Rightarrow> put p (FsFile (old @ bs)) d | _ \<Rightarrow> d)"

definition write_file :: "path \<Rightarrow> byte list \<Rightarrow> (world, fs_error, unit) action" where
  "write_file p bs = io (\<lambda>d. (Inr (), append_file p bs d)) (\<lambda>n d. append_file p (take n bs) d)"

definition read_file :: "path \<Rightarrow> (world, fs_error, byte list) action" where
  "read_file p = io (\<lambda>d.
     (case entry_at d p of
        Some (FsFile bs) \<Rightarrow> Inr bs
      | None \<Rightarrow> Inl NotFound
      | _ \<Rightarrow> Inl OtherIo, d)) whole"

text \<open>\<open>rename\<close>: a file may replace a file, a directory an empty directory.\<close>

definition rename_allowed :: "disk \<Rightarrow> path \<Rightarrow> path \<Rightarrow> bool" where
  "rename_allowed d p q =
     (case (entry_at d p, entry_at d q) of
        (Some _, None) \<Rightarrow> entry_at d (butlast q) = Some FsDir
      | (Some FsDir, Some FsDir) \<Rightarrow> children d q = []
      | (Some FsDir, Some _) \<Rightarrow> False
      | (Some _, Some FsDir) \<Rightarrow> False
      | (Some _, Some _) \<Rightarrow> True
      | (None, _) \<Rightarrow> False)"

definition rename :: "path \<Rightarrow> path \<Rightarrow> (world, fs_error, unit) action" where
  "rename p q = io (\<lambda>d.
     if entry_at d p = None then (Inl NotFound, d)
     else if prefix p q \<or> \<not> rename_allowed d p q then (Inl OtherIo, d)
     else (Inr (), move_tree p q d)) whole"

definition remove_file :: "path \<Rightarrow> (world, fs_error, unit) action" where
  "remove_file p = io (\<lambda>d.
     case entry_at d p of
       None \<Rightarrow> (Inl NotFound, d)
     | Some FsDir \<Rightarrow> (Inl OtherIo, d)
     | Some _ \<Rightarrow> (Inr (), del p d)) whole"

definition remove_dir :: "path \<Rightarrow> (world, fs_error, unit) action" where
  "remove_dir p = io (\<lambda>d.
     case entry_at d p of
       None \<Rightarrow> (Inl NotFound, d)
     | Some FsDir \<Rightarrow> if p = [] \<or> children d p \<noteq> [] then (Inl OtherIo, d) else (Inr (), del p d)
     | Some _ \<Rightarrow> (Inl OtherIo, d)) whole"

text \<open>\<open>remove_dir_all\<close>: entry by entry, the deepest first; it may stop anywhere.\<close>

definition remove_entry :: "path \<Rightarrow> (world, fs_error, unit) action" where
  "remove_entry p = io (\<lambda>d. (Inr (), del p d)) whole"

definition victims :: "disk \<Rightarrow> path \<Rightarrow> path list" where
  "victims d p = rev (sort_key length (remdups (filter (prefix p) (map fst d))))"

definition remove_dir_all :: "path \<Rightarrow> (world, fs_error, unit) action" where
  "remove_dir_all p =
     do_then (stat p) (\<lambda>e.
       if e = FsDir then (\<lambda>w. do_each remove_entry (victims (disk w) p) w) else do_fail OtherIo)"

text \<open>A call whose only outcome is success or failure: \<open>sync_all\<close>, opening a directory, permissions.\<close>

definition sync :: "(world, fs_error, unit) action" where
  "sync = io (\<lambda>d. (Inr (), d)) whole"

definition open_path :: "path \<Rightarrow> (world, fs_error, unit) action" where
  "open_path p = io (\<lambda>d. (if entry_at d p = None then Inl NotFound else Inr (), d)) whole"

subsection \<open>Hoare triples for actions\<close>

definition triple :: "('s \<Rightarrow> bool) \<Rightarrow> ('s, 'e, 'a) action \<Rightarrow> ('a \<Rightarrow> 's \<Rightarrow> bool) \<Rightarrow> ('e \<Rightarrow> 's \<Rightarrow> bool) \<Rightarrow> bool" where
  "triple P m Q E \<longleftrightarrow> (\<forall>s. P s \<longrightarrow> (case m s of (Inr x, t) \<Rightarrow> Q x t | (Inl e, t) \<Rightarrow> E e t))"

section \<open>Lemmas\<close>

subsection \<open>Triples\<close>

lemma tripleI:
  assumes "\<And>s x t. P s \<Longrightarrow> m s = (Inr x, t) \<Longrightarrow> Q x t" "\<And>s e t. P s \<Longrightarrow> m s = (Inl e, t) \<Longrightarrow> E e t"
  shows "triple P m Q E"
  unfolding triple_def using assms by (auto split: prod.splits sum.splits)

lemma triple_ok: "triple P m Q E \<Longrightarrow> P s \<Longrightarrow> m s = (Inr x, t) \<Longrightarrow> Q x t"
  by (auto simp: triple_def)

lemma triple_err: "triple P m Q E \<Longrightarrow> P s \<Longrightarrow> m s = (Inl e, t) \<Longrightarrow> E e t"
  by (auto simp: triple_def)

lemma triple_weaken:
  assumes "triple P m Q E" "\<And>s. P' s \<Longrightarrow> P s" "\<And>x t. Q x t \<Longrightarrow> Q' x t" "\<And>e t. E e t \<Longrightarrow> E' e t"
  shows "triple P' m Q' E'"
proof (rule tripleI)
  fix s x t assume "P' s" "m s = (Inr x, t)"
  then show "Q' x t" using assms(1-3) triple_ok [OF assms(1)] by blast
next
  fix s e t assume "P' s" "m s = (Inl e, t)"
  then show "E' e t" using assms(2,4) triple_err [OF assms(1)] by blast
qed

lemma triple_then:
  assumes "triple P m R E" "\<And>x. triple (R x) (f x) Q E"
  shows "triple P (do_then m f) Q E"
  using assms unfolding triple_def do_then_def by (fastforce split: prod.splits sum.splits)

lemma triple_return: "triple (Q x) (do_return x) Q E"
  by (simp add: triple_def)

lemma triple_fail: "triple (E e) (do_fail e) Q E"
  by (simp add: triple_def)

lemma triple_map_err:
  assumes "triple P m Q (\<lambda>e. E (g e))"
  shows "triple P (do_map_err g m) Q E"
  using assms unfolding triple_def do_map_err_def by (auto split: prod.splits sum.splits)

lemma triple_relabel: "triple P m Q (\<lambda>_. E) \<Longrightarrow> triple P (do_map_err g m) Q (\<lambda>_. E)"
  by (rule triple_map_err)

lemma triple_each:
  assumes "\<And>x. x \<in> set xs \<Longrightarrow> triple I (f x) (\<lambda>_. I) (\<lambda>_. I)"
  shows "triple I (do_each f xs) (\<lambda>_. I) (\<lambda>_. I)"
  using assms
proof (induction xs)
  case Nil
  then show ?case by (simp add: triple_def)
next
  case (Cons x xs)
  then show ?case by (auto intro!: triple_then)
qed

lemma triple_each_stuck:
  assumes "\<And>x. x \<in> set xs \<Longrightarrow> triple I (f x) (\<lambda>_. I) (\<lambda>_. I)"
    and "y \<in> set xs" "triple I (f y) (\<lambda>_ _. False) (\<lambda>_. I)"
  shows "triple I (do_each f xs) (\<lambda>_ _. False) (\<lambda>_. I)"
  using assms
proof (induction xs)
  case (Cons x xs)
  show ?case
  proof (cases "y \<in> set xs")
    case True
    then show ?thesis using Cons by (auto intro!: triple_then)
  next
    case False
    then have "triple I (f x) (\<lambda>_ _. False) (\<lambda>_. I)" using Cons.prems by auto
    then show ?thesis by (auto simp: triple_def do_then_def split: prod.splits sum.splits)
  qed
qed simp

abbreviation holds :: "(disk \<Rightarrow> bool) \<Rightarrow> world \<Rightarrow> bool" where
  "holds \<Phi> \<equiv> \<lambda>w. \<Phi> (disk w)"

lemma triple_pointwise: "(\<And>d. \<Phi> d \<Longrightarrow> triple (\<lambda>w. disk w = d) m Q E) \<Longrightarrow> triple (\<lambda>w. \<Phi> (disk w)) m Q E"
  by (simp add: triple_def)

lemma triple_lift: "(\<And>x. r = Inr x \<Longrightarrow> triple P (f x) Q E) \<Longrightarrow> (\<And>e s. r = Inl e \<Longrightarrow> P s \<Longrightarrow> E e s) \<Longrightarrow> triple P (do_then (do_lift r) f) Q E"
  by (cases r) (auto simp: triple_def do_then_def)

lemma triple_match:
  assumes "triple P m R F" "\<And>x. triple (R x) (f (Inr x)) Q E" "\<And>e. triple (F e) (f (Inl e)) Q E"
  shows "triple P (do_match m f) Q E"
proof -
  have "case do_match m f s of (Inl e, t) \<Rightarrow> E e t | (Inr x, t) \<Rightarrow> Q x t" if "P s" for s
  proof (cases "m s")
    case (Pair r u)
    show ?thesis
    proof (cases r)
      case (Inl e)
      have "F e u" using triple_err [OF assms(1) \<open>P s\<close>] Pair Inl by blast
      then show ?thesis using assms(3) [of e] Pair Inl by (auto simp: triple_def do_match_def)
    next
      case (Inr x)
      have "R x u" using triple_ok [OF assms(1) \<open>P s\<close>] Pair Inr by blast
      then show ?thesis using assms(2) [of x] Pair Inr by (auto simp: triple_def do_match_def)
    qed
  qed
  then show ?thesis by (simp add: triple_def)
qed

lemma triple_if: "triple P a Q E \<Longrightarrow> triple P b Q E \<Longrightarrow> triple P (if c then a else b) Q E"
  by simp

lemma triple_done: "triple P (do_return x) (\<lambda>_. P) E" "triple P (do_fail e) Q (\<lambda>_. P)"
  by (simp_all add: triple_def)

text \<open>An operation under an arbitrary fault: whatever the schedule says, either nothing happened or
  the operation ran.\<close>

lemma io_cases:
  assumes "io f torn w = (r, w')"
  obtains "faults w = [] \<or> (\<exists>fs. faults w = Proceed # fs)" "f (disk w) = (r, disk w')"
    | "r = Inl OtherIo" "disk w' = disk w"
    | n where "r = Inl OtherIo" "disk w' = torn n (disk w)"
  using assms unfolding io_def by (auto split: list.splits fault.splits prod.splits)

lemma io_no_fault: "faults w = [] \<Longrightarrow> io f torn w = (case f (disk w) of (r, d) \<Rightarrow> (r, w\<lparr>disk := d\<rparr>))"
  by (simp add: io_def)

lemma io_faults: "io f torn w = (r, w') \<Longrightarrow> faults w = [] \<Longrightarrow> faults w' = []"
  by (auto simp: io_def split: prod.splits)

subsection \<open>The disk\<close>

lemma map_of_del: "map_of (del p d) q = (if q = p then None else map_of d q)"
  by (induction d) (auto simp: del_def)

lemma entry_at_del: "entry_at (del p d) q = (if q = p \<and> p \<noteq> [] then None else entry_at d q)"
  by (simp add: entry_at_def map_of_del)

lemma entry_at_put: "p \<noteq> [] \<Longrightarrow> entry_at (put p e d) q = (if q = p then Some e else entry_at d q)"
  by (simp add: entry_at_def put_def map_of_del)

lemma map_of_del_tree: "map_of (del_tree p d) q = (if prefix p q then None else map_of d q)"
  by (induction d) (auto simp: del_tree_def)

lemma map_of_move_tree:
  assumes "\<not> prefix p q" "\<not> prefix q p"
  shows "map_of (move_tree p q d) r =
    (if prefix q r then map_of d (p @ drop (length q) r) else if prefix p r then None else map_of d r)"
proof -
  have "map_of (map (\<lambda>(r, e). (if prefix p r then q @ drop (length p) r else r, e)) (del_tree q d)) r =
    (if prefix q r then map_of d (p @ drop (length q) r) else if prefix p r then None else map_of d r)"
  proof (induction d)
    case Nil
    then show ?case by (simp add: del_tree_def)
  next
    case (Cons x d)
    obtain s e where x: "x = (s, e)" by (cases x)
    have nq: "\<not> prefix q (p @ t)" for t
      using assms by (auto simp: prefix_append prefix_def append_eq_append_conv2)
    have np: "\<not> prefix p (q @ t)" for t
      using assms by (auto simp: prefix_append prefix_def append_eq_append_conv2)
    show ?case
      using Cons nq np by (auto simp: x del_tree_def prefix_def)
  qed
  then show ?thesis by (simp add: move_tree_def)
qed

lemma entry_at_move_tree:
  assumes "\<not> prefix p q" "\<not> prefix q p" "p \<noteq> []" "q \<noteq> []"
  shows "entry_at (move_tree p q d) r =
    (if prefix q r then entry_at d (p @ drop (length q) r) else if prefix p r then None else entry_at d r)"
  using map_of_move_tree [OF assms(1,2)] assms(3,4) by (auto simp: entry_at_def)

lemma entry_at_append_file:
  "p \<noteq> [] \<Longrightarrow> entry_at (append_file p bs d) q =
     (case entry_at d p of
        Some (FsFile old) \<Rightarrow> if q = p then Some (FsFile (old @ bs)) else entry_at d q
      | _ \<Rightarrow> entry_at d q)"
  by (auto simp: append_file_def entry_at_put split: option.splits entry.splits)

lemma children_set: "n \<in> set (children d p) \<longleftrightarrow> map_of d (p @ [n]) \<noteq> None"
proof -
  have q: "(if q \<noteq> [] \<and> butlast q = p then Some (last q) else None) = Some n \<longleftrightarrow> q = p @ [n]" for q
    by (cases q rule: rev_cases) auto
  have "n \<in> set (children d p) \<longleftrightarrow> (\<exists>x\<in>set d. fst x = p @ [n])"
    unfolding children_def set_remdups in_set_map_filter by (simp add: case_prod_beta q)
  also have "\<dots> \<longleftrightarrow> map_of d (p @ [n]) \<noteq> None"
    unfolding map_of_eq_None_iff by (metis (no_types, lifting) imageE image_eqI)
  finally show ?thesis .
qed

lemma children_entry: "n \<in> set (children d p) \<longleftrightarrow> entry_at d (p @ [n]) \<noteq> None"
  by (simp add: children_set entry_at_def)

lemma children_empty: "children d p = [] \<longleftrightarrow> (\<forall>n. entry_at d (p @ [n]) = None)"
  using children_entry [of _ d p] by (metis list.set_intros(1) neq_Nil_conv empty_iff empty_set)

lemma children_distinct [simp]: "distinct (children d p)"
  by (simp add: children_def)

subsection \<open>Runs without faults\<close>

text \<open>The file system left alone: every operation is then a function of the disk.\<close>

named_theorems quiet_simps \<open>operations without faults\<close>

definition quiet :: "disk \<Rightarrow> world" where
  "quiet d = \<lparr>disk = d, faults = []\<rparr>"

lemma io_quiet: "io f torn (quiet d) = (case f d of (r, d') \<Rightarrow> (r, quiet d'))"
  by (auto simp: io_def quiet_def split: prod.splits)

lemma disk_quiet [quiet_simps]: "disk (quiet d) = d"
  by (simp add: quiet_def)

lemma quiet_ops [quiet_simps]:
  "stat p (quiet d) = (ok_or (entry_at d p) NotFound, quiet d)"
  "sync (quiet d) = (Inr (), quiet d)"
  "remove_entry p (quiet d) = (Inr (), quiet (del p d))"
  "write_file p bs (quiet d) = (Inr (), quiet (append_file p bs d))"
  by (simp_all add: stat_def sync_def remove_entry_def write_file_def io_quiet)

lemma path_exists_quiet [quiet_simps]:
  "path_exists p (quiet d) =
     (Inr (case entry_at d p of None \<Rightarrow> False | Some (FsLink target) \<Rightarrow> target \<noteq> Dangling | Some _ \<Rightarrow> True), quiet d)"
  by (auto simp: path_exists_def quiet_simps ok_or_def split: option.splits entry.splits)

lemma open_or_create_quiet [quiet_simps]:
  "open_or_create p (quiet d) =
     (case entry_at d p of
       None \<Rightarrow>
         if entry_at d (butlast p) \<noteq> Some FsDir then (Inl NotFound, quiet d) else (Inr (), quiet (put p (FsFile []) d))
     | Some (FsFile _) \<Rightarrow> (Inr (), quiet d)
     | Some (FsLink ToOther) \<Rightarrow> (Inr (), quiet d)
     | Some _ \<Rightarrow> (Inl OtherIo, quiet d))"
  by (auto simp: open_or_create_def io_quiet split: option.splits entry.splits link_target.splits)

lemma path_is_dir_quiet [quiet_simps]:
  "path_is_dir p (quiet d) = (Inr (entry_at d p = Some FsDir \<or> entry_at d p = Some (FsLink ToDirectory)), quiet d)"
  by (auto simp: path_is_dir_def quiet_simps ok_or_def split: option.splits)

lemma create_dir_all_quiet [quiet_simps]:
  "entry_at d p = Some FsDir \<Longrightarrow> create_dir_all p (quiet d) = (Inr (), quiet d)"
  by (simp add: create_dir_all.simps [of p] accept_dir_def create_dir_def io_quiet do_defs path_is_dir_quiet)

lemma open_path_quiet [quiet_simps]:
  "open_path p (quiet d) = (if entry_at d p = None then Inl NotFound else Inr (), quiet d)"
  by (simp add: open_path_def io_quiet)

lemma read_dir_quiet [quiet_simps]:
  "read_dir p (quiet d) =
     (if entry_at d p = None then Inl NotFound
      else if entry_at d p \<noteq> Some FsDir then Inl OtherIo else Inr (children d p), quiet d)"
  by (simp add: read_dir_def io_quiet)

lemma read_file_quiet [quiet_simps]:
  "read_file p (quiet d) =
     (case entry_at d p of Some (FsFile bs) \<Rightarrow> Inr bs | None \<Rightarrow> Inl NotFound | _ \<Rightarrow> Inl OtherIo, quiet d)"
  by (simp add: read_file_def io_quiet)

lemma create_dir_quiet [quiet_simps]:
  "create_dir p (quiet d) =
     (if entry_at d p \<noteq> None then (Inl AlreadyExists, quiet d)
      else if entry_at d (butlast p) \<noteq> Some FsDir then (Inl NotFound, quiet d)
      else (Inr (), quiet (put p FsDir d)))"
  by (simp add: create_dir_def io_quiet)

lemma create_new_quiet [quiet_simps]:
  "create_new p (quiet d) =
     (if entry_at d p \<noteq> None then (Inl AlreadyExists, quiet d)
      else if entry_at d (butlast p) \<noteq> Some FsDir then (Inl NotFound, quiet d)
      else (Inr (), quiet (put p (FsFile []) d)))"
  by (simp add: create_new_def io_quiet)

lemma rename_quiet [quiet_simps]:
  "rename p q (quiet d) =
     (if entry_at d p = None then (Inl NotFound, quiet d)
      else if prefix p q \<or> \<not> rename_allowed d p q then (Inl OtherIo, quiet d)
      else (Inr (), quiet (move_tree p q d)))"
  by (simp add: rename_def io_quiet)

lemma remove_file_quiet [quiet_simps]:
  "remove_file p (quiet d) =
     (case entry_at d p of
        None \<Rightarrow> (Inl NotFound, quiet d)
      | Some FsDir \<Rightarrow> (Inl OtherIo, quiet d)
      | Some _ \<Rightarrow> (Inr (), quiet (del p d)))"
  by (auto simp: remove_file_def io_quiet split: option.splits entry.splits)

lemma remove_dir_quiet [quiet_simps]:
  "remove_dir p (quiet d) =
     (case entry_at d p of
        None \<Rightarrow> (Inl NotFound, quiet d)
      | Some FsDir \<Rightarrow> if p = [] \<or> children d p \<noteq> [] then (Inl OtherIo, quiet d) else (Inr (), quiet (del p d))
      | Some _ \<Rightarrow> (Inl OtherIo, quiet d))"
  by (auto simp: remove_dir_def io_quiet split: option.splits entry.splits)

subsection \<open>Operations under faults\<close>

text \<open>Each operation either takes effect or leaves the disk as it was; the rules carry any assertion
  on the disk over the operation.\<close>

lemma io_rule:
  assumes "\<And>d x d'. \<Phi> d \<Longrightarrow> f d = (Inr x, d') \<Longrightarrow> \<Psi> x d'"
    "\<And>d e d'. \<Phi> d \<Longrightarrow> f d = (Inl e, d') \<Longrightarrow> \<Theta> e d'" "\<And>d. \<Phi> d \<Longrightarrow> \<Theta> OtherIo d"
  shows "triple (\<lambda>w. \<Phi> (disk w)) (io f whole) (\<lambda>x w. \<Psi> x (disk w)) (\<lambda>e w. \<Theta> e (disk w))"
proof (rule tripleI)
  fix w x w' assume "\<Phi> (disk w)" and run: "io f whole w = (Inr x, w')"
  then show "\<Psi> x (disk w')" by - (erule io_cases, auto simp: whole_def intro: assms)
next
  fix w e w' assume "\<Phi> (disk w)" and run: "io f whole w = (Inl e, w')"
  then show "\<Theta> e (disk w')" by - (erule io_cases, auto simp: whole_def intro: assms)
qed

lemma io_read_only:
  assumes "\<And>d. snd (f d) = d"
  shows "triple (\<lambda>w. \<Phi> (disk w)) (io f whole) (\<lambda>_ w. \<Phi> (disk w)) (\<lambda>_ w. \<Phi> (disk w))"
proof (rule io_rule)
  fix d x d' assume "\<Phi> d" "f d = (Inr x, d')"
  then show "\<Phi> d'" using assms [of d] by simp
next
  fix d e d' assume "\<Phi> d" "f d = (Inl e, d')"
  then show "\<Phi> d'" using assms [of d] by simp
qed

lemma stat_triple:
  "triple (\<lambda>w. \<Phi> (disk w)) (stat p) (\<lambda>e w. \<Phi> (disk w) \<and> entry_at (disk w) p = Some e) (\<lambda>_ w. \<Phi> (disk w))"
  unfolding stat_def by (rule io_rule) (auto simp: ok_or_def split: option.splits)

lemma sync_triple: "triple (\<lambda>w. \<Phi> (disk w)) sync (\<lambda>_ w. \<Phi> (disk w)) (\<lambda>_ w. \<Phi> (disk w))"
  unfolding sync_def by (rule io_read_only) simp

lemma open_path_triple: "triple (\<lambda>w. \<Phi> (disk w)) (open_path p) (\<lambda>_ w. \<Phi> (disk w)) (\<lambda>_ w. \<Phi> (disk w))"
  unfolding open_path_def by (rule io_read_only) simp

lemma read_dir_triple: "triple (\<lambda>w. \<Phi> (disk w)) (read_dir p) (\<lambda>_ w. \<Phi> (disk w)) (\<lambda>_ w. \<Phi> (disk w))"
  unfolding read_dir_def by (rule io_read_only) simp

lemma path_exists_triple: "triple (\<lambda>w. \<Phi> (disk w)) (path_exists p) (\<lambda>_ w. \<Phi> (disk w)) E"
proof (rule tripleI)
  fix w x w' assume w: "\<Phi> (disk w)" and run: "path_exists p w = (Inr x, w')"
  from run show "\<Phi> (disk w')"
    using triple_ok [OF stat_triple [of \<Phi>] w] triple_err [OF stat_triple [of \<Phi>] w]
    by (auto simp: path_exists_def split: prod.splits sum.splits entry.splits)
qed (auto simp: path_exists_def split: prod.splits sum.splits entry.splits)

lemma path_is_dir_triple: "triple (\<lambda>w. \<Phi> (disk w)) (path_is_dir p) (\<lambda>_ w. \<Phi> (disk w)) E"
proof (rule tripleI)
  fix w x w' assume w: "\<Phi> (disk w)" and run: "path_is_dir p w = (Inr x, w')"
  from run show "\<Phi> (disk w')"
    using triple_ok [OF stat_triple [of \<Phi>] w] triple_err [OF stat_triple [of \<Phi>] w]
    by (auto simp: path_is_dir_def split: prod.splits sum.splits)
qed (auto simp: path_is_dir_def split: prod.splits sum.splits)

lemma open_or_create_triple:
  assumes "\<And>d. \<Phi> d \<Longrightarrow> entry_at d p = None \<Longrightarrow> \<Phi> (put p (FsFile []) d)"
  shows "triple (\<lambda>w. \<Phi> (disk w)) (open_or_create p) (\<lambda>_ w. \<Phi> (disk w)) (\<lambda>_ w. \<Phi> (disk w))"
  unfolding open_or_create_def
  by (rule io_rule) (auto split: if_splits option.splits entry.splits link_target.splits intro: assms)

lemma create_new_triple:
  assumes "\<And>d. \<Phi> d \<Longrightarrow> entry_at d p = None \<Longrightarrow> \<Psi> (put p (FsFile []) d)"
  shows "triple (\<lambda>w. \<Phi> (disk w)) (create_new p) (\<lambda>_ w. \<Psi> (disk w)) (\<lambda>_ w. \<Phi> (disk w))"
  unfolding create_new_def by (rule io_rule) (auto split: if_splits intro: assms)

lemma write_file_triple:
  assumes "\<And>d. \<Phi> d \<Longrightarrow> \<Psi> (append_file p bs d)" "\<And>d n. \<Phi> d \<Longrightarrow> \<Theta> (append_file p (take n bs) d)" "\<And>d. \<Phi> d \<Longrightarrow> \<Theta> d"
  shows "triple (\<lambda>w. \<Phi> (disk w)) (write_file p bs) (\<lambda>_ w. \<Psi> (disk w)) (\<lambda>_ w. \<Theta> (disk w))"
proof (rule tripleI)
  fix w x w' assume "\<Phi> (disk w)" and run: "write_file p bs w = (Inr x, w')"
  then show "\<Psi> (disk w')" unfolding write_file_def by - (erule io_cases, auto dest: assms(1))
next
  fix w e w' assume w: "\<Phi> (disk w)" and run: "write_file p bs w = (Inl e, w')"
  from run show "\<Theta> (disk w')"
    unfolding write_file_def by (rule io_cases) (auto intro: assms(2,3) [OF w])
qed

lemma read_file_triple:
  "triple (\<lambda>w. \<Phi> (disk w)) (read_file p) (\<lambda>bs w. \<Phi> (disk w) \<and> entry_at (disk w) p = Some (FsFile bs)) (\<lambda>_ w. \<Phi> (disk w))"
  unfolding read_file_def by (rule io_rule) (auto split: option.splits entry.splits)

lemma create_dir_triple:
  assumes "\<And>d. \<Phi> d \<Longrightarrow> entry_at d p = None \<Longrightarrow> \<Psi> (put p FsDir d)"
  shows "triple (\<lambda>w. \<Phi> (disk w)) (create_dir p) (\<lambda>_ w. \<Psi> (disk w)) (\<lambda>_ w. \<Phi> (disk w))"
  unfolding create_dir_def by (rule io_rule) (auto split: if_splits intro: assms)

lemma create_dir_all_triple:
  assumes "\<And>d q. \<Phi> d \<Longrightarrow> prefix q p \<Longrightarrow> entry_at d q = None \<Longrightarrow> \<Phi> (put q FsDir d)"
  shows "triple (\<lambda>w. \<Phi> (disk w)) (create_dir_all p) (\<lambda>_ w. \<Phi> (disk w)) (\<lambda>_ w. \<Phi> (disk w))"
  using assms
proof (induction p rule: create_dir_all.induct)
  case (1 p)
  have c: "triple (\<lambda>w. \<Phi> (disk w)) (create_dir p) (\<lambda>_ w. \<Phi> (disk w)) (\<lambda>_ w. \<Phi> (disk w))"
    by (rule create_dir_triple) (rule 1(2), auto)
  have a: "triple (\<lambda>w. \<Phi> (disk w)) (accept_dir p e) (\<lambda>_ w. \<Phi> (disk w)) (\<lambda>_ w. \<Phi> (disk w))" for e
    unfolding accept_dir_def by (intro triple_then [OF path_is_dir_triple [of \<Phi>]] triple_if triple_done)
  have "prefix q (butlast p) \<Longrightarrow> prefix q p" for q
    by (metis append_butlast_last_id butlast.simps(1) prefix_append)
  then have IH: "triple (\<lambda>w. \<Phi> (disk w)) (create_dir_all (butlast p)) (\<lambda>_ w. \<Phi> (disk w)) (\<lambda>_ w. \<Phi> (disk w))" if "p \<noteq> []"
    using 1(1) [of NotFound] that 1(2) by blast
  show ?case
    unfolding create_dir_all.simps [of p]
    by (rule triple_match [OF c]) (auto intro!: triple_done a triple_then [OF IH] triple_match [OF c])
qed

lemma rename_triple:
  assumes "\<And>d. \<Phi> d \<Longrightarrow> entry_at d p \<noteq> None \<Longrightarrow> \<Psi> (move_tree p q d)"
  shows "triple (\<lambda>w. \<Phi> (disk w)) (rename p q) (\<lambda>_ w. \<Psi> (disk w)) (\<lambda>_ w. \<Phi> (disk w))"
  unfolding rename_def by (rule io_rule) (auto split: if_splits intro: assms)

lemma remove_file_triple:
  assumes "\<And>d. \<Phi> d \<Longrightarrow> entry_at d p \<noteq> None \<Longrightarrow> \<Psi> (del p d)"
  shows "triple (\<lambda>w. \<Phi> (disk w)) (remove_file p) (\<lambda>_ w. \<Psi> (disk w))
    (\<lambda>e w. \<Phi> (disk w) \<and> (e = NotFound \<longrightarrow> entry_at (disk w) p = None))"
  unfolding remove_file_def by (rule io_rule) (auto split: option.splits entry.splits intro: assms)

lemma remove_dir_triple:
  assumes "\<And>d. \<Phi> d \<Longrightarrow> entry_at d p = Some FsDir \<Longrightarrow> children d p = [] \<Longrightarrow> \<Psi> (del p d)"
  shows "triple (\<lambda>w. \<Phi> (disk w)) (remove_dir p) (\<lambda>_ w. \<Psi> (disk w))
    (\<lambda>e w. \<Phi> (disk w) \<and> (e = NotFound \<longrightarrow> entry_at (disk w) p = None))"
  unfolding remove_dir_def by (rule io_rule) (auto split: option.splits entry.splits if_splits intro: assms)

lemma remove_entry_triple:
  assumes "\<And>d. \<Phi> d \<Longrightarrow> \<Psi> (del p d)"
  shows "triple (\<lambda>w. \<Phi> (disk w)) (remove_entry p) (\<lambda>_ w. \<Psi> (disk w)) (\<lambda>_ w. \<Phi> (disk w))"
  unfolding remove_entry_def by (rule io_rule) (auto intro: assms)

text \<open>Changing one entry of a disk.\<close>

definition entry_set :: "path \<Rightarrow> entry option \<Rightarrow> disk \<Rightarrow> disk \<Rightarrow> bool" where
  "entry_set p e d d' \<longleftrightarrow> (\<forall>q. entry_at d' q = (if q = p then e else entry_at d q))"

lemma entry_set_put: "p \<noteq> [] \<Longrightarrow> entry_set p (Some e) d (put p e d)"
  by (simp add: entry_set_def entry_at_put)

lemma entry_set_del: "p \<noteq> [] \<Longrightarrow> entry_set p None d (del p d)"
  by (simp add: entry_set_def entry_at_del)

subsection \<open>Deleting a directory tree\<close>

lemma remove_entries_triple:
  assumes "[] \<notin> set xs"
  shows "triple (\<lambda>w. disk w = d) (do_each remove_entry xs)
    (\<lambda>_ w. \<forall>q. entry_at (disk w) q = (if q \<in> set xs then None else entry_at d q))
    (\<lambda>_ w. \<exists>k < length xs. \<forall>q. entry_at (disk w) q = (if q \<in> set (take k xs) then None else entry_at d q))"
  using assms
proof (induction xs arbitrary: d)
  case Nil
  then show ?case by (simp add: triple_def)
next
  case (Cons x xs)
  let ?E = "\<lambda>_ w. \<exists>k < length (x # xs). \<forall>q. entry_at (disk w) q = (if q \<in> set (take k (x # xs)) then None else entry_at d q)"
  have r: "triple (\<lambda>w. disk w = d) (remove_entry x) (\<lambda>_ w. disk w = del x d) ?E"
    by (rule triple_weaken [OF remove_entry_triple [of "\<lambda>d'. d' = d" "\<lambda>d'. d' = del x d"]]) auto
  have s: "triple (\<lambda>w. disk w = del x d) (do_each remove_entry xs)
      (\<lambda>_ w. \<forall>q. entry_at (disk w) q = (if q \<in> set (x # xs) then None else entry_at d q)) ?E"
  proof (rule triple_weaken [OF Cons.IH])
    fix w :: world assume "\<exists>k<length xs. \<forall>q. entry_at (disk w) q = (if q \<in> set (take k xs) then None else entry_at (del x d) q)"
    then obtain k where "k < length xs" "\<forall>q. entry_at (disk w) q = (if q \<in> set (take k xs) then None else entry_at (del x d) q)" by blast
    then have "Suc k < length (x # xs) \<and> (\<forall>q. entry_at (disk w) q = (if q \<in> set (take (Suc k) (x # xs)) then None else entry_at d q))"
      using Cons.prems by (auto simp: entry_at_del)
    then show "?E () w" by blast
  qed (use Cons.prems in \<open>auto simp: entry_at_del\<close>)
  show ?case unfolding do_each.simps by (rule triple_then [OF r s])
qed

lemma victims_order:
  assumes "k < length (victims d p)"
  shows "p \<notin> set (take k (victims d p))"
proof
  let ?v = "victims d p"
  assume p: "p \<in> set (take k ?v)"
  have "distinct ?v" by (simp add: victims_def)
  then have disj: "set (take k ?v) \<inter> set (drop k ?v) = {}"
    by (metis append_take_drop_id distinct_append)
  have y: "?v ! k \<in> set (drop k ?v)" using assms by (metis Cons_nth_drop_Suc list.set_intros(1))
  have "sorted (map length (rev ?v))" by (simp add: victims_def)
  then have "sorted_wrt (\<ge>) (map length ?v)"
    by (simp add: sorted_wrt_rev rev_map [symmetric])
  then have "sorted_wrt (\<lambda>x z. length z \<le> length x) (take k ?v @ drop k ?v)"
    by (simp add: sorted_wrt_map)
  then have "length (?v ! k) \<le> length p"
    using p y unfolding sorted_wrt_append by blast
  moreover have "prefix p (?v ! k)"
    using nth_mem [OF assms] by (auto simp: victims_def)
  ultimately have "?v ! k = p" by (metis append_Nil2 append_eq_append_conv le_antisym prefix_def prefix_length_le)
  with p y disj show False by auto
qed

lemma victims_cover: "p \<noteq> [] \<Longrightarrow> prefix p q \<Longrightarrow> q \<notin> set (victims d p) \<Longrightarrow> entry_at d q = None"
  by (auto simp: victims_def entry_at_def map_of_eq_None_iff)

lemma victims_prefix: "q \<in> set (victims d p) \<Longrightarrow> prefix p q"
  by (auto simp: victims_def)

text \<open>A deletion removes the whole tree or, interrupted, some entries below its root.\<close>

lemma remove_dir_all_triple:
  assumes p: "p \<noteq> []"
  shows "triple (\<lambda>w. disk w = d) (remove_dir_all p)
    (\<lambda>_ w. \<forall>q. entry_at (disk w) q = (if prefix p q then None else entry_at d q))
    (\<lambda>_ w. \<exists>X. p \<notin> X \<and> (\<forall>q\<in>X. prefix p q) \<and> (\<forall>q. entry_at (disk w) q = (if q \<in> X then None else entry_at d q)))"
    (is "triple _ _ ?Q ?E")
proof -
  have s: "triple (\<lambda>w. disk w = d) (stat p) (\<lambda>_ w. disk w = d) ?E"
    by (rule triple_weaken [OF stat_triple [of "\<lambda>d'. d' = d"]]) auto
  have "[] \<notin> set (victims d p)" using p victims_prefix [of "[]" d p] by auto
  from remove_entries_triple [OF this, of d]
  have v: "triple (\<lambda>w. disk w = d) (do_each remove_entry (victims d p)) ?Q ?E"
  proof (rule triple_weaken)
    fix w :: world assume "\<forall>q. entry_at (disk w) q = (if q \<in> set (victims d p) then None else entry_at d q)"
    then show "?Q () w" using victims_cover [OF p] victims_prefix by auto
  next
    fix w :: world assume "\<exists>k<length (victims d p). \<forall>q. entry_at (disk w) q = (if q \<in> set (take k (victims d p)) then None else entry_at d q)"
    then obtain k where k: "k < length (victims d p)" "\<forall>q. entry_at (disk w) q = (if q \<in> set (take k (victims d p)) then None else entry_at d q)" by blast
    then show "?E OtherIo w"
      using victims_order [OF k(1)] victims_prefix [of _ d p] by (intro exI [of _ "set (take k (victims d p))"]) (auto dest: in_set_takeD)
  qed simp
  then have v': "triple (\<lambda>w. disk w = d) (\<lambda>w. do_each remove_entry (victims (disk w) p) w) ?Q ?E"
    by (simp add: triple_def)
  have f: "triple (\<lambda>w. disk w = d) (do_fail OtherIo) ?Q ?E"
    by (auto simp: triple_def)
  show ?thesis
    unfolding remove_dir_all_def by (rule triple_then [OF s]) (simp add: v' f)
qed

subsection \<open>Successful runs\<close>

lemma butlast_neq: "p \<noteq> [] \<Longrightarrow> butlast p \<noteq> p"
  by (cases p rule: rev_cases) auto

text \<open>\<open>runs m d d'\<close>: on the disk \<open>d\<close>, with no fault, \<open>m\<close> succeeds and leaves \<open>d'\<close>.\<close>

definition runs :: "(world, 'e, unit) action \<Rightarrow> disk \<Rightarrow> disk \<Rightarrow> bool" where
  "runs m d d' \<longleftrightarrow> m (quiet d) = (Inr (), quiet d')"

lemma runs_then: "runs m d d' \<Longrightarrow> runs (f ()) d' d'' \<Longrightarrow> runs (do_then m f) d d''"
  by (simp add: runs_def do_then_def)

lemma runs_each: "(\<And>x. x \<in> set xs \<Longrightarrow> runs (f x) d d) \<Longrightarrow> runs (do_each f xs) d d"
proof (induction xs)
  case Nil
  then show ?case by (simp add: runs_def)
next
  case (Cons x xs)
  then show ?case unfolding do_each.simps by (intro runs_then [of _ d d]) auto
qed

lemma runs_map_err: "runs m d d' \<Longrightarrow> runs (do_map_err g m) d d'"
  by (simp add: runs_def)

lemma runs_return: "runs (do_return ()) d d"
  by (simp add: runs_def)

lemma remove_entries_quiet: "\<exists>d'. do_each remove_entry xs (quiet d) = (Inr (), quiet d')"
  by (induction xs arbitrary: d) (auto simp: do_then_def quiet_simps)

lemma runs_remove_dir_all:
  assumes "p \<noteq> []" "entry_at d p = Some FsDir"
  shows "\<exists>d'. runs (remove_dir_all p) d d' \<and> (\<forall>q. entry_at d' q = (if prefix p q then None else entry_at d q))"
proof -
  obtain d' where d': "do_each remove_entry (victims d p) (quiet d) = (Inr (), quiet d')"
    using remove_entries_quiet by blast
  then have "remove_dir_all p (quiet d) = (Inr (), quiet d')"
    using assms by (simp add: remove_dir_all_def do_then_def quiet_simps ok_or_def)
  moreover from triple_ok [OF remove_dir_all_triple [OF assms(1), of d] _ this]
  have "\<forall>q. entry_at d' q = (if prefix p q then None else entry_at d q)"
    by (simp add: quiet_simps)
  ultimately show ?thesis by (auto simp: runs_def)
qed

end
