(* ===== verification/Identifiers.thy ===== *)
theory Identifiers
  imports Prelude
begin

text \<open>
  \<^verbatim>\<open>crates/guardian-core/src/identifiers.rs\<close>: the validated string newtypes. A newtype over
  \<open>String\<close> with a private field is modelled by the string it holds; its \<open>parse\<close> constructor is
  the only way to obtain one, so the parser's acceptance condition is the type's invariant.
  \<open>Deserialize\<close> goes through \<open>parse\<close> as well.
\<close>

section \<open>Definitions\<close>

type_synonym backup_id = string
type_synonym run_id = string
type_synonym profile_id = string
type_synonym plan_id = string
type_synonym repository_id = string
type_synonym credential_id = string
type_synonym database_id = string
type_synonym payload_path = string
type_synonym archive_path = string
type_synonym remote_target_path = string
type_synonym remote_path = string
type_synonym timestamp = string

datatype identifier_error =
    Invalid string
  | InvalidPayloadPath
  | InvalidArchivePath
  | InvalidRemoteTargetPath
  | InvalidRemotePath
  | InvalidTimestamp

definition identifier_byte :: "char \<Rightarrow> bool" where
  "identifier_byte b \<longleftrightarrow> is_ascii_alphanumeric b \<or> b \<in> {CHR ''-'', CHR ''_''}"

definition parse_identifier :: "string \<Rightarrow> string \<Rightarrow> identifier_error + string" where
  "parse_identifier value kind =
     ok_if (value \<noteq> [] \<and> length value \<le> 64 \<and> list_all identifier_byte value)
       value (identifier_error.Invalid kind)"

definition backup_id_parse :: "string \<Rightarrow> identifier_error + backup_id" where
  "backup_id_parse value = parse_identifier value ''backup''"

definition run_id_parse :: "string \<Rightarrow> identifier_error + run_id" where
  "run_id_parse value = parse_identifier value ''run''"

definition profile_id_parse :: "string \<Rightarrow> identifier_error + profile_id" where
  "profile_id_parse value = parse_identifier value ''profile''"

definition plan_id_parse :: "string \<Rightarrow> identifier_error + plan_id" where
  "plan_id_parse value = parse_identifier value ''plan''"

definition repository_id_parse :: "string \<Rightarrow> identifier_error + repository_id" where
  "repository_id_parse value = parse_identifier value ''repository''"

definition credential_id_parse :: "string \<Rightarrow> identifier_error + credential_id" where
  "credential_id_parse value = parse_identifier value ''credential''"

definition database_id_parse :: "string \<Rightarrow> identifier_error + database_id" where
  "database_id_parse value = parse_identifier value ''database''"

definition relative_segment :: "string \<Rightarrow> bool" where
  "relative_segment segment \<longleftrightarrow> segment \<noteq> [] \<and> segment \<notin> {''.'', ''..''}"

definition payload_path_parse :: "string \<Rightarrow> identifier_error + payload_path" where
  "payload_path_parse value =
     (let segments_valid = list_all relative_segment (split_on slash value);
          syntax_valid = \<not> prefix [slash] value \<and>
            \<not> contains_any [backslash, CHR '':'', nul] value \<and> length value \<le> 240
      in ok_if (segments_valid \<and> syntax_valid) value InvalidPayloadPath)"

definition archive_path_parse :: "string \<Rightarrow> identifier_error + archive_path" where
  "archive_path_parse value =
     (let segments_valid = list_all relative_segment (split_on slash value);
          syntax_valid = \<not> prefix [slash] value \<and>
            \<not> contains_any [backslash, CHR '':'', nul] value \<and> length value \<le> 1024
      in ok_if (segments_valid \<and> syntax_valid) value InvalidArchivePath)"

definition absolute_lexical :: "string \<Rightarrow> bool" where
  "absolute_lexical value \<longleftrightarrow>
     prefix [slash] value \<and> length value \<le> 1024 \<and>
     \<not> contains_any [nul, newline, carriage_return, backslash] value \<and>
     list_all (\<lambda>segment. segment \<notin> {'''', ''.'', ''..''}) (drop 1 (split_on slash value))"

definition remote_target_path_parse :: "string \<Rightarrow> identifier_error + remote_target_path" where
  "remote_target_path_parse value = ok_if (absolute_lexical value) value InvalidRemoteTargetPath"

definition remote_path_parse :: "string \<Rightarrow> identifier_error + remote_path" where
  "remote_path_parse value =
     ok_if (value = ''/'' \<or> absolute_lexical value) value InvalidRemotePath"

definition child :: "remote_path \<Rightarrow> string \<Rightarrow> identifier_error + remote_path" where
  "child self name =
     (let separator = (if self = ''/'' then '''' else ''/'')
      in remote_path_parse (self @ separator @ name))"

text \<open>
  \<open>u32\<close> arithmetic of \<open>digits\<close> is written in \<open>nat\<close>: it is called on at most four digits, so the
  value stays below 10000 (lemma \<open>digits_bound\<close>).
\<close>

fun digits_fold :: "nat \<Rightarrow> string \<Rightarrow> nat option" where
  "digits_fold value [] = Some value"
| "digits_fold value (b # bs) =
     (if is_ascii_digit b then digits_fold (value * 10 + (code b - 48)) bs else None)"

definition digits :: "string \<Rightarrow> nat \<Rightarrow> nat \<Rightarrow> nat option" where
  "digits bytes start len =
     (if start + len \<le> length bytes then digits_fold 0 (take len (drop start bytes)) else None)"

definition days_in_month :: "nat \<Rightarrow> nat \<Rightarrow> nat" where
  "days_in_month year month =
     (if month = 2 \<and> (400 dvd year \<or> (4 dvd year \<and> \<not> 100 dvd year)) then 29
      else if month = 2 then 28
      else if month \<in> {4, 6, 9, 11} then 30
      else 31)"

definition separator_positions :: "(nat \<times> char) list" where
  "separator_positions =
     [(4, CHR ''-''), (7, CHR ''-''), (10, CHR ''T''), (13, CHR '':''), (16, CHR '':''), (19, CHR ''Z'')]"

definition is_utc_timestamp :: "string \<Rightarrow> bool" where
  "is_utc_timestamp bytes =
     (if length bytes \<noteq> 20
         \<or> \<not> list_all (\<lambda>(index, expected). bytes ! index = expected) separator_positions
         \<or> \<not> list_all (\<lambda>index. index \<in> {4, 7, 10, 13, 16, 19} \<or> is_ascii_digit (bytes ! index))
              [0..<length bytes]
      then False
      else case (digits bytes 0 4, digits bytes 5 2, digits bytes 8 2,
                 digits bytes 11 2, digits bytes 14 2, digits bytes 17 2) of
        (Some y, Some m, Some d, Some h, Some mi, Some sec) \<Rightarrow>
          1970 \<le> y \<and> 1 \<le> m \<and> m \<le> 12 \<and> 1 \<le> d \<and> d \<le> days_in_month y m \<and>
          h \<le> 23 \<and> mi \<le> 59 \<and> sec \<le> 59
      | _ \<Rightarrow> False)"

definition timestamp_parse :: "string \<Rightarrow> identifier_error + timestamp" where
  "timestamp_parse value = ok_if (is_utc_timestamp value) value InvalidTimestamp"

subsection \<open>Reference semantics\<close>

text \<open>
  Lexical resolution of path segments below a base directory, as an operating system resolves
  them (without symbolic links): empty and \<open>.\<close> segments stay, \<open>..\<close> goes up.
\<close>

definition resolve_segment :: "string list \<Rightarrow> string \<Rightarrow> string list" where
  "resolve_segment base segment =
     (if segment \<in> {'''', ''.''} then base
      else if segment = ''..'' then butlast base
      else base @ [segment])"

definition resolve_path :: "string list \<Rightarrow> string \<Rightarrow> string list" where
  "resolve_path base path = foldl resolve_segment base (split_on slash path)"

text \<open>The components of an absolute path: none for the root.\<close>

definition path_components :: "remote_path \<Rightarrow> string list" where
  "path_components p = (if p = ''/'' then [] else drop 1 (split_on slash p))"

text \<open>The fixed-width printing of a calendar date and time, and which ones are real.\<close>

definition digit_char :: "nat \<Rightarrow> char" where
  "digit_char k = char_of (48 + k)"

definition pad2 :: "nat \<Rightarrow> string" where
  "pad2 n = [digit_char (n div 10), digit_char (n mod 10)]"

definition pad4 :: "nat \<Rightarrow> string" where
  "pad4 n = pad2 (n div 100) @ pad2 (n mod 100)"

definition format_timestamp :: "nat \<Rightarrow> nat \<Rightarrow> nat \<Rightarrow> nat \<Rightarrow> nat \<Rightarrow> nat \<Rightarrow> string" where
  "format_timestamp y m d h mi s =
     pad4 y @ ''-'' @ pad2 m @ ''-'' @ pad2 d @ ''T'' @ pad2 h @ '':'' @ pad2 mi @ '':'' @ pad2 s @ ''Z''"

definition real_moment :: "nat \<Rightarrow> nat \<Rightarrow> nat \<Rightarrow> nat \<Rightarrow> nat \<Rightarrow> nat \<Rightarrow> bool" where
  "real_moment y m d h mi s \<longleftrightarrow>
     1970 \<le> y \<and> y \<le> 9999 \<and> 1 \<le> m \<and> m \<le> 12 \<and> 1 \<le> d \<and> d \<le> days_in_month y m \<and>
     h \<le> 23 \<and> mi \<le> 59 \<and> s \<le> 59"

text \<open>The calendar reading of a timestamp, as one number that grows with time.\<close>

definition calendar_key :: "timestamp \<Rightarrow> nat" where
  "calendar_key t =
     ((((the (digits t 0 4) * 100 + the (digits t 5 2)) * 100 + the (digits t 8 2)) * 100
        + the (digits t 11 2)) * 100 + the (digits t 14 2)) * 100 + the (digits t 17 2)"

section \<open>Lemmas\<close>

lemma foldl_resolve_relative:
  "list_all relative_segment segs \<Longrightarrow> foldl resolve_segment base segs = base @ segs"
  by (induction segs arbitrary: base) (auto simp: resolve_segment_def relative_segment_def)

lemma relative_resolves:
  "list_all relative_segment (split_on slash p) \<Longrightarrow>
   resolve_path base p = base @ split_on slash p"
  by (simp add: resolve_path_def foldl_resolve_relative)

lemma identifier_no_byte:
  assumes "parse_identifier v kind = Inr i" "\<not> identifier_byte c"
  shows "c \<notin> set i"
  using assms by (auto simp: parse_identifier_def list_all_iff)

lemma parse_identifier_bounds:
  "parse_identifier v kind = Inr i \<Longrightarrow> i = v \<and> i \<noteq> [] \<and> length i \<le> 64"
  by (auto simp: parse_identifier_def)

lemma not_identifier_byte [simp]:
  "\<not> identifier_byte CHR '' ''" "\<not> identifier_byte slash" "\<not> identifier_byte CHR '':''"
  "\<not> identifier_byte CHR ''.''" "\<not> identifier_byte CHR ''|''"
  by (simp_all add: identifier_byte_def is_ascii_alphanumeric_def is_ascii_digit_def byte_in_def code_def)

subsection \<open>Absolute paths and their components\<close>

lemma absolute_lexical_split:
  assumes "absolute_lexical p"
  shows "split_on slash p = [] # path_components p" "p \<noteq> ''/''" "path_components p \<noteq> []"
proof -
  from assms obtain q where q: "p = slash # q"
    by (auto simp: absolute_lexical_def prefix_def)
  then have sp: "split_on slash p = [] # split_on slash q" by simp
  have "q \<noteq> []"
    using assms q by (auto simp: absolute_lexical_def)
  then show "p \<noteq> ''/''" using q by simp
  then show "split_on slash p = [] # path_components p" "path_components p \<noteq> []"
    using sp by (simp_all add: path_components_def)
qed

lemma remote_path_parse_iff:
  "remote_path_parse v = Inr p \<longleftrightarrow> p = v \<and> (v = ''/'' \<or> absolute_lexical v)"
  by (auto simp: remote_path_parse_def)

lemma components_inject:
  assumes "remote_path_parse a = Inr a" "remote_path_parse b = Inr b"
    and "path_components a = path_components b"
  shows "a = b"
proof (cases "a = ''/'' \<or> b = ''/''")
  case True
  with assms show ?thesis
    by (auto simp: remote_path_parse_iff path_components_def dest: absolute_lexical_split)
next
  case False
  with assms have "split_on slash a = split_on slash b"
    by (simp add: remote_path_parse_iff absolute_lexical_split)
  then show ?thesis by (simp add: split_on_inject)
qed

lemma components_child:
  assumes parent: "remote_path_parse p = Inr p" and c: "child p name = Inr q"
    and name: "name \<noteq> []" "slash \<notin> set name"
  shows "path_components q = path_components p @ [name]"
proof (cases "p = ''/''")
  case True
  with c name have "q = slash # name" "q \<noteq> ''/''"
    by (auto simp: child_def remote_path_parse_iff)
  with True name show ?thesis
    by (simp add: path_components_def split_on_single)
next
  case False
  with c have q: "q = p @ slash # name"
    by (simp add: child_def remote_path_parse_iff)
  then have "split_on slash q = split_on slash p @ [name]"
    using name by (simp add: split_on_append split_on_single)
  moreover have "q \<noteq> ''/''" using q name by (auto simp: append_eq_Cons_conv)
  ultimately show ?thesis
    using False by (cases "split_on slash p") (auto simp: path_components_def)
qed

subsection \<open>Timestamps\<close>

text \<open>The decimal digits of a string read as one number, other bytes skipped.\<close>

definition digit_count :: "string \<Rightarrow> nat" where
  "digit_count s = length (filter is_ascii_digit s)"

fun digit_number :: "string \<Rightarrow> nat" where
  "digit_number [] = 0"
| "digit_number (c # cs) =
     (if is_ascii_digit c then (code c - 48) * 10 ^ digit_count cs + digit_number cs
      else digit_number cs)"

lemma digit_number_less: "digit_number s < 10 ^ digit_count s"
proof (induction s)
  case Nil
  then show ?case by (simp add: digit_count_def)
next
  case (Cons c cs)
  show ?case
  proof (cases "is_ascii_digit c")
    case True
    then have "code c - 48 \<le> 9"
      by (auto simp: is_ascii_digit_def byte_in_def)
    then have "(code c - 48) * 10 ^ digit_count cs \<le> 9 * 10 ^ digit_count cs"
      by simp
    moreover have "digit_count (c # cs) = Suc (digit_count cs)"
      using True by (simp add: digit_count_def)
    moreover have "(code c - 48) * 10 ^ digit_count cs + digit_number cs
        < 9 * 10 ^ digit_count cs + 10 ^ digit_count cs"
      using calculation(1) Cons.IH by (rule add_le_less_mono)
    ultimately show ?thesis using True by simp
  next
    case False
    with Cons show ?thesis by (simp add: digit_count_def)
  qed
qed

definition same_shape :: "char \<Rightarrow> char \<Rightarrow> bool" where
  "same_shape x y \<longleftrightarrow> is_ascii_digit x \<and> is_ascii_digit y \<or> x = y"

lemma less_char_code: "(c :: char) < d \<longleftrightarrow> code c < code d"
  by (simp add: less_char_def code_def)

lemma mult_add_less_iff:
  fixes a b k m n :: nat
  assumes "m < k" "n < k"
  shows "a * k + m < b * k + n \<longleftrightarrow> a < b \<or> a = b \<and> m < n"
proof (cases a b rule: linorder_cases)
  case less
  then have "Suc a * k \<le> b * k" by (metis Suc_leI mult_le_mono1)
  with less assms show ?thesis by simp
next
  case greater
  then have "Suc b * k \<le> a * k" by (metis Suc_leI mult_le_mono1)
  with greater assms show ?thesis by simp
qed simp

lemma same_shape_order:
  "list_all2 same_shape a b \<Longrightarrow> a < b \<longleftrightarrow> digit_number a < digit_number b"
proof (induction rule: list_all2_induct)
  case Nil
  then show ?case by simp
next
  case (Cons x xs y ys)
  then have "digit_count xs = digit_count ys"
  proof -
    have "list_all2 same_shape xs ys \<Longrightarrow> digit_count xs = digit_count ys"
      by (induction rule: list_all2_induct) (auto simp: digit_count_def same_shape_def)
    then show ?thesis using Cons by simp
  qed
  show ?case
  proof (cases "is_ascii_digit x \<and> is_ascii_digit y")
    case True
    then have "48 \<le> code x" "48 \<le> code y"
      by (simp_all add: is_ascii_digit_def byte_in_def)
    then have "code x - 48 < code y - 48 \<longleftrightarrow> x < y" "code x - 48 = code y - 48 \<longleftrightarrow> x = y"
      using code_inject [of x y] by (auto simp: less_char_code simp del: code_inject)
    moreover have "digit_number xs < 10 ^ digit_count ys"
      using digit_number_less [of xs] \<open>digit_count xs = digit_count ys\<close> by simp
    ultimately show ?thesis
      using True Cons \<open>digit_count xs = digit_count ys\<close>
      by (simp add: mult_add_less_iff digit_number_less)
  next
    case False
    with Cons have "x = y" "\<not> is_ascii_digit x" by (auto simp: same_shape_def)
    with Cons show ?thesis by simp
  qed
qed

lemma code_digit_char [simp]: "k < 10 \<Longrightarrow> code (digit_char k) = 48 + k"
  by (simp add: code_def digit_char_def)

lemma is_digit_digit_char [simp]: "k < 10 \<Longrightarrow> is_ascii_digit (digit_char k)"
  by (simp add: is_ascii_digit_def byte_in_def)

lemma digit_char_code: "is_ascii_digit c \<Longrightarrow> digit_char (code c - 48) = c"
  by (auto simp: is_ascii_digit_def byte_in_def digit_char_def code_def)

lemma digit_value_less: "is_ascii_digit c \<Longrightarrow> code c - 48 < 10"
  by (auto simp: is_ascii_digit_def byte_in_def)

lemma digits_fold_digits:
  "list_all is_ascii_digit bs \<Longrightarrow> digits_fold v bs = Some (v * 10 ^ length bs + digit_number bs)"
proof (induction bs arbitrary: v)
  case Nil
  then show ?case by simp
next
  case (Cons b bs)
  then have "digit_count bs = length bs"
    by (simp add: digit_count_def list_all_iff)
  with Cons show ?case by (simp add: algebra_simps)
qed

lemma digits_bound: "digits bytes start len = Some n \<Longrightarrow> n < 10 ^ len"
proof -
  assume d: "digits bytes start len = Some n"
  let ?bs = "take len (drop start bytes)"
  have l: "length ?bs = len" using d by (simp add: digits_def split: if_splits)
  have all: "digits_fold v bs \<noteq> None \<Longrightarrow> list_all is_ascii_digit bs" for v bs
    by (induction bs arbitrary: v) (auto split: if_splits)
  from d all [of 0 ?bs] have "list_all is_ascii_digit ?bs"
    by (simp add: digits_def split: if_splits)
  with d l have "n = digit_number ?bs" "digit_count ?bs = len"
    by (auto simp: digits_def digits_fold_digits digit_count_def list_all_iff split: if_splits)
  with digit_number_less [of ?bs] show ?thesis by simp
qed

lemma digit_number_pad2: "n < 100 \<Longrightarrow> digit_number (pad2 n) = n"
  by (simp add: pad2_def digit_count_def less_mult_imp_div_less)

lemma digit_number_pad4: "n div 100 < 100 \<Longrightarrow> digit_number (pad4 n) = n"
proof -
  assume "n div 100 < 100"
  then have "digit_number (pad4 n) = n div 100 div 10 * 1000 + (n div 100 mod 10 * 100 + n mod 100)"
    by (simp add: pad4_def pad2_def digit_count_def less_mult_imp_div_less)
  also have "\<dots> = n"
    using div_mult_mod_eq [of "n div 100" 10] div_mult_mod_eq [of n 100] by linarith
  finally show ?thesis .
qed

lemma pad2_digits:
  assumes "is_ascii_digit a" "is_ascii_digit b"
  shows "pad2 (digit_number [a, b]) = [a, b]" "digit_number [a, b] < 100"
  using assms digit_value_less [OF assms(1)] digit_value_less [OF assms(2)]
  by (simp_all add: pad2_def digit_count_def digit_char_code)

lemma pad4_digits:
  assumes "list_all is_ascii_digit [a, b, c, d]"
  shows "pad4 (digit_number [a, b, c, d]) = [a, b, c, d]" "digit_number [a, b, c, d] \<le> 9999"
proof -
  have n: "digit_number [a, b, c, d] = digit_number [a, b] * 100 + digit_number [c, d]"
    using assms by (simp add: digit_count_def)
  then show "pad4 (digit_number [a, b, c, d]) = [a, b, c, d]"
    using assms pad2_digits [of a b] pad2_digits [of c d]
    by (simp add: pad4_def del: digit_number.simps)
  show "digit_number [a, b, c, d] \<le> 9999"
    using n assms pad2_digits(2) [of a b] pad2_digits(2) [of c d] by (simp del: digit_number.simps)
qed

lemma upt_20: "[0..<20] = [0, 1, 2, 3, 4, 5, 6, 7, 8, 9, 10, 11, 12, 13, 14, 15, 16, 17, 18, 19 :: nat]"
  by (simp add: upt_rec)

lemma timestamp_layout:
  assumes "is_utc_timestamp t"
  obtains a b c d e f g h i j k l m n where
    "t = [a, b, c, d] @ ''-'' @ [e, f] @ ''-'' @ [g, h] @ ''T'' @ [i, j] @ '':'' @ [k, l] @ '':'' @ [m, n] @ ''Z''"
    "list_all is_ascii_digit [a, b, c, d, e, f, g, h, i, j, k, l, m, n]"
proof -
  have len: "length t = 20"
    and sep: "list_all (\<lambda>(i, x). t ! i = x) separator_positions"
    and dig: "list_all (\<lambda>x. x \<in> {4, 7, 10, 13, 16, 19} \<or> is_ascii_digit (t ! x)) [0..<20]"
    using assms by (auto simp: is_utc_timestamp_def split: if_splits)
  have t: "t = [t ! 0, t ! 1, t ! 2, t ! 3, t ! 4, t ! 5, t ! 6, t ! 7, t ! 8, t ! 9, t ! 10, t ! 11,
      t ! 12, t ! 13, t ! 14, t ! 15, t ! 16, t ! 17, t ! 18, t ! 19]"
    using map_nth [of t, symmetric] unfolding len upt_20 list.map .
  have seps: "t ! 4 = CHR ''-''" "t ! 7 = CHR ''-''" "t ! 10 = CHR ''T''" "t ! 13 = CHR '':''"
    "t ! 16 = CHR '':''" "t ! 19 = CHR ''Z''"
    using sep by (simp_all add: separator_positions_def)
  have "list_all is_ascii_digit [t ! 0, t ! 1, t ! 2, t ! 3, t ! 5, t ! 6, t ! 8, t ! 9, t ! 11,
      t ! 12, t ! 14, t ! 15, t ! 17, t ! 18]"
    using dig unfolding upt_20 by simp
  then show ?thesis
    using t [unfolded seps] by (intro that) (simp_all only: append.simps)
qed

lemma timestamp_digits:
  assumes "t = [a, b, c, d] @ ''-'' @ [e, f] @ ''-'' @ [g, h] @ ''T'' @ [i, j] @ '':'' @ [k, l] @ '':'' @ [m, n] @ ''Z''"
    "list_all is_ascii_digit [a, b, c, d, e, f, g, h, i, j, k, l, m, n]"
  shows "digits t 0 4 = Some (digit_number [a, b, c, d])" "digits t 5 2 = Some (digit_number [e, f])"
    "digits t 8 2 = Some (digit_number [g, h])" "digits t 11 2 = Some (digit_number [i, j])"
    "digits t 14 2 = Some (digit_number [k, l])" "digits t 17 2 = Some (digit_number [m, n])"
  using assms by (simp_all add: digits_def digits_fold_digits del: digit_number.simps digits_fold.simps)

lemma timestamp_layout_valid:
  assumes t: "t = [a, b, c, d] @ ''-'' @ [e, f] @ ''-'' @ [g, h] @ ''T'' @ [i, j] @ '':'' @ [k, l] @ '':'' @ [m, n] @ ''Z''"
    and dig: "list_all is_ascii_digit [a, b, c, d, e, f, g, h, i, j, k, l, m, n]"
  shows "is_utc_timestamp t \<longleftrightarrow> real_moment (digit_number [a, b, c, d]) (digit_number [e, f])
    (digit_number [g, h]) (digit_number [i, j]) (digit_number [k, l]) (digit_number [m, n])"
proof -
  have "length t = 20" by (simp add: t)
  moreover have "list_all (\<lambda>(i, x). t ! i = x) separator_positions"
    by (simp add: t separator_positions_def)
  moreover have "list_all (\<lambda>x. x \<in> {4, 7, 10, 13, 16, 19} \<or> is_ascii_digit (t ! x)) [0..<20]"
    unfolding upt_20 using dig by (simp add: t)
  moreover have "digit_number [a, b, c, d] \<le> 9999" using dig pad4_digits(2) by simp
  ultimately show ?thesis
    by (simp add: is_utc_timestamp_def timestamp_digits [OF t dig] real_moment_def
        del: digit_number.simps)
qed

lemma calendar_key_digit_number:
  assumes "is_utc_timestamp t"
  shows "calendar_key t = digit_number t"
proof -
  obtain a b c d e f g h i j k l m n where
    t: "t = [a, b, c, d] @ ''-'' @ [e, f] @ ''-'' @ [g, h] @ ''T'' @ [i, j] @ '':'' @ [k, l] @ '':'' @ [m, n] @ ''Z''"
    and dig: "list_all is_ascii_digit [a, b, c, d, e, f, g, h, i, j, k, l, m, n]"
    using timestamp_layout [OF assms] .
  have "\<not> is_ascii_digit CHR ''-''" "\<not> is_ascii_digit CHR '':''" "\<not> is_ascii_digit CHR ''T''" "\<not> is_ascii_digit CHR ''Z''"
    by (simp_all add: is_ascii_digit_def byte_in_def code_def)
  with dig show ?thesis
    unfolding calendar_key_def timestamp_digits [OF t dig] option.sel
    by (simp add: t digit_count_def)
qed

lemma timestamps_same_shape:
  assumes "is_utc_timestamp a" "is_utc_timestamp b"
  shows "list_all2 same_shape a b"
  by (rule timestamp_layout [OF assms(1)], rule timestamp_layout [OF assms(2)])
    (simp add: same_shape_def)

section \<open>Properties\<close>

text \<open>C1: an accepted payload or archive path can never leave the directory it is joined to:
  resolved below any base directory, however the operating system treats dots and empty segments,
  it names the base followed by the path's own non-empty list of segments.\<close>

theorem relative_path_confined:
  assumes "payload_path_parse v = Inr p \<or> archive_path_parse v = Inr p"
  shows "\<exists>segs. segs \<noteq> [] \<and> resolve_path base p = base @ segs \<and> join_with slash segs = p"
proof -
  from assms have "list_all relative_segment (split_on slash p)"
    by (auto simp: payload_path_parse_def archive_path_parse_def Let_def)
  then show ?thesis by (intro exI [of _ "split_on slash p"]) (simp add: relative_resolves)
qed

theorem relative_path_confined_witness:
  "\<exists>segs. segs \<noteq> [] \<and> resolve_path [''srv'', ''staging''] ''payload/fs.tar'' = [''srv'', ''staging''] @ segs
     \<and> join_with slash segs = ''payload/fs.tar''"
proof -
  have "payload_path_parse ''payload/fs.tar'' = Inr ''payload/fs.tar''"
    by (simp add: payload_path_parse_def relative_segment_def contains_any_def Let_def)
  then show ?thesis using relative_path_confined by blast
qed

lemma format_timestamp_accepted:
  assumes r: "real_moment y m d h mi s"
  shows "is_utc_timestamp (format_timestamp y m d h mi s)"
proof -
  let ?P = "\<lambda>n. digit_char (n div 10)" and ?Q = "\<lambda>n. digit_char (n mod 10)"
  have lay: "format_timestamp y m d h mi s = [?P (y div 100), ?Q (y div 100), ?P (y mod 100), ?Q (y mod 100)] @ ''-'' @ [?P m, ?Q m] @ ''-''
      @ [?P d, ?Q d] @ ''T'' @ [?P h, ?Q h] @ '':'' @ [?P mi, ?Q mi] @ '':'' @ [?P s, ?Q s] @ ''Z''"
    by (simp add: format_timestamp_def pad2_def pad4_def)
  have small: "m < 100" "d < 100" "h < 100" "mi < 100" "s < 100" "y div 100 < 100"
    using r by (auto simp: real_moment_def days_in_month_def split: if_splits)
  then have dig: "list_all is_ascii_digit [?P (y div 100), ?Q (y div 100), ?P (y mod 100), ?Q (y mod 100),
      ?P m, ?Q m, ?P d, ?Q d, ?P h, ?Q h, ?P mi, ?Q mi, ?P s, ?Q s]"
    by (simp add: less_mult_imp_div_less)
  show ?thesis
    using r small digit_number_pad4 [of y] digit_number_pad2 [of m] digit_number_pad2 [of d]
      digit_number_pad2 [of h] digit_number_pad2 [of mi] digit_number_pad2 [of s]
    unfolding timestamp_layout_valid [OF lay dig]
    by (simp add: pad2_def pad4_def del: digit_number.simps)
qed


text \<open>C3: on accepted timestamps the byte order the inventory sorts by is chronological order.\<close>

theorem timestamp_order_chronological:
  assumes "is_utc_timestamp a" "is_utc_timestamp b"
  shows "a < b \<longleftrightarrow> calendar_key a < calendar_key b"
  using same_shape_order [OF timestamps_same_shape [OF assms]] assms
  by (simp add: calendar_key_digit_number)

theorem timestamp_order_chronological_witness:
  "''2026-07-14T12:00:00Z'' < ''2026-07-15T00:00:00Z'' \<longleftrightarrow>
     calendar_key ''2026-07-14T12:00:00Z'' < calendar_key ''2026-07-15T00:00:00Z''"
  by (rule timestamp_order_chronological) code_simp+

end
