(* ===== verification/Profiles.thy ===== *)
theory Profiles
  imports Identifiers
begin

text \<open>
  \<^verbatim>\<open>crates/guardian-core/src/{profile,profile_port,host_trust}.rs\<close>: the pinned VDS profile, the
  errors of the profile storage port, and the host-key trust use case. The base64 decoder
  (crate \<open>base64\<close>) and the SHA-256 function (crate \<open>sha2\<close>) are parameters.
\<close>

section \<open>Definitions\<close>

type_synonym b64_decoder = "string \<Rightarrow> byte list option"
type_synonym hash_function = "byte list \<Rightarrow> byte list"

definition host_key_fingerprint :: "hash_function \<Rightarrow> string \<Rightarrow> string" where
  "host_key_fingerprint sha256 public_key_base64 =
     ''SHA256:'' @ hex (sha256 (bytes_of public_key_base64))"

datatype auth_kind = SshKey | SshAgent | Password

record host_pin =
  pin_algorithm :: string
  pin_public_key_base64 :: string

record ssh_endpoint =
  ep_host :: string
  ep_port :: u16
  ep_user :: string
  ep_host_pin :: host_pin

record vds_profile =
  vp_profile_id :: profile_id
  vp_label :: string
  vp_endpoint :: ssh_endpoint
  vp_credential_id :: credential_id
  vp_auth_kind :: "auth_kind option"

datatype profile_error = InvalidLabel | InvalidEndpoint | InvalidHostPin

definition pin_algorithms :: "string list" where
  "pin_algorithms =
     [''ssh-ed25519'', ''ecdsa-sha2-nistp256'', ''ecdsa-sha2-nistp384'', ''ecdsa-sha2-nistp521'']"

definition host_pin_validate :: "b64_decoder \<Rightarrow> host_pin \<Rightarrow> profile_error + unit" where
  "host_pin_validate b64 self =
     (let algorithm_valid = pin_algorithm self \<in> set pin_algorithms
      in and_then (ok_or (b64 (pin_public_key_base64 self)) InvalidHostPin) (\<lambda>decoded.
         and_then (ok_or (map_option be_nat (slice_get decoded 0 4)) InvalidHostPin) (\<lambda>len.
         ok_if (algorithm_valid \<and>
                slice_get decoded 4 (4 + len) = Some (bytes_of (pin_algorithm self)) \<and>
                length decoded > 4 + len)
           () InvalidHostPin)))"

definition host_pin_parse :: "b64_decoder \<Rightarrow> string \<Rightarrow> string \<Rightarrow> profile_error + host_pin" where
  "host_pin_parse b64 alg key =
     (let pin = \<lparr>pin_algorithm = alg, pin_public_key_base64 = key\<rparr>
      in and_then (host_pin_validate b64 pin) (\<lambda>_. Inr pin))"

definition host_byte :: "char \<Rightarrow> bool" where
  "host_byte b \<longleftrightarrow> is_ascii_alphanumeric b \<or> b \<in> {CHR ''.'', CHR ''-''}"

definition host_name_valid :: "string \<Rightarrow> bool" where
  "host_name_valid h \<longleftrightarrow>
     h \<noteq> [] \<and> length h \<le> 253 \<and>
     \<not> (prefix ''-'' h \<or> prefix ''.'' h) \<and>
     \<not> (suffix ''-'' h \<or> suffix ''.'' h) \<and>
     \<not> sublist ''..'' h \<and>
     list_all host_byte h"

definition user_byte :: "char \<Rightarrow> bool" where
  "user_byte b \<longleftrightarrow> is_ascii_alphanumeric b \<or> b \<in> {CHR ''.'', CHR ''_'', CHR ''-''}"

definition ssh_endpoint_validate :: "b64_decoder \<Rightarrow> ssh_endpoint \<Rightarrow> profile_error + unit" where
  "ssh_endpoint_validate b64 self =
     (let host_valid = host_name_valid (ep_host self);
          user_valid = ep_user self \<noteq> [] \<and> length (ep_user self) \<le> 64 \<and> list_all user_byte (ep_user self)
      in and_then (ok_if (host_valid \<and> user_valid \<and> ep_port self \<noteq> 0) () InvalidEndpoint)
           (\<lambda>_. host_pin_validate b64 (ep_host_pin self)))"

definition vds_profile_validate :: "b64_decoder \<Rightarrow> vds_profile \<Rightarrow> profile_error + unit" where
  "vds_profile_validate b64 self =
     and_then (ok_if (vp_label self \<noteq> [] \<and> length (vp_label self) \<le> 128 \<and> \<not> has_control (vp_label self))
       () InvalidLabel)
       (\<lambda>_. ssh_endpoint_validate b64 (vp_endpoint self))"

datatype profile_store_port_error = StoreUnavailable | StoreRejected

datatype host_key_discovery_error = DiscoveryFailed

datatype host_trust_error =
    TrustConfirmationRequired
  | TrustInvalidProfile
  | TrustStore profile_store_port_error

definition trust_host_key_execute ::
  "b64_decoder \<Rightarrow> (vds_profile \<Rightarrow> ('s, profile_store_port_error, unit) action) \<Rightarrow>
   vds_profile \<Rightarrow> host_pin \<Rightarrow> bool \<Rightarrow> ('s, host_trust_error, vds_profile) action" where
  "trust_host_key_execute b64 save profile discovered confirmed =
     (if \<not> confirmed then do_fail TrustConfirmationRequired
      else
        let profile = profile\<lparr>vp_endpoint := (vp_endpoint profile)\<lparr>ep_host_pin := discovered\<rparr>\<rparr> in
        do_then (do_lift (map_err (\<lambda>_. TrustInvalidProfile) (vds_profile_validate b64 profile))) (\<lambda>_.
        do_then (do_map_err TrustStore (save profile)) (\<lambda>_.
        do_return profile)))"

subsection \<open>Reference semantics\<close>

text \<open>The SSH wire format of a string: a four-byte big-endian length, then the bytes.\<close>

definition ssh_string :: "byte list \<Rightarrow> byte list" where
  "ssh_string bs = be32 (length bs) @ bs"

section \<open>Lemmas\<close>

lemma vds_profile_validate_pin:
  "vds_profile_validate b64 p = Inr () \<Longrightarrow> host_pin_validate b64 (ep_host_pin (vp_endpoint p)) = Inr ()"
  by (auto simp: vds_profile_validate_def ssh_endpoint_validate_def Let_def)

lemma host_pin_blob_accepted:
  assumes alg: "pin_algorithm pin \<in> set pin_algorithms" and key: "key \<noteq> []"
    and b: "b64 (pin_public_key_base64 pin) = Some (ssh_string (bytes_of (pin_algorithm pin)) @ key)"
  shows "host_pin_validate b64 pin = Inr ()"
proof -
  have "length (pin_algorithm pin) < 2 ^ 32"
    using alg by (auto simp: pin_algorithms_def)
  with alg key b show ?thesis
    by (auto simp: host_pin_validate_def Let_def ssh_string_def slice_get_def)
qed

text \<open>A concrete profile, for the instances.\<close>

definition sample_b64 :: b64_decoder where
  "sample_b64 s = Some (ssh_string (bytes_of ''ssh-ed25519'') @ bytes_of s)"

definition sample_profile :: "profile_id \<Rightarrow> vds_profile" where
  "sample_profile pid = \<lparr>vp_profile_id = pid, vp_label = ''web'', vp_endpoint = \<lparr>ep_host = ''web.example'', ep_port = 22,
     ep_user = ''root'', ep_host_pin = \<lparr>pin_algorithm = ''ssh-ed25519'', pin_public_key_base64 = ''A''\<rparr>\<rparr>,
     vp_credential_id = ''c1'', vp_auth_kind = Some SshKey\<rparr>"

lemma sample_profile_valid: "vds_profile_validate sample_b64 (sample_profile pid) = Inr ()"
proof -
  have "host_pin_validate sample_b64 \<lparr>pin_algorithm = ''ssh-ed25519'', pin_public_key_base64 = ''A''\<rparr> = Inr ()"
    by (rule host_pin_blob_accepted) (auto simp: pin_algorithms_def sample_b64_def bytes_of_def)
  moreover have "host_name_valid ''web.example'' \<and> list_all user_byte ''root'' \<and> \<not> has_control ''web''"
    by code_simp
  ultimately show ?thesis
    by (simp add: vds_profile_validate_def ssh_endpoint_validate_def sample_profile_def ok_if_def)
qed

section \<open>Properties\<close>

text \<open>C4: a host pin is accepted exactly when its base64 decodes to an SSH public-key blob of a
  supported algorithm: the wire-format string of the pin's own algorithm name followed by a
  non-empty key. An algorithm can never be pinned with the key of another.\<close>

theorem host_pin_wire_format:
  "host_pin_validate b64 pin = Inr () \<longleftrightarrow>
     pin_algorithm pin \<in> set pin_algorithms \<and>
     (\<exists>key. key \<noteq> [] \<and>
        b64 (pin_public_key_base64 pin) = Some (ssh_string (bytes_of (pin_algorithm pin)) @ key))"
proof
  assume v: "host_pin_validate b64 pin = Inr ()"
  then obtain decoded head where b: "b64 (pin_public_key_base64 pin) = Some decoded"
    and alg: "pin_algorithm pin \<in> set pin_algorithms"
    and head: "slice_get decoded 0 4 = Some head"
    and body: "slice_get decoded 4 (4 + be_nat head) = Some (bytes_of (pin_algorithm pin))"
    and len: "4 + be_nat head < length decoded"
    by (auto simp: host_pin_validate_def Let_def)
  have h: "head = take 4 decoded" "length head = 4"
    using head len by (auto simp: slice_get_def split: if_splits)
  have al: "bytes_of (pin_algorithm pin) = take (be_nat head) (drop 4 decoded)"
    using body by (auto simp: slice_get_def split: if_splits)
  then have n: "length (pin_algorithm pin) = be_nat head"
    using len by (metis length_bytes_of length_take length_drop min.absorb2 less_diff_conv add.commute less_imp_le)
  define key where "key = drop (be_nat head) (drop 4 decoded)"
  have d: "decoded = head @ bytes_of (pin_algorithm pin) @ key"
    unfolding al key_def append_take_drop_id unfolding h(1) append_take_drop_id ..
  have "head = be32 (length (pin_algorithm pin))"
    using be32_of_length4 [OF h(2)] n by simp
  moreover have "key \<noteq> []"
    using len by (simp add: key_def)
  ultimately show "pin_algorithm pin \<in> set pin_algorithms \<and> (\<exists>key. key \<noteq> [] \<and>
      b64 (pin_public_key_base64 pin) = Some (ssh_string (bytes_of (pin_algorithm pin)) @ key))"
    using alg b d by (metis append_assoc length_bytes_of ssh_string_def)
next
  assume "pin_algorithm pin \<in> set pin_algorithms \<and> (\<exists>key. key \<noteq> [] \<and>
      b64 (pin_public_key_base64 pin) = Some (ssh_string (bytes_of (pin_algorithm pin)) @ key))"
  then show "host_pin_validate b64 pin = Inr ()"
    by (auto intro: host_pin_blob_accepted)
qed



end
