(* ===== verification/Docker_Inventory.thy ===== *)
theory Docker_Inventory
  imports Profiles
begin

text \<open>
  \<^verbatim>\<open>crates/guardian-core/src/docker.rs\<close>: the untrusted Docker inventory a remote host reports, its
  validation, and the discovery use case over the profile and inventory ports.
\<close>

section \<open>Definitions\<close>

datatype docker_container_state = Created | Running | Paused | Restarting | Exited | Dead

datatype docker_health = Starting | Healthy | Unhealthy | NoHealth

datatype docker_mount_kind = Bind | Volume | Tmpfs

record docker_mount =
  dm_kind :: docker_mount_kind
  dm_source_reference :: string
  dm_host_path :: "string option"
  dm_destination :: string
  dm_read_only :: bool

record docker_network =
  dn_name :: string
  dn_network_id :: string

record docker_container =
  dc_id :: string
  dc_name :: string
  dc_image :: string
  dc_image_digest :: "string option"
  dc_compose_project :: "string option"
  dc_state :: docker_container_state
  dc_health :: "docker_health option"
  dc_mounts :: "docker_mount list"
  dc_networks :: "docker_network list"
  dc_secret_references :: "string list"

record docker_inventory =
  di_containers :: "docker_container list"

datatype docker_inventory_error =
    TooManyContainers | DuplicateContainer | InvalidContainer | InvalidMount | InvalidNetwork
  | InvalidSecretReference | DuplicateField

definition valid_id :: "string \<Rightarrow> bool" where
  "valid_id value \<longleftrightarrow> 12 \<le> length value \<and> length value \<le> 64 \<and> list_all is_lower_hex value"

definition valid_digest :: "string \<Rightarrow> bool" where
  "valid_digest value =
     (case strip_prefix ''sha256:'' value of
        Some digest \<Rightarrow> length digest = 64 \<and> list_all is_lower_hex digest
      | None \<Rightarrow> False)"

definition label_byte :: "char \<Rightarrow> bool" where
  "label_byte b \<longleftrightarrow> is_ascii_alphanumeric b \<or> b \<in> {CHR ''.'', CHR ''_'', CHR ''-''}"

definition valid_label :: "string \<Rightarrow> bool" where
  "valid_label value \<longleftrightarrow> value \<noteq> [] \<and> length value \<le> 128 \<and> list_all label_byte value"

definition valid_text :: "string \<Rightarrow> nat \<Rightarrow> bool" where
  "valid_text value maximum \<longleftrightarrow> value \<noteq> [] \<and> length value \<le> maximum \<and> \<not> has_control value"

definition valid_absolute_path :: "string \<Rightarrow> bool" where
  "valid_absolute_path value \<longleftrightarrow>
     prefix [slash] value \<and> length value \<le> 1024 \<and>
     \<not> contains_any [nul, newline, carriage_return, backslash] value \<and>
     list_all (\<lambda>part. part \<notin> {'''', ''.'', ''..''}) (drop 1 (split_on slash value))"

definition unique :: "string list \<Rightarrow> docker_inventory_error + unit" where
  "unique values = ok_if (insert_all {} values) () DuplicateField"

definition is_some_and_not :: "('a \<Rightarrow> bool) \<Rightarrow> 'a option \<Rightarrow> bool" where
  "is_some_and_not p x = (case x of Some v \<Rightarrow> \<not> p v | None \<Rightarrow> False)"

definition docker_mount_validate :: "docker_mount \<Rightarrow> docker_inventory_error + unit" where
  "docker_mount_validate self =
     (let host_path_valid = \<not> is_some_and_not valid_absolute_path (dm_host_path self)
      in ok_if (valid_text (dm_source_reference self) 1024 \<and> valid_absolute_path (dm_destination self)
                \<and> host_path_valid) () InvalidMount)"

definition capturable_path :: "docker_mount \<Rightarrow> string option" where
  "capturable_path self =
     (case dm_kind self of
        Bind \<Rightarrow> Some (dm_source_reference self)
      | Volume \<Rightarrow> dm_host_path self
      | Tmpfs \<Rightarrow> None)"

definition docker_network_validate :: "docker_network \<Rightarrow> docker_inventory_error + unit" where
  "docker_network_validate self =
     ok_if (valid_label (dn_name self) \<and> valid_id (dn_network_id self)) () InvalidNetwork"

definition docker_container_validate :: "docker_container \<Rightarrow> docker_inventory_error + unit" where
  "docker_container_validate self =
     (if \<not> valid_id (dc_id self) \<or> \<not> valid_text (dc_name self) 255 \<or> \<not> valid_text (dc_image self) 512
      then Inl InvalidContainer
      else if is_some_and_not valid_digest (dc_image_digest self)
        \<or> is_some_and_not valid_label (dc_compose_project self)
        \<or> length (dc_mounts self) > 128
        \<or> length (dc_networks self) > 64
        \<or> length (dc_secret_references self) > 128
      then Inl InvalidContainer
      else
        and_then (unique (map dm_destination (dc_mounts self))) (\<lambda>_.
        and_then (unique (map dn_name (dc_networks self))) (\<lambda>_.
        and_then (unique (dc_secret_references self)) (\<lambda>_.
        and_then (try_for_each docker_mount_validate (dc_mounts self)) (\<lambda>_.
        and_then (try_for_each docker_network_validate (dc_networks self)) (\<lambda>_.
        ok_if (list_all valid_label (dc_secret_references self)) () InvalidSecretReference))))))"

fun inventory_loop :: "string set \<Rightarrow> docker_container list \<Rightarrow> docker_inventory_error + unit" where
  "inventory_loop ids [] = Inr ()"
| "inventory_loop ids (c # cs) =
     and_then (docker_container_validate c) (\<lambda>_.
       if dc_id c \<in> ids then Inl DuplicateContainer else inventory_loop (insert (dc_id c) ids) cs)"

definition docker_inventory_validate :: "docker_inventory \<Rightarrow> docker_inventory_error + unit" where
  "docker_inventory_validate self =
     (if length (di_containers self) > 500 then Inl TooManyContainers
      else inventory_loop {} (di_containers self))"

datatype docker_inventory_port_error = InventoryUnavailable | InventoryRejected

datatype discover_docker_inventory_error =
    DiscoverProfileStore profile_store_port_error
  | DiscoverProfileNotFound
  | DiscoverInventory docker_inventory_port_error
  | DiscoverInvalidInventory docker_inventory_error

definition discover_docker_inventory_execute ::
  "(profile_id \<Rightarrow> ('s, profile_store_port_error, vds_profile option) action) \<Rightarrow>
   (vds_profile \<Rightarrow> ('s, docker_inventory_port_error, docker_inventory) action) \<Rightarrow>
   profile_id \<Rightarrow> ('s, discover_docker_inventory_error, docker_inventory) action" where
  "discover_docker_inventory_execute get inspect profile =
     do_then (do_map_err DiscoverProfileStore (get profile)) (\<lambda>found.
     do_then (do_lift (ok_or found DiscoverProfileNotFound)) (\<lambda>profile.
     do_then (do_map_err DiscoverInventory (inspect profile)) (\<lambda>inventory.
     do_then (do_lift (map_err DiscoverInvalidInventory (docker_inventory_validate inventory))) (\<lambda>_.
     do_return inventory))))"

section \<open>Lemmas\<close>

lemma valid_absolute_path_lexical [simp]: "valid_absolute_path = absolute_lexical"
  by (rule ext) (simp add: valid_absolute_path_def absolute_lexical_def)

lemma unique_ok [simp, result_simps]: "unique values = Inr u \<longleftrightarrow> distinct values"
  by (simp add: unique_def)

lemma is_some_and_not_iff: "is_some_and_not p x \<longleftrightarrow> \<not> pred_option p x"
  by (auto simp: is_some_and_not_def split: option.splits)

lemma docker_container_validate_ok:
  "docker_container_validate c = Inr () \<longleftrightarrow>
     valid_id (dc_id c) \<and> valid_text (dc_name c) 255 \<and> valid_text (dc_image c) 512 \<and>
     pred_option valid_digest (dc_image_digest c) \<and> pred_option valid_label (dc_compose_project c) \<and>
     length (dc_mounts c) \<le> 128 \<and> length (dc_networks c) \<le> 64 \<and> length (dc_secret_references c) \<le> 128 \<and>
     distinct (map dm_destination (dc_mounts c)) \<and> distinct (map dn_name (dc_networks c)) \<and>
     distinct (dc_secret_references c) \<and>
     (\<forall>m\<in>set (dc_mounts c). docker_mount_validate m = Inr ()) \<and>
     (\<forall>n\<in>set (dc_networks c). docker_network_validate n = Inr ()) \<and>
     list_all valid_label (dc_secret_references c)"
  by (auto simp: docker_container_validate_def is_some_and_not_iff not_less)

lemma inventory_loop_ok:
  "inventory_loop ids cs = Inr () \<longleftrightarrow>
     (\<forall>c\<in>set cs. docker_container_validate c = Inr ()) \<and> distinct (map dc_id cs) \<and>
     dc_id ` set cs \<inter> ids = {}"
  by (induction ids cs rule: inventory_loop.induct) auto

lemma docker_inventory_validate_ok:
  "docker_inventory_validate i = Inr () \<longleftrightarrow>
     length (di_containers i) \<le> 500 \<and>
     (\<forall>c\<in>set (di_containers i). docker_container_validate c = Inr ()) \<and>
     distinct (map dc_id (di_containers i))"
  by (auto simp: docker_inventory_validate_def inventory_loop_ok)

lemma discover_docker_inventory_ok:
  "discover_docker_inventory_execute get inspect p s = (Inr i, t) \<longleftrightarrow>
     (\<exists>prof u. get p s = (Inr (Some prof), u) \<and> inspect prof u = (Inr i, t) \<and>
        docker_inventory_validate i = Inr ())"
  by (auto simp: discover_docker_inventory_execute_def do_then_ok)

end
