(* ===== verification/Source_Layout.thy ===== *)
theory Source_Layout
  imports Docker_Inventory
begin

text \<open>
  \<^verbatim>\<open>crates/guardian-core/src/source_layout.rs\<close>: the layout of a capture (its remote roots and the
  Docker workloads whose mounts lie below them), how it is derived from an inventory, and its
  validation. \<open>covers\<close> compares path strings; \<open>path_components\<close> is its reference semantics.
\<close>

section \<open>Definitions\<close>

record docker_mount_snapshot =
  ms_source_path :: remote_path
  ms_destination :: remote_path
  ms_read_only :: bool

record docker_workload_snapshot =
  ws_container_id :: string
  ws_container_name :: string
  ws_image :: string
  ws_image_digest :: "string option"
  ws_compose_project :: "string option"
  ws_state :: docker_container_state
  ws_mounts :: "docker_mount_snapshot list"

record source_layout =
  sl_roots :: "remote_path list"
  sl_docker_workloads :: "docker_workload_snapshot list"

datatype source_layout_error = LayoutInvalid

definition layout_valid_id :: "string \<Rightarrow> bool" where
  "layout_valid_id value \<longleftrightarrow> 12 \<le> length value \<and> length value \<le> 64 \<and> list_all is_lower_hex value"

definition layout_valid_text :: "string \<Rightarrow> nat \<Rightarrow> bool" where
  "layout_valid_text value maximum \<longleftrightarrow> value \<noteq> [] \<and> length value \<le> maximum \<and> \<not> has_control value"

definition layout_valid_digest :: "string \<Rightarrow> bool" where
  "layout_valid_digest value =
     (case strip_prefix ''sha256:'' value of
        Some digest \<Rightarrow> length digest = 64 \<and> list_all is_lower_hex digest
      | None \<Rightarrow> False)"

definition layout_valid_label :: "string \<Rightarrow> bool" where
  "layout_valid_label value \<longleftrightarrow> value \<noteq> [] \<and> length value \<le> 128 \<and>
     list_all (\<lambda>b. is_ascii_alphanumeric b \<or> b \<in> {CHR ''.'', CHR ''_'', CHR ''-''}) value"

definition covers :: "remote_path \<Rightarrow> remote_path \<Rightarrow> bool" where
  "covers parent kid \<longleftrightarrow>
     parent = kid \<or> parent = ''/'' \<or>
     (case strip_prefix parent kid of Some tail \<Rightarrow> prefix [slash] tail | None \<Rightarrow> False)"

definition workload_rejected :: "docker_workload_snapshot \<Rightarrow> bool" where
  "workload_rejected w \<longleftrightarrow>
     ws_mounts w = [] \<or> length (ws_mounts w) > 128
     \<or> \<not> layout_valid_id (ws_container_id w)
     \<or> \<not> layout_valid_text (ws_container_name w) 255
     \<or> \<not> layout_valid_text (ws_image w) 512
     \<or> is_some_and_not layout_valid_digest (ws_image_digest w)
     \<or> is_some_and_not layout_valid_label (ws_compose_project w)"

fun workloads_loop ::
  "remote_path list \<Rightarrow> string set \<Rightarrow> docker_workload_snapshot list \<Rightarrow> source_layout_error + unit" where
  "workloads_loop roots containers [] = Inr ()"
| "workloads_loop roots containers (w # ws) =
     (if ws_container_id w \<in> containers \<or> workload_rejected w then Inl LayoutInvalid
      else if card (set (map ms_destination (ws_mounts w))) \<noteq> length (ws_mounts w) then Inl LayoutInvalid
      else if list_ex (\<lambda>m. \<not> list_ex (\<lambda>root. covers root (ms_source_path m)) roots) (ws_mounts w)
      then Inl LayoutInvalid
      else workloads_loop roots (insert (ws_container_id w) containers) ws)"

definition source_layout_validate :: "source_layout \<Rightarrow> source_layout_error + unit" where
  "source_layout_validate self =
     (if sl_roots self = [] \<or> length (sl_roots self) > 32 \<or> length (sl_docker_workloads self) > 128
      then Inl LayoutInvalid
      else if card (set (sl_roots self)) \<noteq> length (sl_roots self) then Inl LayoutInvalid
      else workloads_loop (sl_roots self) {} (sl_docker_workloads self))"

definition to_option :: "'e + 'a \<Rightarrow> 'a option" where
  "to_option r = (case r of Inl _ \<Rightarrow> None | Inr x \<Rightarrow> Some x)"

definition snapshot_mount :: "remote_path list \<Rightarrow> docker_mount \<Rightarrow> docker_mount_snapshot option" where
  "snapshot_mount roots mount =
     Option.bind (capturable_path mount) (\<lambda>source.
     Option.bind (to_option (remote_path_parse source)) (\<lambda>source_path.
     if \<not> list_ex (\<lambda>root. covers root source_path) roots then None
     else Option.bind (to_option (remote_path_parse (dm_destination mount))) (\<lambda>destination.
       Some \<lparr>ms_source_path = source_path, ms_destination = destination,
             ms_read_only = dm_read_only mount\<rparr>)))"

definition snapshot ::
  "docker_container \<Rightarrow> remote_path list \<Rightarrow> source_layout_error + docker_workload_snapshot" where
  "snapshot container roots =
     (let mounts = List.map_filter (snapshot_mount roots) (dc_mounts container)
      in if mounts = [] then Inl LayoutInvalid
         else Inr \<lparr>ws_container_id = dc_id container, ws_container_name = dc_name container,
                   ws_image = dc_image container, ws_image_digest = dc_image_digest container,
                   ws_compose_project = dc_compose_project container, ws_state = dc_state container,
                   ws_mounts = mounts\<rparr>)"

definition from_inventory ::
  "remote_path list \<Rightarrow> string set \<Rightarrow> docker_inventory option \<Rightarrow> source_layout_error + source_layout" where
  "from_inventory roots selected_container_ids inventory =
     (let containers = (case inventory of None \<Rightarrow> [] | Some value \<Rightarrow> di_containers value)
      in and_then (try_map (\<lambda>c. snapshot c roots)
                     (filter (\<lambda>c. dc_id c \<in> selected_container_ids) containers)) (\<lambda>docker_workloads.
         let layout = \<lparr>sl_roots = roots, sl_docker_workloads = docker_workloads\<rparr>
         in and_then (source_layout_validate layout) (\<lambda>_. Inr layout)))"

subsection \<open>Reference semantics\<close>

definition selected_containers :: "string set \<Rightarrow> docker_inventory \<Rightarrow> docker_container list" where
  "selected_containers ids i = filter (\<lambda>c. dc_id c \<in> ids) (di_containers i)"

definition workload_of :: "remote_path list \<Rightarrow> docker_container \<Rightarrow> docker_workload_snapshot" where
  "workload_of roots c =
     \<lparr>ws_container_id = dc_id c, ws_container_name = dc_name c, ws_image = dc_image c,
      ws_image_digest = dc_image_digest c, ws_compose_project = dc_compose_project c, ws_state = dc_state c,
      ws_mounts = List.map_filter (snapshot_mount roots) (dc_mounts c)\<rparr>"

section \<open>Lemmas\<close>

lemma layout_validators [simp]:
  "layout_valid_id = valid_id" "layout_valid_text = valid_text"
  "layout_valid_digest = valid_digest" "layout_valid_label = valid_label"
  by (auto simp: fun_eq_iff layout_valid_id_def valid_id_def layout_valid_text_def valid_text_def
      layout_valid_digest_def valid_digest_def layout_valid_label_def valid_label_def label_byte_def
      list_all_iff split: option.splits)

lemma to_option_Some [simp]: "to_option r = Some x \<longleftrightarrow> r = Inr x"
  by (cases r) (auto simp: to_option_def)

lemma covers_slash: "covers p q \<longleftrightarrow> p = ''/'' \<or> p = q \<or> (\<exists>tail. q = p @ slash # tail)"
proof (cases "strip_prefix p q")
  case None
  then have "q \<noteq> p @ slash # tail" for tail
    using strip_prefix_Some [of p q "slash # tail"] by simp
  with None show ?thesis by (auto simp: covers_def)
next
  case (Some tail)
  then have q: "q = p @ tail" by simp
  show ?thesis
    unfolding covers_def Some option.case unfolding q by (auto simp: prefix_def)
qed

lemma workloads_loop_ok:
  "workloads_loop roots ids ws = Inr () \<longleftrightarrow>
     distinct (map ws_container_id ws) \<and> ws_container_id ` set ws \<inter> ids = {} \<and>
     (\<forall>w\<in>set ws. \<not> workload_rejected w \<and> distinct (map ms_destination (ws_mounts w)) \<and>
        (\<forall>m\<in>set (ws_mounts w). \<exists>root\<in>set roots. covers root (ms_source_path m)))"
  by (induction roots ids ws rule: workloads_loop.induct)
    (auto simp: card_image_length list_ex_iff)

lemma source_layout_validate_ok:
  "source_layout_validate l = Inr () \<longleftrightarrow>
     sl_roots l \<noteq> [] \<and> length (sl_roots l) \<le> 32 \<and> distinct (sl_roots l) \<and>
     length (sl_docker_workloads l) \<le> 128 \<and> distinct (map ws_container_id (sl_docker_workloads l)) \<and>
     (\<forall>w\<in>set (sl_docker_workloads l). \<not> workload_rejected w \<and> distinct (map ms_destination (ws_mounts w)) \<and>
        (\<forall>m\<in>set (ws_mounts w). \<exists>root\<in>set (sl_roots l). covers root (ms_source_path m)))"
  by (auto simp: source_layout_validate_def workloads_loop_ok card_set_length)

lemma components_of_parsed:
  "remote_path_parse p = Inr p \<Longrightarrow> p \<noteq> ''/'' \<Longrightarrow> split_on slash p = [] # path_components p"
  by (auto simp: remote_path_parse_iff absolute_lexical_split)

lemma snapshot_mount_Some:
  "snapshot_mount roots m = Some s \<longleftrightarrow>
     (\<exists>src. capturable_path m = Some src \<and> remote_path_parse src = Inr src \<and>
        (\<exists>root\<in>set roots. covers root src) \<and> remote_path_parse (dm_destination m) = Inr (dm_destination m) \<and>
        s = \<lparr>ms_source_path = src, ms_destination = dm_destination m, ms_read_only = dm_read_only m\<rparr>)"
  by (auto simp: snapshot_mount_def Option.bind_eq_Some_conv list_ex_iff remote_path_parse_iff
      split: if_splits)

lemma map_filter_snapshot_destinations:
  "distinct (map dm_destination ms) \<Longrightarrow> distinct (map ms_destination (List.map_filter (snapshot_mount roots) ms))"
proof (induction ms)
  case Nil
  then show ?case by (simp add: List.map_filter_def)
next
  case (Cons m ms)
  have "ms_destination ` set (List.map_filter (snapshot_mount roots) ms) \<subseteq> dm_destination ` set ms"
    by (auto simp: snapshot_mount_Some)
  with Cons show ?case
    by (auto simp: List.map_filter_simps snapshot_mount_Some split: option.splits)
qed

lemma snapshot_ok:
  "snapshot c roots = Inr w \<longleftrightarrow> w = workload_of roots c \<and> (\<exists>m\<in>set (dc_mounts c). snapshot_mount roots m \<noteq> None)"
  by (auto simp: snapshot_def workload_of_def map_filter_empty Let_def)

lemma workload_of_valid:
  assumes c: "docker_container_validate c = Inr ()"
    and cov: "\<exists>m\<in>set (dc_mounts c). snapshot_mount roots m \<noteq> None"
  shows "\<not> workload_rejected (workload_of roots c)"
    "distinct (map ms_destination (ws_mounts (workload_of roots c)))"
    "m \<in> set (ws_mounts (workload_of roots c)) \<Longrightarrow> \<exists>root\<in>set roots. covers root (ms_source_path m)"
proof -
  have "length (List.map_filter (snapshot_mount roots) (dc_mounts c)) \<le> 128"
    using map_filter_length [of "snapshot_mount roots" "dc_mounts c"] c
    by (simp add: docker_container_validate_ok)
  then show "\<not> workload_rejected (workload_of roots c)"
    using c cov by (auto simp: workload_rejected_def workload_of_def docker_container_validate_ok
        is_some_and_not_iff map_filter_empty)
  show "distinct (map ms_destination (ws_mounts (workload_of roots c)))"
    using c by (simp add: workload_of_def docker_container_validate_ok map_filter_snapshot_destinations)
  show "m \<in> set (ws_mounts (workload_of roots c)) \<Longrightarrow> \<exists>root\<in>set roots. covers root (ms_source_path m)"
    by (auto simp: workload_of_def snapshot_mount_Some)
qed

section \<open>Properties\<close>

text \<open>On parsed remote paths the string comparison \<open>covers\<close> is exactly the prefix order on path
  components: \<open>/srv\<close> covers \<open>/srv/data\<close> and never \<open>/srv2\<close>.\<close>

theorem covers_component_prefix:
  assumes p: "remote_path_parse p = Inr p" and q: "remote_path_parse q = Inr q"
  shows "covers p q \<longleftrightarrow> prefix (path_components p) (path_components q)"
proof (cases "p = ''/'' \<or> q = ''/''")
  case True
  then show ?thesis
  proof (cases "p = ''/''")
    case False
    with True p have "q = ''/''" "path_components p \<noteq> []"
      by (auto simp: remote_path_parse_iff absolute_lexical_split)
    moreover have "\<not> covers p ''/''"
      using False p by (auto simp: covers_slash remote_path_parse_iff absolute_lexical_def append_eq_Cons_conv)
    ultimately show ?thesis by (simp add: path_components_def)
  qed (auto simp: covers_slash path_components_def)
next
  case False
  note sp = components_of_parsed [OF p] components_of_parsed [OF q]
  show ?thesis
  proof
    assume "covers p q"
    then consider "p = q" | tail where "q = p @ slash # tail"
      using False by (auto simp: covers_slash)
    then show "prefix (path_components p) (path_components q)"
    proof cases
      case 2
      then have "path_components q = path_components p @ split_on slash tail"
        using sp False by (simp add: split_on_append)
      then show ?thesis by simp
    qed simp
  next
    assume "prefix (path_components p) (path_components q)"
    then obtain rest where r: "path_components q = path_components p @ rest"
      by (auto simp: prefix_def)
    show "covers p q"
    proof (cases "rest = []")
      case True
      then show ?thesis using r components_inject [OF p q] by (simp add: covers_slash)
    next
      case rest: False
      have "slash \<notin> set s" if "s \<in> set rest" for s
        using that r sp(2) False split_on_no_sep [of s slash q] by auto
      then have "split_on slash (join_with slash rest) = rest"
        using rest by (simp add: split_join)
      then have "split_on slash (p @ slash # join_with slash rest) = split_on slash q"
        using sp False r by (simp add: split_on_append)
      then show ?thesis
        using split_on_inject by (auto simp: covers_slash)
    qed
  qed
qed

theorem covers_component_prefix_witness:
  "\<not> covers ''/srv'' ''/srv2/data'' \<and> \<not> prefix (path_components ''/srv'') (path_components ''/srv2/data'')"
proof -
  have "remote_path_parse ''/srv'' = Inr ''/srv''" "remote_path_parse ''/srv2/data'' = Inr ''/srv2/data''"
    by code_simp+
  then have "covers ''/srv'' ''/srv2/data'' \<longleftrightarrow> prefix (path_components ''/srv'') (path_components ''/srv2/data'')"
    by (rule covers_component_prefix)
  moreover have "\<not> covers ''/srv'' ''/srv2/data''" by code_simp
  ultimately show ?thesis by simp
qed

text \<open>C6: from a validated inventory, deriving the layout succeeds exactly when there are one to 32
  distinct roots, at most 128 selected containers, and every selected container has at least one
  mount below a root. The layout then holds, per selected container and in inventory order, its
  identity and precisely its mounts below the roots; no other container or mount is recorded.\<close>

theorem from_inventory_complete:
  assumes valid: "docker_inventory_validate i = Inr ()"
  shows "from_inventory roots ids (Some i) = Inr layout \<longleftrightarrow>
     roots \<noteq> [] \<and> length roots \<le> 32 \<and> distinct roots \<and> length (selected_containers ids i) \<le> 128 \<and>
     (\<forall>c\<in>set (selected_containers ids i). \<exists>m\<in>set (dc_mounts c). snapshot_mount roots m \<noteq> None) \<and>
     layout = \<lparr>sl_roots = roots, sl_docker_workloads = map (workload_of roots) (selected_containers ids i)\<rparr>"
proof -
  let ?sel = "selected_containers ids i"
  let ?covered = "\<forall>c\<in>set ?sel. \<exists>m\<in>set (dc_mounts c). snapshot_mount roots m \<noteq> None"
  let ?layout = "\<lparr>sl_roots = roots, sl_docker_workloads = map (workload_of roots) ?sel\<rparr>"
  have workloads: "try_map (\<lambda>c. snapshot c roots) ?sel = Inr ws \<longleftrightarrow> ?covered \<and> ws = map (workload_of roots) ?sel" for ws
    by (rule try_map_iff) (rule snapshot_ok)
  have sel: "set ?sel \<subseteq> set (di_containers i)" "distinct (map dc_id ?sel)"
    using valid by (auto simp: selected_containers_def docker_inventory_validate_ok distinct_map_filter)
  have ok: "source_layout_validate ?layout = Inr () \<longleftrightarrow>
      roots \<noteq> [] \<and> length roots \<le> 32 \<and> distinct roots \<and> length ?sel \<le> 128" if cov: ?covered
  proof -
    have c: "docker_container_validate c = Inr ()" "\<exists>m\<in>set (dc_mounts c). snapshot_mount roots m \<noteq> None"
      if "c \<in> set ?sel" for c
      using that sel valid cov by (auto simp: docker_inventory_validate_ok)
    have "distinct (map (ws_container_id \<circ> workload_of roots) ?sel)"
      using sel by (simp add: comp_def workload_of_def)
    then show ?thesis
      using workload_of_valid [OF c] by (auto simp: source_layout_validate_ok)
  qed
  have "from_inventory roots ids (Some i) = Inr layout \<longleftrightarrow>
      ?covered \<and> source_layout_validate ?layout = Inr () \<and> layout = ?layout"
    by (auto simp: from_inventory_def Let_def workloads simp flip: selected_containers_def)
  then show ?thesis using ok by auto
qed

theorem from_inventory_complete_witness:
  "let web = \<lparr>dc_id = ''0123456789ab'', dc_name = ''web'', dc_image = ''web:1'', dc_image_digest = None,
         dc_compose_project = Some ''shop'', dc_state = Running, dc_health = Some Healthy,
         dc_mounts = [\<lparr>dm_kind = Bind, dm_source_reference = ''/srv/web'', dm_host_path = None,
                       dm_destination = ''/data'', dm_read_only = True\<rparr>,
                      \<lparr>dm_kind = Tmpfs, dm_source_reference = ''tmpfs'', dm_host_path = None,
                       dm_destination = ''/tmp'', dm_read_only = False\<rparr>],
         dc_networks = [], dc_secret_references = []\<rparr>
   in from_inventory [''/srv''] {''0123456789ab''} (Some \<lparr>di_containers = [web]\<rparr>) =
        Inr \<lparr>sl_roots = [''/srv''], sl_docker_workloads =
          [\<lparr>ws_container_id = ''0123456789ab'', ws_container_name = ''web'', ws_image = ''web:1'',
            ws_image_digest = None, ws_compose_project = Some ''shop'', ws_state = Running,
            ws_mounts = [\<lparr>ms_source_path = ''/srv/web'', ms_destination = ''/data'', ms_read_only = True\<rparr>]\<rparr>]\<rparr>"
proof -
  let ?web = "\<lparr>dc_id = ''0123456789ab'', dc_name = ''web'', dc_image = ''web:1'', dc_image_digest = None,
         dc_compose_project = Some ''shop'', dc_state = Running, dc_health = Some Healthy,
         dc_mounts = [\<lparr>dm_kind = Bind, dm_source_reference = ''/srv/web'', dm_host_path = None,
                       dm_destination = ''/data'', dm_read_only = True\<rparr>,
                      \<lparr>dm_kind = Tmpfs, dm_source_reference = ''tmpfs'', dm_host_path = None,
                       dm_destination = ''/tmp'', dm_read_only = False\<rparr>],
         dc_networks = [], dc_secret_references = []\<rparr>"
  have v: "docker_inventory_validate \<lparr>di_containers = [?web]\<rparr> = Inr ()" by code_simp
  have m: "snapshot_mount [''/srv''] \<lparr>dm_kind = Bind, dm_source_reference = ''/srv/web'', dm_host_path = None,
      dm_destination = ''/data'', dm_read_only = True\<rparr> =
        Some \<lparr>ms_source_path = ''/srv/web'', ms_destination = ''/data'', ms_read_only = True\<rparr>"
    "snapshot_mount [''/srv''] \<lparr>dm_kind = Tmpfs, dm_source_reference = ''tmpfs'', dm_host_path = None,
      dm_destination = ''/tmp'', dm_read_only = False\<rparr> = None"
    by code_simp+
  show ?thesis
    unfolding Let_def from_inventory_complete [OF v] 
    by (simp add: selected_containers_def workload_of_def List.map_filter_simps m)
qed

end
