(* ===== verification/Manifest.thy ===== *)
theory Manifest
  imports Source_Layout
begin

text \<open>
  \<^verbatim>\<open>crates/guardian-core/src/{manifest,signature}.rs\<close>: the backup manifest, its payload entries and
  encryption metadata, the two validations (before verification and after sealing), and the
  signing interface. The base64 codec and \<open>serde_json::to_vec\<close> are parameters.
\<close>

section \<open>Definitions\<close>

definition CURRENT_FORMAT_VERSION :: u32 where "CURRENT_FORMAT_VERSION = 1"

definition ENCRYPTED_FORMAT_VERSION :: u32 where "ENCRYPTED_FORMAT_VERSION = 2"

type_synonym b64_encoder = "byte list \<Rightarrow> string"

record producer =
  pr_name :: string
  pr_version :: string
  pr_platform :: string

record source_identity =
  si_profile_id :: profile_id
  si_host_key_fingerprint :: string

record plan_reference =
  pl_plan_id :: plan_id
  pl_version :: u32
  pl_sha256 :: string

datatype consistency_level = CrashConsistent | ApplicationConsistent

datatype verification_state = Pending | Verified

record payload_encryption =
  pe_envelope_version :: byte
  pe_algorithm :: string
  pe_credential_id :: credential_id
  pe_nonce_base64 :: string
  pe_recovery_wrapped_key_base64 :: "string option"

record payload_entry =
  py_logical_role :: string
  py_path :: payload_path
  py_byte_length :: u64
  py_sha256 :: string
  py_media_type :: string
  py_encryption :: "payload_encryption option"

record signature_metadata =
  sm_algorithm :: string
  sm_key_id :: string

record manifest =
  mf_format_version :: u32
  mf_backup_id :: backup_id
  mf_run_id :: run_id
  mf_created_at :: timestamp
  mf_sealed_at :: "timestamp option"
  mf_producer :: producer
  mf_source :: source_identity
  mf_plan :: plan_reference
  mf_consistency :: consistency_level
  mf_payloads :: "payload_entry list"
  mf_verification_state :: verification_state
  mf_signature :: "signature_metadata option"
  mf_warnings :: "string list"
  mf_source_layout :: "source_layout option"

datatype manifest_error =
    UnsupportedFormatVersion | AlreadyFinalized | NotSealed | EmptyPayload | DuplicatePayloadPath
  | InvalidSha256 | ManifestInvalidPayloadPath | InvalidPlanReference | ManifestInvalidLabel
  | Serialization | EncryptionPolicy | InvalidSourceLayout

definition validate_label :: "string \<Rightarrow> manifest_error + unit" where
  "validate_label value =
     ok_if (value \<noteq> [] \<and> length value \<le> 128 \<and> \<not> has_control value) () ManifestInvalidLabel"

definition is_sha256 :: "string \<Rightarrow> bool" where
  "is_sha256 value \<longleftrightarrow> length value = 64 \<and> list_all is_ascii_hexdigit value"

definition payload_nonce :: "b64_decoder \<Rightarrow> payload_encryption \<Rightarrow> manifest_error + byte list" where
  "payload_nonce b64 self =
     and_then (ok_or (b64 (pe_nonce_base64 self)) EncryptionPolicy) (\<lambda>bytes.
       ok_if (length bytes = 12) bytes EncryptionPolicy)"

definition recovery_wrapped_key ::
  "b64_decoder \<Rightarrow> payload_encryption \<Rightarrow> manifest_error + byte list option" where
  "recovery_wrapped_key b64 self =
     (case pe_recovery_wrapped_key_base64 self of
        Some value \<Rightarrow> and_then (ok_or (b64 value) EncryptionPolicy) (\<lambda>bytes. Inr (Some bytes))
      | None \<Rightarrow> Inr None)"

definition WRAPPED_PAYLOAD_KEY_ENVELOPE_BYTES :: nat where
  "WRAPPED_PAYLOAD_KEY_ENVELOPE_BYTES = 95"

definition payload_encryption_validate ::
  "b64_decoder \<Rightarrow> payload_encryption \<Rightarrow> manifest_error + unit" where
  "payload_encryption_validate b64 self =
     and_then (ok_if (pe_envelope_version self = 1 \<and> pe_algorithm self = ''AES-256-GCM-CHUNKED'')
       () EncryptionPolicy) (\<lambda>_.
     and_then (payload_nonce b64 self) (\<lambda>_.
     and_then (recovery_wrapped_key b64 self) (\<lambda>wrapped.
       case wrapped of
         Some w \<Rightarrow> ok_if (length w = WRAPPED_PAYLOAD_KEY_ENVELOPE_BYTES) () EncryptionPolicy
       | None \<Rightarrow> Inr ())))"

definition payload_encryption_new ::
  "b64_encoder \<Rightarrow> b64_decoder \<Rightarrow> byte \<Rightarrow> string \<Rightarrow> credential_id \<Rightarrow> byte list \<Rightarrow>
   manifest_error + payload_encryption" where
  "payload_encryption_new enc b64 version algorithm credential_id nonce =
     (let encryption = \<lparr>pe_envelope_version = version, pe_algorithm = algorithm,
            pe_credential_id = credential_id, pe_nonce_base64 = enc nonce,
            pe_recovery_wrapped_key_base64 = None\<rparr>
      in and_then (payload_encryption_validate b64 encryption) (\<lambda>_. Inr encryption))"

definition with_recovery_wrapped_key ::
  "b64_encoder \<Rightarrow> b64_decoder \<Rightarrow> payload_encryption \<Rightarrow> byte list \<Rightarrow> manifest_error + payload_encryption" where
  "with_recovery_wrapped_key enc b64 self wrapped =
     (let self = self\<lparr>pe_recovery_wrapped_key_base64 := Some (enc wrapped)\<rparr>
      in and_then (payload_encryption_validate b64 self) (\<lambda>_. Inr self))"

definition payload_entry_validate :: "b64_decoder \<Rightarrow> payload_entry \<Rightarrow> manifest_error + unit" where
  "payload_entry_validate b64 self =
     (if \<not> prefix ''payload/'' (py_path self) then Inl ManifestInvalidPayloadPath
      else
        and_then (validate_label (py_logical_role self)) (\<lambda>_.
        and_then (validate_label (py_media_type self)) (\<lambda>_.
        and_then (ok_if (is_sha256 (py_sha256 self)) () InvalidSha256) (\<lambda>_.
          case py_encryption self of
            Some encryption \<Rightarrow>
              and_then (payload_encryption_validate b64 encryption) (\<lambda>_.
                ok_if (suffix ''.enc'' (py_path self)) () EncryptionPolicy)
          | None \<Rightarrow> Inr ()))))"

definition payload_entry_new ::
  "b64_decoder \<Rightarrow> string \<Rightarrow> payload_path \<Rightarrow> u64 \<Rightarrow> string \<Rightarrow> string \<Rightarrow> manifest_error + payload_entry" where
  "payload_entry_new b64 logical_role path byte_length sha256 media_type =
     (let entry = \<lparr>py_logical_role = logical_role, py_path = path, py_byte_length = byte_length,
            py_sha256 = sha256, py_media_type = media_type, py_encryption = None\<rparr>
      in and_then (payload_entry_validate b64 entry) (\<lambda>_. Inr entry))"

definition payload_entry_encrypted ::
  "b64_decoder \<Rightarrow> payload_entry \<Rightarrow> payload_encryption \<Rightarrow> manifest_error + payload_entry" where
  "payload_entry_encrypted b64 self encryption =
     (let self = self\<lparr>py_encryption := Some encryption\<rparr>
      in and_then (payload_entry_validate b64 self) (\<lambda>_. Inr self))"

definition manifest_new ::
  "backup_id \<Rightarrow> run_id \<Rightarrow> timestamp \<Rightarrow> producer \<Rightarrow> source_identity \<Rightarrow> plan_reference \<Rightarrow> manifest" where
  "manifest_new backup_id run_id created_at producer source plan =
     \<lparr>mf_format_version = CURRENT_FORMAT_VERSION, mf_backup_id = backup_id, mf_run_id = run_id,
      mf_created_at = created_at, mf_sealed_at = None, mf_producer = producer, mf_source = source,
      mf_plan = plan, mf_consistency = CrashConsistent, mf_payloads = [],
      mf_verification_state = Pending, mf_signature = None, mf_warnings = [],
      mf_source_layout = None\<rparr>"

definition add_payload :: "manifest \<Rightarrow> payload_entry \<Rightarrow> manifest_error + manifest" where
  "add_payload self payload =
     (if list_ex (\<lambda>entry. py_path entry = py_path payload) (mf_payloads self)
      then Inl DuplicatePayloadPath
      else
        let self = (if py_encryption payload \<noteq> None \<and> mf_format_version self = CURRENT_FORMAT_VERSION
                    then self\<lparr>mf_format_version := ENCRYPTED_FORMAT_VERSION\<rparr> else self)
        in Inr (self\<lparr>mf_payloads := mf_payloads self @ [payload]\<rparr>))"

definition payload_policy_check :: "b64_decoder \<Rightarrow> u32 \<Rightarrow> payload_entry \<Rightarrow> manifest_error + unit" where
  "payload_policy_check b64 version entry =
     and_then (payload_entry_validate b64 entry) (\<lambda>_.
       if version = CURRENT_FORMAT_VERSION \<and> py_encryption entry = None
        \<or> version = ENCRYPTED_FORMAT_VERSION \<and> py_encryption entry \<noteq> None
       then Inr () else Inl EncryptionPolicy)"

definition validate_common :: "b64_decoder \<Rightarrow> manifest \<Rightarrow> manifest_error + unit" where
  "validate_common b64 self =
     (if mf_format_version self \<notin> {CURRENT_FORMAT_VERSION, ENCRYPTED_FORMAT_VERSION}
      then Inl UnsupportedFormatVersion
      else if mf_payloads self = [] then Inl EmptyPayload
      else
        and_then (try_for_each validate_label
          [pr_name (mf_producer self), pr_version (mf_producer self), pr_platform (mf_producer self),
           si_host_key_fingerprint (mf_source self)]) (\<lambda>_.
        if pl_version (mf_plan self) = 0 \<or> \<not> is_sha256 (pl_sha256 (mf_plan self))
        then Inl InvalidPlanReference
        else
          and_then (try_for_each (payload_policy_check b64 (mf_format_version self)) (mf_payloads self)) (\<lambda>_.
          and_then (try_for_each validate_label (mf_warnings self)) (\<lambda>_.
          and_then (case mf_source_layout self of
                      Some layout \<Rightarrow> map_err (\<lambda>_. InvalidSourceLayout) (source_layout_validate layout)
                    | None \<Rightarrow> Inr ()) (\<lambda>_.
          ok_if (card (set (map py_path (mf_payloads self))) = length (mf_payloads self))
            () DuplicatePayloadPath)))))"

definition validate_for_verification :: "b64_decoder \<Rightarrow> manifest \<Rightarrow> manifest_error + unit" where
  "validate_for_verification b64 self =
     and_then (validate_common b64 self) (\<lambda>_.
       if mf_verification_state self \<noteq> Pending \<or> mf_sealed_at self \<noteq> None \<or> mf_signature self \<noteq> None
       then Inl AlreadyFinalized else Inr ())"

definition prepare_for_seal ::
  "b64_decoder \<Rightarrow> manifest \<Rightarrow> timestamp \<Rightarrow> string \<Rightarrow> string \<Rightarrow> manifest_error + manifest" where
  "prepare_for_seal b64 self sealed_at algorithm key_id =
     and_then (validate_label algorithm) (\<lambda>_.
     and_then (validate_label key_id) (\<lambda>_.
     and_then (validate_for_verification b64 self) (\<lambda>_.
     Inr (self\<lparr>mf_sealed_at := Some sealed_at, mf_verification_state := Verified,
               mf_signature := Some \<lparr>sm_algorithm = algorithm, sm_key_id = key_id\<rparr>\<rparr>))))"

definition validate_sealed :: "b64_decoder \<Rightarrow> manifest \<Rightarrow> manifest_error + unit" where
  "validate_sealed b64 self =
     and_then (validate_common b64 self) (\<lambda>_.
     and_then (ok_or (mf_signature self) NotSealed) (\<lambda>signature.
       if mf_verification_state self \<noteq> Verified \<or> mf_sealed_at self = None then Inl NotSealed
       else and_then (validate_label (sm_algorithm signature)) (\<lambda>_.
            validate_label (sm_key_id signature))))"

definition canonical_bytes :: "('m \<Rightarrow> byte list option) \<Rightarrow> 'm \<Rightarrow> manifest_error + byte list" where
  "canonical_bytes to_json self = ok_or (to_json self) Serialization"

datatype payload_selection_error = NoFilesystemPayload | AmbiguousDatabasePayload

definition select_payloads ::
  "manifest \<Rightarrow> payload_selection_error + payload_path \<times> payload_path option" where
  "select_payloads manifest =
     (let filesystem_payloads =
            map py_path (filter (\<lambda>p. py_media_type p = ''application/zstd'') (mf_payloads manifest))
      in if length filesystem_payloads \<noteq> 1 then Inl NoFilesystemPayload
         else
           let database_payloads =
                 map py_path (filter (\<lambda>p. py_logical_role p = ''database'') (mf_payloads manifest))
           in if length database_payloads > 1 then Inl AmbiguousDatabasePayload
              else Inr (hd filesystem_payloads,
                        if database_payloads = [] then None else Some (last database_payloads)))"

subsection \<open>Signatures\<close>

datatype signing_error = SignFailed | VerificationFailed

record signature_envelope =
  se_algorithm :: string
  se_key_id :: string
  se_signature :: "byte list"

text \<open>\<open>ManifestSigner\<close>: the trait's four methods as a record of functions.\<close>

record manifest_signer =
  signer_algorithm :: string
  signer_key_id :: string
  signer_sign :: "byte list \<Rightarrow> signing_error + byte list"
  signer_verify :: "byte list \<Rightarrow> byte list \<Rightarrow> signing_error + unit"

definition sign_envelope :: "manifest_signer \<Rightarrow> byte list \<Rightarrow> signing_error + signature_envelope" where
  "sign_envelope self message =
     and_then (signer_sign self message) (\<lambda>signature.
       Inr \<lparr>se_algorithm = signer_algorithm self, se_key_id = signer_key_id self,
            se_signature = signature\<rparr>)"

type_synonym manifest_verifier = "string \<Rightarrow> string \<Rightarrow> byte list \<Rightarrow> byte list \<Rightarrow> signing_error + unit"

definition verify_manifest :: "manifest_signer \<Rightarrow> manifest_verifier" where
  "verify_manifest self algorithm key_id message signature =
     (if algorithm \<noteq> signer_algorithm self \<or> key_id \<noteq> signer_key_id self
      then Inl VerificationFailed
      else signer_verify self message signature)"

subsection \<open>Reference semantics\<close>

text \<open>The checks of the manifest's header, apart from its payloads.\<close>

definition header_valid :: "manifest \<Rightarrow> bool" where
  "header_valid m \<longleftrightarrow>
     (\<forall>l\<in>{pr_name (mf_producer m), pr_version (mf_producer m), pr_platform (mf_producer m),
          si_host_key_fingerprint (mf_source m)} \<union> set (mf_warnings m). validate_label l = Inr ()) \<and>
     pl_version (mf_plan m) \<noteq> 0 \<and> is_sha256 (pl_sha256 (mf_plan m)) \<and>
     pred_option (\<lambda>l. source_layout_validate l = Inr ()) (mf_source_layout m)"

text \<open>The manifest with payloads appended and the format version they call for.\<close>

definition extend_version :: "u32 \<Rightarrow> payload_entry list \<Rightarrow> u32" where
  "extend_version v ps =
     (if v = CURRENT_FORMAT_VERSION \<and> (\<exists>p\<in>set ps. py_encryption p \<noteq> None)
      then ENCRYPTED_FORMAT_VERSION else v)"

definition extend_manifest :: "manifest \<Rightarrow> payload_entry list \<Rightarrow> manifest" where
  "extend_manifest m ps =
     m\<lparr>mf_format_version := extend_version (mf_format_version m) ps, mf_payloads := mf_payloads m @ ps\<rparr>"

text \<open>Adding a list of payloads one after the other, as the capture code does.\<close>

fun add_payloads :: "manifest \<Rightarrow> payload_entry list \<Rightarrow> manifest_error + manifest" where
  "add_payloads m [] = Inr m"
| "add_payloads m (p # ps) = and_then (add_payload m p) (\<lambda>m'. add_payloads m' ps)"

section \<open>Lemmas\<close>

lemma format_versions_distinct [simp]:
  "CURRENT_FORMAT_VERSION \<noteq> ENCRYPTED_FORMAT_VERSION" "ENCRYPTED_FORMAT_VERSION \<noteq> CURRENT_FORMAT_VERSION"
  by (simp_all add: CURRENT_FORMAT_VERSION_def ENCRYPTED_FORMAT_VERSION_def)

lemma payload_policy_check_ok [simp]:
  "payload_policy_check b64 v e = Inr () \<longleftrightarrow> payload_entry_validate b64 e = Inr () \<and>
     (v = CURRENT_FORMAT_VERSION \<and> py_encryption e = None \<or> v = ENCRYPTED_FORMAT_VERSION \<and> py_encryption e \<noteq> None)"
  by (auto simp: payload_policy_check_def)

lemma validate_common_ok:
  "validate_common b64 m = Inr () \<longleftrightarrow>
     mf_payloads m \<noteq> [] \<and> header_valid m \<and> distinct (map py_path (mf_payloads m)) \<and>
     (\<forall>e\<in>set (mf_payloads m). payload_entry_validate b64 e = Inr ()) \<and>
     (mf_format_version m = CURRENT_FORMAT_VERSION \<and> (\<forall>e\<in>set (mf_payloads m). py_encryption e = None) \<or>
      mf_format_version m = ENCRYPTED_FORMAT_VERSION \<and> (\<forall>e\<in>set (mf_payloads m). py_encryption e \<noteq> None))"
  by (auto simp: validate_common_def header_valid_def card_image_length split: option.splits)

lemma validate_for_verification_ok:
  "validate_for_verification b64 m = Inr () \<longleftrightarrow>
     validate_common b64 m = Inr () \<and> mf_verification_state m = Pending \<and> mf_sealed_at m = None \<and>
     mf_signature m = None"
  by (auto simp: validate_for_verification_def)

lemma prepare_for_seal_ok:
  "prepare_for_seal b64 m at alg kid = Inr m' \<longleftrightarrow>
     validate_label alg = Inr () \<and> validate_label kid = Inr () \<and> validate_for_verification b64 m = Inr () \<and>
     m' = m\<lparr>mf_sealed_at := Some at, mf_verification_state := Verified,
            mf_signature := Some \<lparr>sm_algorithm = alg, sm_key_id = kid\<rparr>\<rparr>"
  by (auto simp: prepare_for_seal_def)

lemma validate_common_seal_fields [simp]:
  "validate_common b64 (m\<lparr>mf_sealed_at := a, mf_verification_state := v, mf_signature := s\<rparr>) = validate_common b64 m"
  by (simp add: validate_common_def)

lemma prepare_for_seal_sealed:
  "prepare_for_seal b64 m at alg kid = Inr m' \<Longrightarrow> validate_sealed b64 m' = Inr ()"
  by (auto simp: prepare_for_seal_ok validate_sealed_def validate_for_verification_ok)

lemma list_ex_path: "list_ex (\<lambda>e. py_path e = y) es \<longleftrightarrow> y \<in> py_path ` set es"
  by (induction es) auto

lemma add_payload_ok:
  "add_payload m p = Inr m' \<longleftrightarrow>
     py_path p \<notin> py_path ` set (mf_payloads m) \<and> m' = extend_manifest m [p]"
  by (auto simp: add_payload_def list_ex_path extend_manifest_def extend_version_def)

lemma extend_version_simps [simp]:
  "extend_version v [] = v"
  "extend_version (extend_version v ps) qs = extend_version v (ps @ qs)"
proof -
  show "extend_version v [] = v" by (simp add: extend_version_def)
  show "extend_version (extend_version v ps) qs = extend_version v (ps @ qs)"
  proof (cases "v = CURRENT_FORMAT_VERSION \<and> (\<exists>p\<in>set ps. py_encryption p \<noteq> None)")
    case True
    then have "extend_version v ps = ENCRYPTED_FORMAT_VERSION" unfolding extend_version_def by (rule if_P)
    moreover have "extend_version v (ps @ qs) = ENCRYPTED_FORMAT_VERSION"
      unfolding extend_version_def using True by (intro if_P) auto
    ultimately show ?thesis by (simp add: extend_version_def)
  next
    case False
    then have "extend_version v ps = v" unfolding extend_version_def by (rule if_not_P)
    then show ?thesis using False by (auto simp: extend_version_def [of v qs] extend_version_def [of v "ps @ qs"])
  qed
qed

lemma extend_manifest_Nil [simp]: "extend_manifest m [] = m"
  by (simp add: extend_manifest_def)

lemma extend_extend: "extend_manifest (extend_manifest m ps) qs = extend_manifest m (ps @ qs)"
  by (simp add: extend_manifest_def)

lemma extend_manifest_payloads [simp]: "mf_payloads (extend_manifest m ps) = mf_payloads m @ ps"
  by (simp add: extend_manifest_def)

lemma add_payloads_ok:
  assumes "distinct (map py_path (mf_payloads m))"
  shows "add_payloads m ps = Inr m' \<longleftrightarrow>
     distinct (map py_path (mf_payloads m @ ps)) \<and> m' = extend_manifest m ps"
  using assms
proof (induction m ps rule: add_payloads.induct)
  case (1 m)
  then show ?case by auto
next
  case (2 m p ps)
  show ?case
  proof (cases "py_path p \<in> py_path ` set (mf_payloads m)")
    case True
    then have "add_payload m p \<noteq> Inr x" for x
      by (simp add: add_payload_ok)
    then show ?thesis using True by simp
  next
    case False
    then have m1: "add_payload m p = Inr (extend_manifest m [p])" by (simp add: add_payload_ok)
    have "add_payloads (extend_manifest m [p]) ps = Inr m' \<longleftrightarrow>
        distinct (map py_path (mf_payloads m @ [p] @ ps)) \<and> m' = extend_manifest m (p # ps)"
      using "2.IH" [of "extend_manifest m [p]"] "2.prems" False by (simp add: extend_extend)
    then show ?thesis by (simp add: m1)
  qed
qed

section \<open>Properties\<close>

text \<open>C7: the sealing transition. It accepts exactly a validated, never finalized manifest with
  well-formed signer labels; it changes the three seal fields and nothing else; its result passes
  the sealed validation; and it can never be applied to its own result, whatever the signer.\<close>

theorem prepare_for_seal_lifecycle:
  assumes sealed: "prepare_for_seal b64 m at alg kid = Inr m'"
  shows "validate_for_verification b64 m = Inr ()
    \<and> m' = m\<lparr>mf_sealed_at := Some at, mf_verification_state := Verified,
             mf_signature := Some \<lparr>sm_algorithm = alg, sm_key_id = kid\<rparr>\<rparr>
    \<and> validate_sealed b64 m' = Inr ()
    \<and> validate_for_verification b64 m' = Inl AlreadyFinalized
    \<and> \<not> is_ok (prepare_for_seal b64 m' at2 alg2 kid2)"
proof -
  have m': "m' = m\<lparr>mf_sealed_at := Some at, mf_verification_state := Verified,
             mf_signature := Some \<lparr>sm_algorithm = alg, sm_key_id = kid\<rparr>\<rparr>"
    and v: "validate_for_verification b64 m = Inr ()"
    using sealed by (auto simp: prepare_for_seal_ok)
  then have twice: "validate_for_verification b64 m' = Inl AlreadyFinalized"
    by (simp add: validate_for_verification_def)
  then have "\<not> is_ok (prepare_for_seal b64 m' at2 alg2 kid2)"
    by (auto simp: is_ok_iff prepare_for_seal_ok)
  with m' v twice show ?thesis
    using prepare_for_seal_sealed [OF sealed] by blast
qed

theorem prepare_for_seal_lifecycle_witness:
  "\<exists>m m'. prepare_for_seal (\<lambda>_. None) m ''2024-01-02T03:04:05Z'' ''ed25519'' ''key-1'' = Inr m'
    \<and> validate_sealed (\<lambda>_. None) m' = Inr ()"
proof -
  let ?entry = "\<lparr>py_logical_role = ''filesystem'', py_path = ''payload/fs.tar.zst'', py_byte_length = 10,
    py_sha256 = replicate 64 CHR ''a'', py_media_type = ''application/zstd'', py_encryption = None\<rparr>"
  let ?m = "(manifest_new ''b1'' ''r1'' ''2024-01-02T03:04:04Z''
    \<lparr>pr_name = ''guardian'', pr_version = ''1'', pr_platform = ''linux''\<rparr>
    \<lparr>si_profile_id = ''p1'', si_host_key_fingerprint = ''SHA256:00''\<rparr>
    \<lparr>pl_plan_id = ''plan'', pl_version = 1, pl_sha256 = replicate 64 CHR ''0''\<rparr>)\<lparr>mf_payloads := [?entry]\<rparr>"
  have "validate_for_verification (\<lambda>_. None) ?m = Inr ()" by code_simp
  moreover have "validate_label ''ed25519'' = Inr ()" "validate_label ''key-1'' = Inr ()" by code_simp+
  ultimately obtain m' where run:
    "prepare_for_seal (\<lambda>_. None) ?m ''2024-01-02T03:04:05Z'' ''ed25519'' ''key-1'' = Inr m'"
    by (simp add: prepare_for_seal_ok)
  then show ?thesis using prepare_for_seal_lifecycle [OF run] by blast
qed

text \<open>A manifest assembled by \<open>add_payload\<close> from a fresh one is accepted for verification exactly
  when it has payloads, a well-formed header and well-formed entries, and they are either all
  encrypted or all plaintext; adding fails exactly on a repeated path. The format version is never
  chosen by hand: it is the encrypted one precisely when a payload is encrypted.\<close>

theorem assembled_manifest_accepted:
  assumes built: "add_payloads (manifest_new b r at pr si pl) ps = Inr m"
  shows "distinct (map py_path ps) \<and> mf_payloads m = ps
    \<and> (mf_format_version m = ENCRYPTED_FORMAT_VERSION \<longleftrightarrow> (\<exists>p\<in>set ps. py_encryption p \<noteq> None))
    \<and> (validate_for_verification b64 m = Inr () \<longleftrightarrow>
        ps \<noteq> [] \<and> header_valid (manifest_new b r at pr si pl) \<and>
        (\<forall>p\<in>set ps. payload_entry_validate b64 p = Inr ()) \<and>
        ((\<forall>p\<in>set ps. py_encryption p = None) \<or> (\<forall>p\<in>set ps. py_encryption p \<noteq> None)))"
proof -
  let ?m0 = "manifest_new b r at pr si pl"
  have d: "distinct (map py_path (mf_payloads ?m0))" by (simp add: manifest_new_def)
  have m: "distinct (map py_path ps)"
    "m = ?m0\<lparr>mf_format_version := (if \<exists>p\<in>set ps. py_encryption p \<noteq> None
               then ENCRYPTED_FORMAT_VERSION else CURRENT_FORMAT_VERSION), mf_payloads := ps\<rparr>"
    using built unfolding add_payloads_ok [OF d] by (simp_all add: manifest_new_def extend_manifest_def extend_version_def)
  have "header_valid m = header_valid ?m0" "mf_verification_state m = Pending" "mf_sealed_at m = None" "mf_signature m = None"
    by (simp_all add: m(2) header_valid_def manifest_new_def)
  then have "validate_for_verification b64 m = Inr () \<longleftrightarrow> validate_common b64 m = Inr ()"
    by (simp add: validate_for_verification_ok)
  with \<open>header_valid m = header_valid ?m0\<close> show ?thesis
    using m(1) by (auto simp: validate_common_ok m(2))
qed

theorem assembled_manifest_accepted_witness:
  "let m0 = manifest_new ''b1'' ''r1'' ''2024-01-02T03:04:04Z''
         \<lparr>pr_name = ''guardian'', pr_version = ''1'', pr_platform = ''linux''\<rparr>
         \<lparr>si_profile_id = ''p1'', si_host_key_fingerprint = ''SHA256:00''\<rparr>
         \<lparr>pl_plan_id = ''plan'', pl_version = 1, pl_sha256 = replicate 64 CHR ''0''\<rparr>;
       plain = \<lparr>py_logical_role = ''filesystem'', py_path = ''payload/fs.tar.zst'', py_byte_length = 10,
         py_sha256 = replicate 64 CHR ''a'', py_media_type = ''application/zstd'', py_encryption = None\<rparr>;
       secret = \<lparr>py_logical_role = ''database'', py_path = ''payload/db.enc'', py_byte_length = 10,
         py_sha256 = replicate 64 CHR ''a'', py_media_type = ''application/json'', py_encryption =
           Some \<lparr>pe_envelope_version = 1, pe_algorithm = ''AES-256-GCM-CHUNKED'', pe_credential_id = ''c'',
             pe_nonce_base64 = '''', pe_recovery_wrapped_key_base64 = None\<rparr>\<rparr>
   in \<exists>m. add_payloads m0 [plain, secret] = Inr m \<and> validate_for_verification (\<lambda>_. Some []) m \<noteq> Inr ()"
proof -
  let ?plain = "\<lparr>py_logical_role = ''filesystem'', py_path = ''payload/fs.tar.zst'', py_byte_length = 10,
         py_sha256 = replicate 64 CHR ''a'', py_media_type = ''application/zstd'', py_encryption = None\<rparr>"
  let ?secret = "\<lparr>py_logical_role = ''database'', py_path = ''payload/db.enc'', py_byte_length = 10,
         py_sha256 = replicate 64 CHR ''a'', py_media_type = ''application/json'', py_encryption =
           Some \<lparr>pe_envelope_version = 1, pe_algorithm = ''AES-256-GCM-CHUNKED'', pe_credential_id = ''c'',
             pe_nonce_base64 = '''', pe_recovery_wrapped_key_base64 = None\<rparr>\<rparr>"
  let ?m0 = "manifest_new ''b1'' ''r1'' ''2024-01-02T03:04:04Z''
         \<lparr>pr_name = ''guardian'', pr_version = ''1'', pr_platform = ''linux''\<rparr>
         \<lparr>si_profile_id = ''p1'', si_host_key_fingerprint = ''SHA256:00''\<rparr>
         \<lparr>pl_plan_id = ''plan'', pl_version = 1, pl_sha256 = replicate 64 CHR ''0''\<rparr>"
  have d: "distinct (map py_path (mf_payloads ?m0))" by (simp add: manifest_new_def)
  obtain m where m: "add_payloads ?m0 [?plain, ?secret] = Inr m"
    unfolding add_payloads_ok [OF d] by (simp add: manifest_new_def)
  have "validate_for_verification (\<lambda>_. Some []) m \<noteq> Inr ()"
    using assembled_manifest_accepted [OF m, of "\<lambda>_. Some []"] by auto
  with m show ?thesis unfolding Let_def by blast
qed

text \<open>C8: encryption metadata round-trips and fixes its sizes: with a base64 codec that decodes what
  it encodes, metadata built for a 12-byte nonce returns that nonce, a recovery-wrapped key is
  accepted exactly when it is 95 bytes long, and is then returned unchanged.\<close>

theorem payload_encryption_roundtrip:
  assumes codec: "\<And>bs. b64 (enc bs) = Some bs"
    and new: "payload_encryption_new enc b64 v alg cred nonce = Inr pe"
  shows "payload_nonce b64 pe = Inr nonce \<and> length nonce = 12 \<and> v = 1 \<and> alg = ''AES-256-GCM-CHUNKED''
    \<and> recovery_wrapped_key b64 pe = Inr None
    \<and> (is_ok (with_recovery_wrapped_key enc b64 pe wrapped) \<longleftrightarrow> length wrapped = 95)
    \<and> (\<forall>pe'. with_recovery_wrapped_key enc b64 pe wrapped = Inr pe' \<longrightarrow>
         recovery_wrapped_key b64 pe' = Inr (Some wrapped) \<and> payload_nonce b64 pe' = Inr nonce)"
proof -
  have pe: "pe = \<lparr>pe_envelope_version = v, pe_algorithm = alg, pe_credential_id = cred,
      pe_nonce_base64 = enc nonce, pe_recovery_wrapped_key_base64 = None\<rparr>"
    and ok: "payload_encryption_validate b64 pe = Inr ()"
    using new by (auto simp: payload_encryption_new_def Let_def)
  then have n: "length nonce = 12" "v = 1" "alg = ''AES-256-GCM-CHUNKED''"
    by (auto simp: payload_encryption_validate_def payload_nonce_def codec)
  then show ?thesis
    by (auto simp: pe payload_nonce_def recovery_wrapped_key_def with_recovery_wrapped_key_def Let_def
        payload_encryption_validate_def codec is_ok_iff WRAPPED_PAYLOAD_KEY_ENVELOPE_BYTES_def)
qed

theorem payload_encryption_roundtrip_witness:
  "let enc = map (\<lambda>b :: byte. char_of (unat b) :: char); b64 = (\<lambda>s. Some (bytes_of s)); nonce = replicate 12 (7 :: byte)
   in \<exists>pe. payload_encryption_new enc b64 1 ''AES-256-GCM-CHUNKED'' ''c1'' nonce = Inr pe \<and>
        payload_nonce b64 pe = Inr nonce \<and> \<not> is_ok (with_recovery_wrapped_key enc b64 pe [1, 2, 3])"
proof -
  let ?enc = "map (\<lambda>b :: byte. char_of (unat b) :: char)"
  let ?b64 = "\<lambda>s. Some (bytes_of s)"
  have c: "?b64 (?enc bs) = Some bs" for bs
    by (simp add: bytes_of_def code_def comp_def unat_byte_less)
  obtain pe where pe: "payload_encryption_new ?enc ?b64 1 ''AES-256-GCM-CHUNKED'' ''c1'' (replicate 12 7) = Inr pe"
    by (simp add: payload_encryption_new_def payload_encryption_validate_def payload_nonce_def
        recovery_wrapped_key_def ok_if_def ok_or_def bytes_of_def)
  show ?thesis
    using pe payload_encryption_roundtrip [OF c pe, of "[1, 2, 3]"] by (auto simp: Let_def)
qed

text \<open>Payload selection for restore and deployment: it succeeds exactly when one entry is the
  zstd archive and at most one has the database role, and then returns the path of that archive
  and the path of that database entry, if there is one.\<close>

theorem select_payloads_spec:
  "select_payloads m = Inr (fs, db) \<longleftrightarrow>
     (\<exists>e. filter (\<lambda>p. py_media_type p = ''application/zstd'') (mf_payloads m) = [e] \<and> fs = py_path e) \<and>
     (case db of
        None \<Rightarrow> \<not> (\<exists>p\<in>set (mf_payloads m). py_logical_role p = ''database'')
      | Some d \<Rightarrow> \<exists>e. filter (\<lambda>p. py_logical_role p = ''database'') (mf_payloads m) = [e] \<and> d = py_path e)"
proof -
  let ?fs = "filter (\<lambda>p. py_media_type p = ''application/zstd'') (mf_payloads m)"
  let ?db = "filter (\<lambda>p. py_logical_role p = ''database'') (mf_payloads m)"
  have one: "length xs = 1 \<longleftrightarrow> (\<exists>e. xs = [e])" for xs :: "payload_entry list"
    by (cases xs) auto
  have two: "\<not> 1 < length xs \<longleftrightarrow> xs = [] \<or> (\<exists>e. xs = [e])" for xs :: "payload_entry list"
    by (cases xs) auto
  have none: "?db = [] \<longleftrightarrow> \<not> (\<exists>p\<in>set (mf_payloads m). py_logical_role p = ''database'')"
    by (simp add: filter_empty_conv)
  have "select_payloads m = Inr (fs, db) \<longleftrightarrow> length ?fs = 1 \<and> \<not> 1 < length ?db \<and>
      fs = hd (map py_path ?fs) \<and> db = (if ?db = [] then None else Some (last (map py_path ?db)))"
    by (auto simp: select_payloads_def Let_def)
  also have "\<dots> \<longleftrightarrow> (\<exists>e. ?fs = [e] \<and> fs = py_path e) \<and>
      (?db = [] \<and> db = None \<or> (\<exists>e. ?db = [e] \<and> db = Some (py_path e)))"
    unfolding one two by (cases ?db) auto
  finally show ?thesis unfolding none by (cases db) auto
qed

end
