(* ===== verification/Plans.thy ===== *)
theory Plans
  imports Manifest
begin

text \<open>
  \<^verbatim>\<open>crates/guardian-core/src/{plan,restore,deploy,replace}.rs\<close>: the capture plan and the three plans
  that act on a sealed backup (restore to a new local directory, deploy to a server, replace the
  source in place), each with the exact confirmation phrase a user must type. What the local file
  system answers about a destination is a parameter, as are SHA-256 and JSON.
\<close>

section \<open>Definitions\<close>

subsection \<open>Capture plans\<close>

record filesystem_capture_plan =
  fc_plan_id :: plan_id
  fc_version :: u32
  fc_profile_id :: profile_id
  fc_repository_id :: repository_id
  fc_roots :: "string list"
  fc_database_path :: "string option"

datatype capture_plan_error = CapturePlanInvalid | CapturePlanSerialization

definition valid_remote_root :: "string \<Rightarrow> bool" where
  "valid_remote_root root \<longleftrightarrow>
     root = ''/'' \<or>
     (prefix [slash] root \<and> length root \<le> 1024 \<and>
      \<not> contains_any [nul, newline, carriage_return, backslash] root \<and>
      list_all (\<lambda>part. part \<notin> {'''', ''.'', ''..''}) (drop 1 (split_on slash root)))"

definition filesystem_capture_plan_validate :: "filesystem_capture_plan \<Rightarrow> capture_plan_error + unit" where
  "filesystem_capture_plan_validate self =
     (let roots_valid = fc_roots self \<noteq> [] \<and> length (fc_roots self) \<le> 32
            \<and> list_all valid_remote_root (fc_roots self);
          database_path_valid = (case fc_database_path self of
            None \<Rightarrow> True | Some path \<Rightarrow> path \<noteq> ''/'' \<and> valid_remote_root path)
      in ok_if (fc_version self > 0 \<and> roots_valid \<and> database_path_valid) () CapturePlanInvalid)"

definition canonical_sha256 ::
  "(filesystem_capture_plan \<Rightarrow> byte list option) \<Rightarrow> hash_function \<Rightarrow> filesystem_capture_plan \<Rightarrow>
   capture_plan_error + string" where
  "canonical_sha256 to_json sha256 self =
     and_then (filesystem_capture_plan_validate self) (\<lambda>_.
     and_then (ok_or (to_json self) CapturePlanSerialization) (\<lambda>bytes.
     Inr (hex (sha256 bytes))))"

subsection \<open>Restore plans\<close>

datatype restore_mode = NewDestination

record restore_impact_preview =
  ri_backup_id :: backup_id
  ri_destination :: string
  ri_mode :: restore_mode
  ri_adds :: "string list"
  ri_replaces :: "string list"
  ri_conflicts :: "string list"
  ri_workload_labels :: "string list"
  ri_confirmation :: string

record restore_plan =
  rt_backup_id :: backup_id
  rt_destination :: string
  rt_filesystem_payload :: payload_path
  rt_database_payload :: "payload_path option"
  rt_confirmation :: string
  rt_impact :: restore_impact_preview

datatype restore_plan_error =
    RestoreManifest manifest_error | UnsafeDestination | RestoreNoFilesystemPayload
  | RestoreAmbiguousDatabasePayload | RestoreConfirmationRequired | ConflictsPresent

text \<open>What \<open>symlink_metadata\<close> answers: the entry exists, the error \<open>NotFound\<close>, or another error.\<close>

datatype stat_result = StatOk | StatNotFound | StatError

definition destination_occupied :: "(string \<Rightarrow> stat_result) \<Rightarrow> string \<Rightarrow> bool" where
  "destination_occupied stat path =
     (case stat path of StatOk \<Rightarrow> True | StatNotFound \<Rightarrow> False | StatError \<Rightarrow> True)"

definition restore_selection_error :: "payload_selection_error \<Rightarrow> restore_plan_error" where
  "restore_selection_error e =
     (case e of NoFilesystemPayload \<Rightarrow> RestoreNoFilesystemPayload
      | AmbiguousDatabasePayload \<Rightarrow> RestoreAmbiguousDatabasePayload)"

text \<open>\<open>Path::is_absolute\<close> and \<open>Path::join\<close> with a relative name, on Unix.\<close>

definition path_join :: "string \<Rightarrow> string \<Rightarrow> string" where
  "path_join base name = (if suffix [slash] base then base @ name else base @ [slash] @ name)"

definition restore_plan_build ::
  "b64_decoder \<Rightarrow> (string \<Rightarrow> stat_result) \<Rightarrow> manifest \<Rightarrow> string \<Rightarrow> restore_plan_error + restore_plan" where
  "restore_plan_build b64 stat manifest destination =
     and_then (map_err RestoreManifest (validate_sealed b64 manifest)) (\<lambda>_.
     if \<not> prefix [slash] destination then Inl UnsafeDestination
     else
       and_then (map_err restore_selection_error (select_payloads manifest)) (\<lambda>(filesystem_payload, database_payload).
       let confirmation = ''RESTORE '' @ mf_backup_id manifest @ '' TO '' @ destination;
           adds = [destination] @ (if database_payload \<noteq> None then [path_join destination ''database.sqlite''] else []);
           workload_labels = [''filesystem''] @ (if database_payload \<noteq> None then [''sqlite''] else []);
           conflicts = (if destination_occupied stat destination then [destination] else []);
           impact = \<lparr>ri_backup_id = mf_backup_id manifest, ri_destination = destination,
             ri_mode = NewDestination, ri_adds = adds, ri_replaces = [], ri_conflicts = conflicts,
             ri_workload_labels = workload_labels, ri_confirmation = confirmation\<rparr>
       in Inr \<lparr>rt_backup_id = mf_backup_id manifest, rt_destination = destination,
            rt_filesystem_payload = filesystem_payload, rt_database_payload = database_payload,
            rt_confirmation = confirmation, rt_impact = impact\<rparr>))"

definition restore_plan_approve :: "restore_plan \<Rightarrow> string \<Rightarrow> restore_plan_error + unit" where
  "restore_plan_approve self confirmation =
     (if confirmation \<noteq> rt_confirmation self then Inl RestoreConfirmationRequired
      else if ri_conflicts (rt_impact self) \<noteq> [] then Inl ConflictsPresent
      else Inr ())"

definition destination_is_new :: "(string \<Rightarrow> stat_result) \<Rightarrow> restore_plan \<Rightarrow> bool" where
  "destination_is_new stat self \<longleftrightarrow> \<not> destination_occupied stat (rt_destination self)"

subsection \<open>Deployment plans\<close>

record deployment_plan =
  dp_backup_id :: backup_id
  dp_target_profile_id :: profile_id
  dp_target_path :: remote_target_path
  dp_filesystem_payload :: payload_path
  dp_database_payload :: "payload_path option"
  dp_confirmation :: string

datatype deployment_plan_error =
    DeployManifest manifest_error | InvalidTargetProfile | DeployNoFilesystemPayload
  | DeployAmbiguousDatabasePayload | DeployConfirmationRequired

definition deploy_selection_error :: "payload_selection_error \<Rightarrow> deployment_plan_error" where
  "deploy_selection_error e =
     (case e of NoFilesystemPayload \<Rightarrow> DeployNoFilesystemPayload
      | AmbiguousDatabasePayload \<Rightarrow> DeployAmbiguousDatabasePayload)"

definition deployment_plan_build ::
  "b64_decoder \<Rightarrow> manifest \<Rightarrow> vds_profile \<Rightarrow> remote_target_path \<Rightarrow> deployment_plan_error + deployment_plan" where
  "deployment_plan_build b64 manifest target_profile target_path =
     and_then (map_err DeployManifest (validate_sealed b64 manifest)) (\<lambda>_.
     and_then (map_err (\<lambda>_. InvalidTargetProfile) (vds_profile_validate b64 target_profile)) (\<lambda>_.
     and_then (map_err deploy_selection_error (select_payloads manifest)) (\<lambda>(filesystem_payload, database_payload).
     let confirmation = ''DEPLOY '' @ mf_backup_id manifest @ '' TO '' @ vp_profile_id target_profile
           @ '':'' @ target_path
     in Inr \<lparr>dp_backup_id = mf_backup_id manifest, dp_target_profile_id = vp_profile_id target_profile,
          dp_target_path = target_path, dp_filesystem_payload = filesystem_payload,
          dp_database_payload = database_payload, dp_confirmation = confirmation\<rparr>)))"

definition deployment_plan_approve :: "deployment_plan \<Rightarrow> string \<Rightarrow> deployment_plan_error + unit" where
  "deployment_plan_approve self confirmation =
     ok_if (confirmation = dp_confirmation self) () DeployConfirmationRequired"

subsection \<open>Source replacement plans\<close>

record source_replacement_impact =
  sr_backup_id :: backup_id
  sr_target_profile_id :: profile_id
  sr_root :: remote_path
  sr_containers :: "string list"
  sr_replaces :: "remote_path list"
  sr_conflicts :: "string list"
  sr_safety_backup_required :: bool
  sr_service_stop_required :: bool
  sr_confirmation :: string

record source_replacement_plan =
  sp_impact :: source_replacement_impact
  sp_filesystem_payload :: payload_path
  sp_docker_workloads :: "docker_workload_snapshot list"

datatype source_replacement_plan_error =
    ReplaceManifest manifest_error | MissingLayout | TargetMismatch | MultipleRoots | UnsafeRoot
  | DatabaseRequiresAdapter | ReplaceNoFilesystemPayload | ReplaceAmbiguousDatabasePayload
  | ReplaceConfirmationRequired | LiveConflicts

definition replace_selection_error :: "payload_selection_error \<Rightarrow> source_replacement_plan_error" where
  "replace_selection_error e =
     (case e of NoFilesystemPayload \<Rightarrow> ReplaceNoFilesystemPayload
      | AmbiguousDatabasePayload \<Rightarrow> ReplaceAmbiguousDatabasePayload)"

definition was_active :: "docker_container_state \<Rightarrow> bool" where
  "was_active state \<longleftrightarrow> state \<in> {Running, Paused, Restarting}"

definition protected_root :: "string \<Rightarrow> bool" where
  "protected_root value \<longleftrightarrow>
     value \<in> {''/'', ''/bin'', ''/boot'', ''/dev'', ''/etc'', ''/lib'', ''/lib64'', ''/proc'', ''/run'',
       ''/sbin'', ''/sys'', ''/usr''}"

definition mount_matches :: "docker_mount_snapshot \<Rightarrow> docker_container \<Rightarrow> bool" where
  "mount_matches expected current \<longleftrightarrow>
     list_ex (\<lambda>mount. dm_destination mount = ms_destination expected
       \<and> capturable_path mount = Some (ms_source_path expected)
       \<and> dm_read_only mount = ms_read_only expected) (dc_mounts current)"

definition compare_workload :: "docker_workload_snapshot \<Rightarrow> docker_container \<Rightarrow> string list \<Rightarrow> string list" where
  "compare_workload expected current conflicts =
     conflicts
     @ (if dc_name current \<noteq> ws_container_name expected
        then [''container_name_changed:'' @ ws_container_name expected] else [])
     @ (if dc_image current \<noteq> ws_image expected \<or> dc_image_digest current \<noteq> ws_image_digest expected
        then [''container_image_changed:'' @ ws_container_name expected] else [])
     @ (if dc_compose_project current \<noteq> ws_compose_project expected
        then [''container_compose_changed:'' @ ws_container_name expected] else [])
     @ (if list_ex (\<lambda>mount. \<not> mount_matches mount current) (ws_mounts expected)
        then [''container_mount_changed:'' @ ws_container_name expected] else [])"

definition source_replacement_plan_build ::
  "b64_decoder \<Rightarrow> hash_function \<Rightarrow> manifest \<Rightarrow> vds_profile \<Rightarrow>
   source_replacement_plan_error + source_replacement_plan" where
  "source_replacement_plan_build b64 sha256 manifest target =
     and_then (map_err ReplaceManifest (validate_sealed b64 manifest)) (\<lambda>_.
     and_then (map_err (\<lambda>_. TargetMismatch) (vds_profile_validate b64 target)) (\<lambda>_.
     if si_profile_id (mf_source manifest) \<noteq> vp_profile_id target
        \<or> si_host_key_fingerprint (mf_source manifest)
            \<noteq> host_key_fingerprint sha256 (pin_public_key_base64 (ep_host_pin (vp_endpoint target)))
     then Inl TargetMismatch
     else
       and_then (ok_or (mf_source_layout manifest) MissingLayout) (\<lambda>layout.
       if length (sl_roots layout) \<noteq> 1 then Inl MultipleRoots
       else
         and_then (map_err replace_selection_error (select_payloads manifest)) (\<lambda>(filesystem_payload, database_payload).
         if database_payload \<noteq> None then Inl DatabaseRequiresAdapter
         else
           let root = sl_roots layout ! 0
           in if protected_root root then Inl UnsafeRoot
              else
                let containers = map ws_container_name
                      (filter (\<lambda>workload. was_active (ws_state workload)) (sl_docker_workloads layout));
                    confirmation = ''REPLACE '' @ mf_backup_id manifest @ '' ON '' @ vp_profile_id target
                      @ '' AT '' @ root
                in Inr \<lparr>sp_impact = \<lparr>sr_backup_id = mf_backup_id manifest,
                       sr_target_profile_id = vp_profile_id target, sr_root = root,
                       sr_containers = containers, sr_replaces = [root], sr_conflicts = [],
                       sr_safety_backup_required = True, sr_service_stop_required = (containers \<noteq> []),
                       sr_confirmation = confirmation\<rparr>,
                     sp_filesystem_payload = filesystem_payload,
                     sp_docker_workloads = sl_docker_workloads layout\<rparr>))))"

fun reconcile_loop ::
  "docker_inventory \<Rightarrow> docker_workload_snapshot list \<Rightarrow> source_replacement_impact \<Rightarrow> source_replacement_impact" where
  "reconcile_loop inventory [] impact = impact"
| "reconcile_loop inventory (expected # rest) impact =
     (case find (\<lambda>item. dc_id item = ws_container_id expected) (di_containers inventory) of
        None \<Rightarrow>
          reconcile_loop inventory rest
            (impact\<lparr>sr_conflicts := sr_conflicts impact @ [''container_missing:'' @ ws_container_name expected]\<rparr>)
      | Some current \<Rightarrow>
          let impact = impact\<lparr>sr_conflicts := compare_workload expected current (sr_conflicts impact)\<rparr>;
              impact = (if was_active (dc_state current)
                then impact\<lparr>sr_containers := sr_containers impact @ [dc_name current]\<rparr> else impact)
          in reconcile_loop inventory rest impact)"

definition reconcile_workloads ::
  "docker_inventory option \<Rightarrow> source_replacement_plan \<Rightarrow> source_replacement_plan" where
  "reconcile_workloads inventory self =
     (let impact = (sp_impact self)\<lparr>sr_containers := [], sr_conflicts := []\<rparr>
      in if sp_docker_workloads self = [] then self\<lparr>sp_impact := impact\<lparr>sr_service_stop_required := False\<rparr>\<rparr>
         else case inventory of
           None \<Rightarrow> self\<lparr>sp_impact := impact\<lparr>sr_conflicts := [''docker_inventory_unavailable'']\<rparr>\<rparr>
         | Some inventory \<Rightarrow>
             let impact = reconcile_loop inventory (sp_docker_workloads self) impact;
                 containers = remdups_adj (sort (sr_containers impact))
             in self\<lparr>sp_impact := impact\<lparr>sr_containers := containers,
                                          sr_service_stop_required := (containers \<noteq> [])\<rparr>\<rparr>)"

definition refresh_confirmation :: "hash_function \<Rightarrow> source_replacement_plan \<Rightarrow> source_replacement_plan" where
  "refresh_confirmation sha256 self =
     (let impact = sp_impact self;
          state = bytes_of (sr_root impact @ concat (sr_containers impact) @ concat (sr_conflicts impact));
          token = hex (sha256 state)
      in self\<lparr>sp_impact := impact\<lparr>sr_confirmation :=
           ''REPLACE '' @ sr_backup_id impact @ '' ON '' @ sr_target_profile_id impact @ '' AT '' @ sr_root impact
             @ '' STATE '' @ take 12 token\<rparr>\<rparr>)"

definition reconcile_current ::
  "hash_function \<Rightarrow> docker_inventory option \<Rightarrow> source_replacement_plan \<Rightarrow> source_replacement_plan" where
  "reconcile_current sha256 inventory self = refresh_confirmation sha256 (reconcile_workloads inventory self)"

definition reconcile_source_ready :: "hash_function \<Rightarrow> bool \<Rightarrow> source_replacement_plan \<Rightarrow> source_replacement_plan" where
  "reconcile_source_ready sha256 ready self =
     refresh_confirmation sha256
       (if \<not> ready
        then self\<lparr>sp_impact := (sp_impact self)\<lparr>sr_conflicts := sr_conflicts (sp_impact self)
               @ [''source_root_unavailable:'' @ sr_root (sp_impact self)]\<rparr>\<rparr>
        else self)"

definition source_replacement_plan_approve ::
  "source_replacement_plan \<Rightarrow> string \<Rightarrow> source_replacement_plan_error + unit" where
  "source_replacement_plan_approve self confirmation =
     (if sr_conflicts (sp_impact self) \<noteq> [] then Inl LiveConflicts
      else ok_if (confirmation = sr_confirmation (sp_impact self)) () ReplaceConfirmationRequired)"

subsection \<open>Reference semantics\<close>

text \<open>A recorded workload is unchanged when its container is present with the recorded identity and
  every recorded mount.\<close>

definition current_container :: "docker_inventory \<Rightarrow> docker_workload_snapshot \<Rightarrow> docker_container option" where
  "current_container i w = find (\<lambda>c. dc_id c = ws_container_id w) (di_containers i)"

definition workload_unchanged :: "docker_inventory \<Rightarrow> docker_workload_snapshot \<Rightarrow> bool" where
  "workload_unchanged i w \<longleftrightarrow>
     (case current_container i w of
        None \<Rightarrow> False
      | Some c \<Rightarrow> dc_name c = ws_container_name w \<and> dc_image c = ws_image w \<and>
          dc_image_digest c = ws_image_digest w \<and> dc_compose_project c = ws_compose_project w \<and>
          (\<forall>m\<in>set (ws_mounts w). mount_matches m c))"

definition active_names :: "docker_inventory \<Rightarrow> docker_workload_snapshot list \<Rightarrow> string list" where
  "active_names i ws =
     map dc_name (filter (\<lambda>c. was_active (dc_state c)) (List.map_filter (current_container i) ws))"

section \<open>Lemmas\<close>

lemma valid_remote_root_parse: "valid_remote_root r \<longleftrightarrow> remote_path_parse r = Inr r"
  by (auto simp: valid_remote_root_def remote_path_parse_def absolute_lexical_def)

lemma compare_workload_conflicts:
  "compare_workload w c conflicts = [] \<longleftrightarrow>
     conflicts = [] \<and> dc_name c = ws_container_name w \<and> dc_image c = ws_image w \<and>
     dc_image_digest c = ws_image_digest w \<and> dc_compose_project c = ws_compose_project w \<and>
     (\<forall>m\<in>set (ws_mounts w). mount_matches m c)"
  by (auto simp: compare_workload_def list_ex_iff)

lemma reconcile_loop_conflicts:
  "sr_conflicts (reconcile_loop i ws impact) = [] \<longleftrightarrow>
     sr_conflicts impact = [] \<and> (\<forall>w\<in>set ws. workload_unchanged i w)"
proof (induction i ws impact rule: reconcile_loop.induct)
  case (2 i w ws impact)
  then show ?case
    by (cases "current_container i w")
      (auto simp: workload_unchanged_def current_container_def compare_workload_conflicts Let_def)
qed simp

lemma reconcile_loop_containers:
  "sr_containers (reconcile_loop i ws impact) = sr_containers impact @ active_names i ws"
proof (induction i ws impact rule: reconcile_loop.induct)
  case (1 i impact)
  then show ?case by (simp add: active_names_def List.map_filter_simps)
next
  case (2 i w ws impact)
  then show ?case
    by (cases "current_container i w")
      (auto simp: active_names_def current_container_def List.map_filter_simps Let_def)
qed

lemma reconcile_loop_fixed:
  "sr_backup_id (reconcile_loop i ws impact) = sr_backup_id impact \<and>
   sr_target_profile_id (reconcile_loop i ws impact) = sr_target_profile_id impact \<and>
   sr_root (reconcile_loop i ws impact) = sr_root impact"
proof (induction i ws impact rule: reconcile_loop.induct)
  case (2 i w ws impact)
  then show ?case
    by (cases "current_container i w") (auto simp: current_container_def Let_def)
qed simp

lemma refresh_confirmation_keeps [simp]:
  "sr_conflicts (sp_impact (refresh_confirmation sha256 p)) = sr_conflicts (sp_impact p)"
  "sr_containers (sp_impact (refresh_confirmation sha256 p)) = sr_containers (sp_impact p)"
  "sr_service_stop_required (sp_impact (refresh_confirmation sha256 p)) = sr_service_stop_required (sp_impact p)"
  by (simp_all add: refresh_confirmation_def Let_def)

lemma identifier_no_space: "parse_identifier v kind = Inr v \<Longrightarrow> CHR '' '' \<notin> set v \<and> CHR '':'' \<notin> set v"
  using identifier_no_byte by auto

lemma phrase_inject:
  assumes "parse_identifier b1 k1 = Inr b1" "parse_identifier b2 k2 = Inr b2"
  shows "b1 @ CHR '' '' # x = b2 @ CHR '' '' # y \<longleftrightarrow> b1 = b2 \<and> x = y"
  using assms identifier_no_space by (intro split_at_first) auto

lemma deployment_plan_build_ok:
  "deployment_plan_build b64 m p t = Inr plan \<Longrightarrow>
     dp_backup_id plan = mf_backup_id m \<and> dp_target_profile_id plan = vp_profile_id p \<and> dp_target_path plan = t \<and>
     dp_confirmation plan = ''DEPLOY '' @ mf_backup_id m @ '' TO '' @ vp_profile_id p @ '':'' @ t \<and>
     validate_sealed b64 m = Inr () \<and> vds_profile_validate b64 p = Inr () \<and>
     select_payloads m = Inr (dp_filesystem_payload plan, dp_database_payload plan)"
  by (auto simp: deployment_plan_build_def Let_def split: prod.splits)

lemma restore_plan_build_ok:
  "restore_plan_build b64 stat m dest = Inr plan \<Longrightarrow>
     rt_backup_id plan = mf_backup_id m \<and> rt_destination plan = dest \<and>
     rt_confirmation plan = ''RESTORE '' @ mf_backup_id m @ '' TO '' @ dest \<and>
     ri_replaces (rt_impact plan) = [] \<and> prefix [slash] dest \<and> validate_sealed b64 m = Inr () \<and>
     ri_conflicts (rt_impact plan) = (if destination_occupied stat dest then [dest] else [])"
  by (auto simp: restore_plan_build_def Let_def split: prod.splits if_splits)

subsection \<open>A concrete sealed backup\<close>

definition sample_manifest :: manifest where
  "sample_manifest = (manifest_new ''b1'' ''r1'' ''2024-01-02T03:04:04Z''
     \<lparr>pr_name = ''guardian'', pr_version = ''1'', pr_platform = ''linux''\<rparr>
     \<lparr>si_profile_id = ''p1'', si_host_key_fingerprint = ''SHA256:00''\<rparr>
     \<lparr>pl_plan_id = ''plan'', pl_version = 1, pl_sha256 = replicate 64 CHR ''0''\<rparr>)
     \<lparr>mf_payloads := [\<lparr>py_logical_role = ''filesystem'', py_path = ''payload/fs.tar.zst'', py_byte_length = 10,
        py_sha256 = replicate 64 CHR ''a'', py_media_type = ''application/zstd'', py_encryption = None\<rparr>],
      mf_sealed_at := Some ''2024-01-02T03:04:05Z'', mf_verification_state := Verified,
      mf_signature := Some \<lparr>sm_algorithm = ''ed25519'', sm_key_id = ''key-1''\<rparr>\<rparr>"

lemma sample_sealed: "validate_sealed b64 sample_manifest = Inr ()"
proof -
  have "validate_label ''guardian'' = Inr ()" "validate_label ''1'' = Inr ()" "validate_label ''linux'' = Inr ()"
    "validate_label ''SHA256:00'' = Inr ()" "is_sha256 (replicate 64 CHR ''0'')" "is_sha256 (replicate 64 CHR ''a'')"
    "validate_label ''filesystem'' = Inr ()" "validate_label ''application/zstd'' = Inr ()"
    "validate_label ''ed25519'' = Inr ()" "validate_label ''key-1'' = Inr ()"
    by code_simp+
  note labels = this
  then have "validate_common b64 sample_manifest = Inr ()"
    unfolding validate_common_ok
    by (simp add: sample_manifest_def manifest_new_def header_valid_def payload_entry_validate_def ok_if_def)
  then show ?thesis
    using labels by (simp add: validate_sealed_def) (simp add: sample_manifest_def ok_or_def)
qed

lemma sample_selection: "select_payloads sample_manifest = Inr (''payload/fs.tar.zst'', None)"
  by code_simp

section \<open>Properties\<close>

text \<open>C17: a deployment confirmation approves one deployment only: the phrase shown for a plan approves
  another plan exactly when both name the same backup, the same target server and the same path.\<close>

theorem deploy_confirmation_binds:
  assumes "deployment_plan_build b64 m1 p1 t1 = Inr plan1" "deployment_plan_build b64 m2 p2 t2 = Inr plan2"
    and "backup_id_parse (mf_backup_id m1) = Inr (mf_backup_id m1)" "backup_id_parse (mf_backup_id m2) = Inr (mf_backup_id m2)"
    and "profile_id_parse (vp_profile_id p1) = Inr (vp_profile_id p1)" "profile_id_parse (vp_profile_id p2) = Inr (vp_profile_id p2)"
  shows "deployment_plan_approve plan2 (dp_confirmation plan1) = Inr () \<longleftrightarrow>
    mf_backup_id m1 = mf_backup_id m2 \<and> vp_profile_id p1 = vp_profile_id p2 \<and> t1 = t2"
proof -
  have b: "mf_backup_id m1 @ CHR '' '' # x = mf_backup_id m2 @ CHR '' '' # y \<longleftrightarrow> mf_backup_id m1 = mf_backup_id m2 \<and> x = y" for x y
    using assms(3,4) unfolding backup_id_parse_def by (rule phrase_inject)
  have p: "vp_profile_id p1 @ CHR '':'' # x = vp_profile_id p2 @ CHR '':'' # y \<longleftrightarrow> vp_profile_id p1 = vp_profile_id p2 \<and> x = y" for x y
    using assms(5,6) identifier_no_space unfolding profile_id_parse_def by (intro split_at_first) auto
  show ?thesis
    using deployment_plan_build_ok [OF assms(1)] deployment_plan_build_ok [OF assms(2)]
    by (simp add: deployment_plan_approve_def b p)
qed

theorem deploy_confirmation_binds_witness:
  "\<exists>plan1 plan2. deployment_plan_build sample_b64 sample_manifest (sample_profile ''p1'') ''/srv/a'' = Inr plan1 \<and>
     deployment_plan_build sample_b64 sample_manifest (sample_profile ''p1'') ''/srv/b'' = Inr plan2 \<and>
     deployment_plan_approve plan2 (dp_confirmation plan1) \<noteq> Inr ()"
proof -
  have built: "\<exists>plan. deployment_plan_build sample_b64 sample_manifest (sample_profile ''p1'') t = Inr plan" for t
    using sample_sealed sample_profile_valid sample_selection by (simp add: deployment_plan_build_def)
  obtain plan1 plan2 where p: "deployment_plan_build sample_b64 sample_manifest (sample_profile ''p1'') ''/srv/a'' = Inr plan1"
    "deployment_plan_build sample_b64 sample_manifest (sample_profile ''p1'') ''/srv/b'' = Inr plan2"
    using built by blast
  have ids: "backup_id_parse (mf_backup_id sample_manifest) = Inr (mf_backup_id sample_manifest)"
    "profile_id_parse (vp_profile_id (sample_profile ''p1'')) = Inr (vp_profile_id (sample_profile ''p1''))"
    by code_simp+
  show ?thesis
    using p deploy_confirmation_binds [OF p ids(1) ids(1) ids(2) ids(2)] by auto
qed



text \<open>C19: a restore is approved only into a destination that did not exist: for a plan built from a
  sealed manifest the exact phrase, and no other, is approved, and only when the file system reported
  the absolute destination as absent; nothing is ever replaced.\<close>

theorem restore_approved_only_new:
  assumes built: "restore_plan_build b64 stat m dest = Inr plan"
  shows "(restore_plan_approve plan phrase = Inr () \<longleftrightarrow>
      phrase = ''RESTORE '' @ mf_backup_id m @ '' TO '' @ dest \<and> stat dest = StatNotFound)
    \<and> (destination_is_new stat plan \<longleftrightarrow> stat dest = StatNotFound)
    \<and> ri_replaces (rt_impact plan) = [] \<and> validate_sealed b64 m = Inr ()"
  using restore_plan_build_ok [OF built]
  by (auto simp: restore_plan_approve_def destination_is_new_def destination_occupied_def split: stat_result.splits)

theorem restore_approved_only_new_witness:
  "\<exists>plan. restore_plan_build sample_b64 (\<lambda>_. StatError) sample_manifest ''/restore'' = Inr plan \<and>
     restore_plan_approve plan ''RESTORE b1 TO /restore'' \<noteq> Inr ()"
proof -
  obtain plan where p: "restore_plan_build sample_b64 (\<lambda>_. StatError) sample_manifest ''/restore'' = Inr plan"
    using sample_sealed sample_selection by (simp add: restore_plan_build_def Let_def)
  then show ?thesis using restore_approved_only_new [OF p] by auto
qed


end
