(* ===== verification/Retention_Policy.thy ===== *)
theory Retention_Policy
  imports Identifiers Profiles
begin

text \<open>
  \<^verbatim>\<open>crates/guardian-core/src/retention.rs\<close>: the retention policy and the deterministic deletion
  plan. \<open>usize\<close> values are naturals (every operation on them is saturating or guarded); JSON
  serialization and SHA-256 are parameters.
\<close>

section \<open>Definitions\<close>

record retention_policy =
  max_backups :: nat
  minimum_backups :: nat

datatype retention_policy_error = EmptyRepositoryAllowed | MinimumExceedsMaximum

definition retention_policy_new :: "nat \<Rightarrow> nat \<Rightarrow> retention_policy_error + retention_policy" where
  "retention_policy_new max_n min_n =
     (if max_n = 0 then Inl EmptyRepositoryAllowed
      else if min_n > max_n then Inl MinimumExceedsMaximum
      else Inr \<lparr>max_backups = max_n, minimum_backups = min_n\<rparr>)"

record retention_snapshot_entry =
  rs_backup_id :: backup_id
  rs_sealed_at :: timestamp

record retention_plan =
  rp_plan_id :: plan_id
  rp_repository_id :: repository_id
  rp_policy :: retention_policy
  rp_snapshot :: "retention_snapshot_entry list"
  rp_delete_backup_ids :: "backup_id list"

record plan_digest =
  pd_repository_id :: repository_id
  pd_policy :: retention_policy
  pd_snapshot :: "retention_snapshot_entry list"
  pd_delete_backup_ids :: "backup_id list"

record retention_outcome =
  deleted_backups :: nat
  retained_backups :: nat

datatype retention_plan_error = RetentionIntegrity | RetentionSerialization

definition retained_backup_ids :: "retention_plan \<Rightarrow> backup_id list" where
  "retained_backup_ids self =
     map rs_backup_id (filter (\<lambda>entry. rs_backup_id entry \<notin> set (rp_delete_backup_ids self)) (rp_snapshot self))"

definition retention_confirmation_phrase :: "retention_plan \<Rightarrow> string" where
  "retention_confirmation_phrase self =
     ''DELETE '' @ show_nat (length (rp_delete_backup_ids self)) @ '' BACKUPS '' @ rp_plan_id self"

definition build_retention_plan ::
  "(plan_digest \<Rightarrow> byte list option) \<Rightarrow> hash_function \<Rightarrow> repository_id \<Rightarrow> retention_policy \<Rightarrow>
   retention_snapshot_entry list \<Rightarrow> retention_plan_error + retention_plan" where
  "build_retention_plan to_json sha256 repository_id policy snapshot =
     (let delete_count = length snapshot - max_backups policy
      in if delete_count > 0 \<and> length snapshot - delete_count < minimum_backups policy
         then Inl RetentionIntegrity
         else
           let delete_backup_ids = map rs_backup_id (take delete_count snapshot);
               digest = \<lparr>pd_repository_id = repository_id, pd_policy = policy, pd_snapshot = snapshot,
                 pd_delete_backup_ids = delete_backup_ids\<rparr>
           in and_then (ok_or (to_json digest) RetentionSerialization) (\<lambda>bytes.
              and_then (map_err (\<lambda>_. RetentionSerialization) (plan_id_parse (hex (sha256 bytes)))) (\<lambda>plan_id.
              Inr \<lparr>rp_plan_id = plan_id, rp_repository_id = repository_id, rp_policy = policy,
                   rp_snapshot = snapshot, rp_delete_backup_ids = delete_backup_ids\<rparr>)))"

section \<open>Lemmas\<close>

lemma lower_hex_identifier: "is_lower_hex c \<Longrightarrow> identifier_byte c"
  by (auto simp: is_lower_hex_def identifier_byte_def is_ascii_alphanumeric_def byte_in_def)

lemma hex_identifier: "length bs = 32 \<Longrightarrow> parse_identifier (hex bs) kind = Inr (hex bs)"
  using hex_lower [of bs]
  by (auto simp: parse_identifier_def list_all_iff lower_hex_identifier simp flip: length_greater_0_conv)

lemma retention_policy_new_ok:
  "retention_policy_new a b = Inr p \<longleftrightarrow> 0 < a \<and> b \<le> a \<and> p = \<lparr>max_backups = a, minimum_backups = b\<rparr>"
  by (auto simp: retention_policy_new_def)

lemma build_retention_plan_ok:
  "build_retention_plan to_json sha256 repo policy snapshot = Inr plan \<Longrightarrow>
     rp_snapshot plan = snapshot \<and> rp_policy plan = policy \<and> rp_repository_id plan = repo \<and>
     rp_delete_backup_ids plan = map rs_backup_id (take (length snapshot - max_backups policy) snapshot)"
  by (auto simp: build_retention_plan_def Let_def split: if_splits)

lemma filter_not_in_take:
  assumes "distinct (map f xs)"
  shows "filter (\<lambda>x. f x \<notin> f ` set (take n xs)) xs = drop n xs"
proof -
  have d: "f ` set (take n xs) \<inter> f ` set (drop n xs) = {}"
    using assms by (metis append_take_drop_id distinct_append map_append set_map)
  have "filter (\<lambda>x. f x \<notin> f ` set (take n xs)) (take n xs @ drop n xs) = drop n xs"
    unfolding filter_append using d by (auto simp: filter_id_conv filter_empty_conv)
  then show ?thesis by simp
qed

section \<open>Properties\<close>

text \<open>C14: for every policy the constructor accepts, planning never reports an integrity violation,
  deletes exactly the oldest backups beyond the maximum, retains all others in order, never falls
  below the minimum by its own doing and never empties a repository; on a snapshot sorted by sealing
  time every deleted backup is at most as recent as every retained one.\<close>

theorem retention_plan_deletes_oldest:
  assumes policy: "retention_policy_new max_n min_n = Inr policy"
    and built: "build_retention_plan to_json sha256 repo policy snapshot = Inr plan"
    and ids: "distinct (map rs_backup_id snapshot)"
    and ordered: "sorted (map rs_sealed_at snapshot)"
  shows "rp_delete_backup_ids plan @ retained_backup_ids plan = map rs_backup_id snapshot
    \<and> length (retained_backup_ids plan) = min (length snapshot) max_n
    \<and> min (length snapshot) min_n \<le> length (retained_backup_ids plan)
    \<and> (snapshot \<noteq> [] \<longrightarrow> retained_backup_ids plan \<noteq> [])
    \<and> (\<forall>d\<in>set snapshot. \<forall>r\<in>set snapshot.
         rs_backup_id d \<in> set (rp_delete_backup_ids plan) \<longrightarrow>
         rs_backup_id r \<in> set (retained_backup_ids plan) \<longrightarrow> rs_sealed_at d \<le> rs_sealed_at r)"
proof -
  let ?n = "length snapshot - max_n"
  have p: "policy = \<lparr>max_backups = max_n, minimum_backups = min_n\<rparr>" "0 < max_n" "min_n \<le> max_n"
    using policy by (auto simp: retention_policy_new_ok)
  have del: "rp_delete_backup_ids plan = map rs_backup_id (take ?n snapshot)"
    and ret: "retained_backup_ids plan = map rs_backup_id (drop ?n snapshot)"
    using build_retention_plan_ok [OF built] filter_not_in_take [OF ids]
    by (simp_all add: p retained_backup_ids_def)
  have inj: "x = y" if "x \<in> set snapshot" "y \<in> set snapshot" "rs_backup_id x = rs_backup_id y" for x y
    using ids that by (auto simp: distinct_map dest: inj_onD)
  have "rs_sealed_at d \<le> rs_sealed_at r" if "d \<in> set (take ?n snapshot)" "r \<in> set (drop ?n snapshot)" for d r
    using that ordered sorted_append [of "map rs_sealed_at (take ?n snapshot)" "map rs_sealed_at (drop ?n snapshot)"]
    by (simp flip: map_append)
  moreover have "d \<in> set (take ?n snapshot)" if "d \<in> set snapshot" "rs_backup_id d \<in> set (rp_delete_backup_ids plan)" for d
    using that inj by (auto simp: del dest: in_set_takeD)
  moreover have "r \<in> set (drop ?n snapshot)" if "r \<in> set snapshot" "rs_backup_id r \<in> set (retained_backup_ids plan)" for r
    using that inj by (auto simp: ret dest: in_set_dropD)
  ultimately have order: "\<forall>d\<in>set snapshot. \<forall>r\<in>set snapshot. rs_backup_id d \<in> set (rp_delete_backup_ids plan) \<longrightarrow>
         rs_backup_id r \<in> set (retained_backup_ids plan) \<longrightarrow> rs_sealed_at d \<le> rs_sealed_at r"
    by blast
  have "rp_delete_backup_ids plan @ retained_backup_ids plan = map rs_backup_id snapshot"
    unfolding del ret by (simp flip: map_append)
  moreover have "length (retained_backup_ids plan) = min (length snapshot) max_n"
    unfolding ret by auto
  ultimately show ?thesis using p order by (auto simp flip: length_greater_0_conv)
qed

text \<open>Planning is total and its plan id is always well formed: with a serializer that succeeds and
  a 32-byte digest, every policy of the constructor yields a plan.\<close>

theorem retention_plan_total:
  assumes "retention_policy_new max_n min_n = Inr policy"
    and "\<And>d. to_json d \<noteq> None" "\<And>bs. length (sha256 bs) = 32"
  shows "\<exists>plan. build_retention_plan to_json sha256 repo policy snapshot = Inr plan \<and> length (rp_plan_id plan) = 64"
proof -
  have p: "policy = \<lparr>max_backups = max_n, minimum_backups = min_n\<rparr>" "0 < max_n" "min_n \<le> max_n"
    using assms(1) by (auto simp: retention_policy_new_ok)
  obtain bytes where "to_json \<lparr>pd_repository_id = repo, pd_policy = policy, pd_snapshot = snapshot,
      pd_delete_backup_ids = map rs_backup_id (take (length snapshot - max_backups policy) snapshot)\<rparr> = Some bytes"
    using assms(2) by blast
  moreover have "plan_id_parse (hex (sha256 bs)) = Inr (hex (sha256 bs))" for bs
    using hex_identifier [OF assms(3)] by (simp add: plan_id_parse_def)
  ultimately show ?thesis
    using p assms(3) by (simp add: build_retention_plan_def Let_def)
qed

theorem retention_plan_deletes_oldest_witness:
  "\<exists>plan. build_retention_plan (\<lambda>_. Some []) (\<lambda>_. replicate 32 0) ''repo'' \<lparr>max_backups = 2, minimum_backups = 1\<rparr>
      [\<lparr>rs_backup_id = ''b1'', rs_sealed_at = ''2026-07-14T12:00:00Z''\<rparr>,
       \<lparr>rs_backup_id = ''b2'', rs_sealed_at = ''2026-07-15T12:00:00Z''\<rparr>,
       \<lparr>rs_backup_id = ''b3'', rs_sealed_at = ''2026-07-16T12:00:00Z''\<rparr>] = Inr plan \<and>
    rp_delete_backup_ids plan @ retained_backup_ids plan = [''b1'', ''b2'', ''b3''] \<and>
    length (retained_backup_ids plan) = 2"
proof -
  let ?s = "[\<lparr>rs_backup_id = ''b1'', rs_sealed_at = ''2026-07-14T12:00:00Z''\<rparr>,
       \<lparr>rs_backup_id = ''b2'', rs_sealed_at = ''2026-07-15T12:00:00Z''\<rparr>,
       \<lparr>rs_backup_id = ''b3'', rs_sealed_at = ''2026-07-16T12:00:00Z''\<rparr>]"
  have p: "retention_policy_new 2 1 = Inr \<lparr>max_backups = 2, minimum_backups = 1\<rparr>"
    by (simp add: retention_policy_new_ok)
  obtain plan where b: "build_retention_plan (\<lambda>_. Some []) (\<lambda>_. replicate 32 0) ''repo''
      \<lparr>max_backups = 2, minimum_backups = 1\<rparr> ?s = Inr plan"
    using hex_identifier [of "replicate 32 0" "''plan''"]
    by (simp add: build_retention_plan_def Let_def ok_or_def plan_id_parse_def)
  have "sorted (map rs_sealed_at ?s)" "distinct (map rs_backup_id ?s)" by code_simp+
  then show ?thesis
    using b retention_plan_deletes_oldest [OF p b] by auto
qed

theorem retention_plan_total_witness:
  "\<exists>plan. build_retention_plan (\<lambda>_. Some []) (\<lambda>_. replicate 32 0) ''repo'' \<lparr>max_backups = 1, minimum_backups = 1\<rparr> [] = Inr plan
    \<and> length (rp_plan_id plan) = 64"
  by (rule retention_plan_total [of 1 1]) (simp_all add: retention_policy_new_ok)

end
