(* ===== verification/Repository_Files.thy ===== *)
theory Repository_Files
  imports File_System Plans Retention_Policy
begin

text \<open>
  \<^verbatim>\<open>crates/guardian-local-repository/src/{error,filesystem}.rs\<close>: the repository's errors and its file
  helpers, on the Unix side of the conditional compilation. Paths are relative to the canonical
  repository root.
\<close>

section \<open>Definitions\<close>

datatype archive_error = ArchiveCancelled | ArchiveInvalid | ArchiveUnsafePath | UnsupportedEntryType

datatype repository_error =
    Busy | IncompatibleMetadata | StagingExists | BackupExists | PayloadExists | RunMismatch
  | UnsupportedSigner | IntegrityFailure | ConfirmationMismatch | RepositoryMismatch | SnapshotChanged
  | AuditConflict | RecoveryRequired | CleanupPending | UnsafeFilesystemEntry | RestoreDestinationExists
  | RestoreCancelled | RepoManifest manifest_error | RepoRestorePlan restore_plan_error | RestoreExtraction archive_error | RepoEncryption
  | RepoCredential | RecoveryKeyNotConfigured | RecoveryKeyAlreadyConfigured | RecoveryKeyMismatch
  | TrustedSigningKeyMismatch | PermissionHardening | RepoSigning signing_error | Io string fs_error
  | RepoSerialization

type_synonym 'a repo = "(world, repository_error, 'a) action"

definition ensure_directory :: "path \<Rightarrow> unit repo" where
  "ensure_directory path =
     do_then (do_map_err (Io ''inspect repository directory'') (stat path)) (\<lambda>metadata.
       if metadata = FsDir then do_return () else do_fail UnsafeFilesystemEntry)"

fun safe_parent_loop :: "path \<Rightarrow> string list \<Rightarrow> path repo" where
  "safe_parent_loop current [] = do_fail UnsafeFilesystemEntry"
| "safe_parent_loop current [segment] = do_return (current @ [segment])"
| "safe_parent_loop current (segment # next_segment # segments) =
     do_match (stat (current @ [segment])) (\<lambda>r.
       case r of
         Inr e \<Rightarrow>
           if e = FsDir then safe_parent_loop (current @ [segment]) (next_segment # segments)
           else do_fail UnsafeFilesystemEntry
       | Inl NotFound \<Rightarrow>
           do_then (do_map_err (Io ''create payload directory'') (create_dir (current @ [segment]))) (\<lambda>_.
             safe_parent_loop (current @ [segment]) (next_segment # segments))
       | Inl err \<Rightarrow> do_fail (Io ''inspect payload directory'' err))"

definition create_safe_parent :: "path \<Rightarrow> string \<Rightarrow> path repo" where
  "create_safe_parent root relative =
     do_then (ensure_directory root) (\<lambda>_. safe_parent_loop root (split_on slash relative))"

definition restrict_to_owner :: "path \<Rightarrow> unit repo" where
  "restrict_to_owner path =
     do_map_err (Io ''restrict temporary file permissions'') (open_path path)"

definition write_new :: "path \<Rightarrow> byte list \<Rightarrow> unit repo" where
  "write_new path bytes =
     do_then (do_map_err (Io ''create new file'') (create_new path)) (\<lambda>_.
     do_then (do_map_err (Io ''write new file'') (write_file path bytes)) (\<lambda>_.
     do_then (do_map_err (Io ''sync new file'') sync) (\<lambda>_.
     restrict_to_owner path)))"

definition sync_parent :: "path \<Rightarrow> unit repo" where
  "sync_parent path =
     (if path = [] then do_fail UnsafeFilesystemEntry
      else do_map_err (Io ''sync parent directory'') (do_then (open_path (butlast path)) (\<lambda>_. sync)))"

definition temporary_path :: "path \<Rightarrow> path" where
  "temporary_path path = butlast path @ [last path @ ''.tmp'']"

definition atomic_write :: "path \<Rightarrow> byte list \<Rightarrow> unit repo" where
  "atomic_write path bytes =
     (if path = [] then do_fail UnsafeFilesystemEntry
      else
        do_then (write_new (temporary_path path) bytes) (\<lambda>_.
        do_then (do_map_err (Io ''publish atomic file'') (rename (temporary_path path) path)) (\<lambda>_.
        sync_parent path)))"

section \<open>Lemmas\<close>

lemma sync_parent_triple: "triple (\<lambda>w. I (disk w)) (sync_parent p) (\<lambda>_ w. I (disk w)) (\<lambda>_ w. I (disk w))"
proof (cases "p = []")
  case True
  then show ?thesis by (simp add: sync_parent_def triple_def)
next
  case False
  then show ?thesis
    unfolding sync_parent_def
    by (auto intro!: triple_map_err triple_then [OF open_path_triple] sync_triple)
qed

lemma restrict_triple: "triple (\<lambda>w. I (disk w)) (restrict_to_owner p) (\<lambda>_ w. I (disk w)) (\<lambda>_ w. I (disk w))"
  unfolding restrict_to_owner_def by (intro triple_map_err open_path_triple)

lemma ensure_directory_triple:
  "triple (\<lambda>w. I (disk w)) (ensure_directory p) (\<lambda>_ w. I (disk w)) (\<lambda>_ w. I (disk w))"
proof -
  have "triple (\<lambda>w. I (disk w)) (do_map_err g (stat p)) (\<lambda>_ w. I (disk w)) (\<lambda>_ w. I (disk w))"
    for g :: "fs_error \<Rightarrow> repository_error"
    by (intro triple_map_err triple_weaken [OF stat_triple]) auto
  then show ?thesis
    unfolding ensure_directory_def by (rule triple_then) (simp add: triple_def)
qed

text \<open>What \<open>write_new\<close> may leave behind: nothing, or the new file with a prefix of the bytes.\<close>

definition partial_write :: "path \<Rightarrow> byte list \<Rightarrow> disk \<Rightarrow> disk \<Rightarrow> bool" where
  "partial_write p bs d d' \<longleftrightarrow>
     d' = d \<or> entry_at d p = None \<and>
       (\<exists>n. n \<le> length bs \<and> (\<forall>q. entry_at d' q = (if q = p then Some (FsFile (take n bs)) else entry_at d q)))"

lemma write_new_triple:
  assumes p: "p \<noteq> []"
  shows "triple (\<lambda>w. disk w = d) (write_new p bs)
    (\<lambda>_ w. entry_at d p = None \<and> (\<forall>q. entry_at (disk w) q = (if q = p then Some (FsFile bs) else entry_at d q)))
    (\<lambda>_ w. partial_write p bs d (disk w))"
proof -
  let ?new = "\<lambda>n w. entry_at d p = None \<and> (\<forall>q. entry_at (disk w) q = (if q = p then Some (FsFile (take n bs)) else entry_at d q))"
  have pw: "?new n w \<Longrightarrow> n \<le> length bs \<Longrightarrow> partial_write p bs d (disk w)" for n and w :: world
    unfolding partial_write_def by blast
  have create: "triple (\<lambda>w. disk w = d) (create_new p) (\<lambda>_. ?new 0) (\<lambda>_ w. partial_write p bs d (disk w))"
  proof (rule tripleI)
    fix w x w' assume w: "disk w = d" and run: "create_new p w = (Inr x, w')"
    have "entry_at d p = None \<and> disk w' = put p (FsFile []) d"
      using run unfolding create_new_def by (rule io_cases) (auto simp: w split: if_splits)
    then show "?new 0 w'" by (simp add: entry_at_put [OF p])
  next
    fix w e w' assume w: "disk w = d" and run: "create_new p w = (Inl e, w')"
    have "disk w' = d"
      using run unfolding create_new_def by (rule io_cases) (auto simp: w whole_def split: if_splits)
    then show "partial_write p bs d (disk w')" by (simp add: partial_write_def)
  qed
  have wr: "triple (?new 0) (write_file p bs) (\<lambda>_. ?new (length bs)) (\<lambda>_ w. partial_write p bs d (disk w))"
  proof (rule tripleI)
    fix w x w' assume w: "?new 0 w" and run: "write_file p bs w = (Inr x, w')"
    have "disk w' = append_file p bs (disk w)"
      using run unfolding write_file_def by (rule io_cases) auto
    then show "?new (length bs) w'" using w by (auto simp: entry_at_append_file [OF p])
  next
    fix w e w' assume w: "?new 0 w" and run: "write_file p bs w = (Inl e, w')"
    have "disk w' = disk w \<or> (\<exists>n. disk w' = append_file p (take n bs) (disk w))"
      using run unfolding write_file_def by (rule io_cases) auto
    then show "partial_write p bs d (disk w')"
    proof
      assume "\<exists>n. disk w' = append_file p (take n bs) (disk w)"
      then obtain n where n: "disk w' = append_file p (take n bs) (disk w)" by blast
      then have "?new (min n (length bs)) w'"
        using w by (auto simp: entry_at_append_file [OF p] min_def)
      then show ?thesis by (rule pw) simp
    qed (use w in \<open>auto intro: pw [of _ 0]\<close>)
  qed
  have rest: "triple (?new (length bs)) m (\<lambda>_. ?new (length bs)) (\<lambda>_ w. partial_write p bs d (disk w))"
    if "triple (?new (length bs)) m (\<lambda>_. ?new (length bs)) (\<lambda>_. ?new (length bs))" for m :: "unit repo"
    using that by (rule triple_weaken) (auto intro: pw)
  have s: "triple (?new (length bs)) (do_map_err (Io ''sync new file'') sync) (\<lambda>_. ?new (length bs)) (\<lambda>_ w. partial_write p bs d (disk w))"
    by (intro rest triple_map_err sync_triple)
  have r: "triple (?new (length bs)) (restrict_to_owner p) (\<lambda>_. ?new (length bs)) (\<lambda>_ w. partial_write p bs d (disk w))"
    by (intro rest restrict_triple)
  have "triple (\<lambda>w. disk w = d) (write_new p bs) (\<lambda>_. ?new (length bs)) (\<lambda>_ w. partial_write p bs d (disk w))"
    unfolding write_new_def
    by (rule triple_then triple_map_err create wr s r)+
  then show ?thesis by (simp only: take_all order.refl)
qed

lemma write_new_rule:
  assumes p: "p \<noteq> []"
    and ok: "\<And>d d'. \<Phi> d \<Longrightarrow> entry_at d p = None \<Longrightarrow> entry_set p (Some (FsFile bs)) d d' \<Longrightarrow> \<Psi> d'"
    and torn: "\<And>d d' n. \<Phi> d \<Longrightarrow> entry_at d p = None \<Longrightarrow> entry_set p (Some (FsFile (take n bs))) d d' \<Longrightarrow> \<Theta> d'"
    and none: "\<And>d. \<Phi> d \<Longrightarrow> \<Theta> d"
  shows "triple (holds \<Phi>) (write_new p bs) (\<lambda>_. holds \<Psi>) (\<lambda>_. holds \<Theta>)"
proof (rule triple_pointwise)
  fix d assume d: "\<Phi> d"
  show "triple (\<lambda>w. disk w = d) (write_new p bs) (\<lambda>_. holds \<Psi>) (\<lambda>_. holds \<Theta>)"
  proof (rule triple_weaken [OF write_new_triple [OF p, of d bs]])
    fix w :: world assume "entry_at d p = None \<and> (\<forall>q. entry_at (disk w) q = (if q = p then Some (FsFile bs) else entry_at d q))"
    then show "\<Psi> (disk w)" by (intro ok [OF d]) (simp_all add: entry_set_def)
  next
    fix w :: world assume "partial_write p bs d (disk w)"
    then show "\<Theta> (disk w)"
      unfolding partial_write_def using none [OF d] torn [OF d] by (auto simp: entry_set_def)
  qed simp
qed

lemma sync_parent_crash:
  assumes "\<And>d. \<Phi> d \<Longrightarrow> \<Theta> d"
  shows "triple (holds \<Phi>) (sync_parent p) (\<lambda>_. holds \<Phi>) (\<lambda>_. holds \<Theta>)"
  by (rule triple_weaken [OF sync_parent_triple [of \<Phi>]]) (auto intro: assms)

lemma runs_sync_parent: "p \<noteq> [] \<Longrightarrow> entry_at d (butlast p) \<noteq> None \<Longrightarrow> runs (sync_parent p) d d"
  by (simp add: runs_def sync_parent_def do_defs quiet_simps map_err_def)

lemma runs_write_new:
  assumes "p \<noteq> []" "entry_at d p = None" "entry_at d (butlast p) = Some FsDir"
  shows "\<exists>d'. runs (write_new p bs) d d' \<and> entry_set p (Some (FsFile bs)) d d'"
proof -
  let ?d = "append_file p bs (put p (FsFile []) d)"
  have ent: "entry_at ?d q = (if q = p then Some (FsFile bs) else entry_at d q)" for q
    using assms(1) by (simp add: entry_at_append_file entry_at_put)
  then have "runs (write_new p bs) d ?d"
    using assms by (simp add: runs_def write_new_def restrict_to_owner_def do_defs quiet_simps map_err_def)
  then show ?thesis using ent by (auto simp: entry_set_def)
qed

lemma temporary_path_unrelated:
  "p \<noteq> [] \<Longrightarrow> temporary_path p \<noteq> []" "p \<noteq> [] \<Longrightarrow> \<not> prefix (temporary_path p) p" "p \<noteq> [] \<Longrightarrow> \<not> prefix p (temporary_path p)"
  by (cases p rule: rev_cases; simp add: temporary_path_def)+

text \<open>What an interrupted \<open>atomic_write\<close> leaves: the temporary file may be there, nothing else moved.\<close>

definition published :: "path \<Rightarrow> byte list \<Rightarrow> disk \<Rightarrow> disk \<Rightarrow> bool" where
  "published p bs d d' \<longleftrightarrow>
     entry_at d' p = Some (FsFile bs) \<and> entry_at d' (temporary_path p) = None \<and>
     (\<forall>q. \<not> prefix p q \<longrightarrow> \<not> prefix (temporary_path p) q \<longrightarrow> entry_at d' q = entry_at d q)"

definition unpublished :: "path \<Rightarrow> disk \<Rightarrow> disk \<Rightarrow> bool" where
  "unpublished p d d' \<longleftrightarrow> (\<forall>q. q \<noteq> temporary_path p \<longrightarrow> entry_at d' q = entry_at d q)"

lemma rename_temporary_triple:
  assumes p: "p \<noteq> []"
  defines "t \<equiv> temporary_path p"
  shows "triple (\<lambda>w. \<forall>q. entry_at (disk w) q = (if q = t then Some (FsFile bs) else entry_at d q)) (rename t p)
    (\<lambda>_ w. published p bs d (disk w)) (\<lambda>_ w. unpublished p d (disk w))"
proof (rule tripleI)
  note t = temporary_path_unrelated [OF p, folded t_def]
  fix w x w' assume w: "\<forall>q. entry_at (disk w) q = (if q = t then Some (FsFile bs) else entry_at d q)"
    and run: "rename t p w = (Inr x, w')"
  have "disk w' = move_tree t p (disk w)"
    using run unfolding rename_def by (rule io_cases) (auto split: if_splits)
  then show "published p bs d (disk w')"
    using t w p by (auto simp: published_def entry_at_move_tree t_def [symmetric])
next
  fix w e w' assume w: "\<forall>q. entry_at (disk w) q = (if q = t then Some (FsFile bs) else entry_at d q)"
    and run: "rename t p w = (Inl e, w')"
  have "disk w' = disk w"
    using run unfolding rename_def by (rule io_cases) (auto simp: whole_def split: if_splits)
  then show "unpublished p d (disk w')" using w by (auto simp: unpublished_def t_def)
qed

lemma atomic_write_triple:
  assumes p: "p \<noteq> []"
  shows "triple (\<lambda>w. disk w = d) (atomic_write p bs)
    (\<lambda>_ w. published p bs d (disk w)) (\<lambda>_ w. published p bs d (disk w) \<or> unpublished p d (disk w))"
proof -
  note t = temporary_path_unrelated [OF p]
  have w: "triple (\<lambda>w. disk w = d) (write_new (temporary_path p) bs)
      (\<lambda>_ w. \<forall>q. entry_at (disk w) q = (if q = temporary_path p then Some (FsFile bs) else entry_at d q))
      (\<lambda>_ w. published p bs d (disk w) \<or> unpublished p d (disk w))"
    by (rule triple_weaken [OF write_new_triple [OF t(1)]]) (auto simp: partial_write_def unpublished_def)
  have r: "triple (\<lambda>w. \<forall>q. entry_at (disk w) q = (if q = temporary_path p then Some (FsFile bs) else entry_at d q))
      (do_map_err g (rename (temporary_path p) p))
      (\<lambda>_ w. published p bs d (disk w)) (\<lambda>_ w. published p bs d (disk w) \<or> unpublished p d (disk w))"
    for g :: "fs_error \<Rightarrow> repository_error"
    by (intro triple_map_err triple_weaken [OF rename_temporary_triple [OF p]]) auto
  have s: "triple (\<lambda>w. published p bs d (disk w)) (sync_parent p) (\<lambda>_ w. published p bs d (disk w))
      (\<lambda>_ w. published p bs d (disk w) \<or> unpublished p d (disk w))"
    by (rule triple_weaken [OF sync_parent_triple [of "published p bs d"]]) auto
  show ?thesis
    using p w r s unfolding atomic_write_def by (auto intro!: triple_then)
qed

section \<open>Properties\<close>

text \<open>C23: the atomic write of a repository file publishes all of the bytes or none of them: whatever
  calls are refused or torn on the way, the target keeps its old entry or holds exactly the new
  bytes, only the target and its temporary file can change, and a success means that the new bytes
  are in place and the temporary file is gone.\<close>

theorem atomic_write_old_or_new:
  assumes "path \<noteq> []" "atomic_write path bytes w = (r, w')"
  shows "entry_at (disk w') path \<in> {entry_at (disk w) path, Some (FsFile bytes)} \<and>
    (\<forall>q. \<not> prefix path q \<longrightarrow> \<not> prefix (temporary_path path) q \<longrightarrow> entry_at (disk w') q = entry_at (disk w) q) \<and>
    (r = Inr () \<longrightarrow> entry_at (disk w') path = Some (FsFile bytes) \<and> entry_at (disk w') (temporary_path path) = None)"
proof (cases r)
  case (Inl e)
  have "published path bytes (disk w) (disk w') \<or> unpublished path (disk w) (disk w')"
    by (rule triple_err [OF atomic_write_triple [OF assms(1), of "disk w"] refl assms(2) [unfolded Inl]])
  moreover have "path \<noteq> temporary_path path"
    using temporary_path_unrelated(2) [OF assms(1)] by auto
  ultimately show ?thesis
    using Inl by (auto simp: published_def unpublished_def)
next
  case (Inr u)
  have "published path bytes (disk w) (disk w')"
    by (rule triple_ok [OF atomic_write_triple [OF assms(1), of "disk w"] refl assms(2) [unfolded Inr]])
  then show ?thesis by (auto simp: published_def)
qed

definition torn_update :: world where
  "torn_update = \<lparr>disk = [([''a''], FsDir), ([''a'', ''b''], FsFile [1])], faults = [Proceed, Tear 1]\<rparr>"

theorem atomic_write_old_or_new_witness:
  "(let w' = snd (atomic_write [''a'', ''b''] [2, 3] torn_update) in
     entry_at (disk w') [''a'', ''b''] \<in> {entry_at (disk torn_update) [''a'', ''b''], Some (FsFile [2, 3])} \<and>
     entry_at (disk w') [''a'', ''b''] = Some (FsFile [1]) \<and>
     entry_at (disk w') [''a'', ''b.tmp''] = Some (FsFile [2]))"
proof -
  have "entry_at (disk (snd (atomic_write [''a'', ''b''] [2, 3] torn_update))) [''a'', ''b'']
      \<in> {entry_at (disk torn_update) [''a'', ''b''], Some (FsFile [2, 3])}"
    by (rule atomic_write_old_or_new [THEN conjunct1, OF _ prod.collapse [symmetric]]) simp
  moreover have "entry_at (disk (snd (atomic_write [''a'', ''b''] [2, 3] torn_update))) [''a'', ''b''] = Some (FsFile [1])"
    by code_simp
  moreover have "entry_at (disk (snd (atomic_write [''a'', ''b''] [2, 3] torn_update))) [''a'', ''b.tmp''] = Some (FsFile [2])"
    by code_simp
  ultimately show ?thesis by (simp add: Let_def)
qed

end
