(* ===== verification/Store_Interface.thy ===== *)
theory Store_Interface
  imports File_System "HOL-Library.Finite_Map"
begin

text \<open>
  What the persistent stores of the program promise, and how they keep it. \<open>swapped_file\<close> is the
  discipline they share: a file is replaced by writing a scratch file beside it and renaming it over
  the target, so the target only ever holds its old or its new bytes. \<open>keyed_store\<close> and
  \<open>deletable_store\<close> are the contracts of the traits \<open>ProfileStorePort\<close> and \<open>SecretStore\<close> and of the
  configuration stores: a map that every operation changes atomically, whatever calls of the
  operating system fail. The stores interpret them on their own definitions.
\<close>

section \<open>Paths\<close>

text \<open>\<open>Path::with_extension\<close> on the last component.\<close>

definition file_stem :: "string \<Rightarrow> string" where
  "file_stem file =
     (let before = dropWhile (\<lambda>c. c \<noteq> CHR ''.'') (rev file) in
      if file = ''..'' \<or> length before \<le> 1 then file else rev (tl before))"

definition with_extension :: "path \<Rightarrow> string \<Rightarrow> path" where
  "with_extension path extension = butlast path @ [file_stem (last path) @ ''.'' @ extension]"

section \<open>JSON documents\<close>

text \<open>The documents of the stores: a format version, the entries by key (a \<open>BTreeMap\<close>) and the fields
  other versions have added (flattened \<open>extensions\<close>).\<close>

record ('v, 'x) document =
  doc_format_version :: u32
  doc_entries :: "(string, 'v) fmap"
  doc_extensions :: 'x

record 'd json_codec =
  to_json :: "'d \<Rightarrow> byte list option"
  from_json :: "byte list \<Rightarrow> 'd option"

text \<open>What the stores rely on: a serialized document parses back to itself.\<close>

definition codec_ok :: "'d json_codec \<Rightarrow> bool" where
  "codec_ok codec \<longleftrightarrow> (\<forall>doc bs. to_json codec doc = Some bs \<longrightarrow> from_json codec bs = Some doc)"

text \<open>A codec that knows two documents, for the instances.\<close>

definition two_documents :: "'d \<Rightarrow> 'd \<Rightarrow> 'd json_codec" where
  "two_documents a b =
     \<lparr>to_json = (\<lambda>doc. if doc = a then Some [1] else if doc = b then Some [0] else None),
      from_json = (\<lambda>bs. if bs = [1] then Some a else if bs = [0] then Some b else None)\<rparr>"

lemma two_documents_ok: "codec_ok (two_documents a b)"
  by (auto simp: codec_ok_def two_documents_def)

definition document_values :: "(string, 'v) fmap \<Rightarrow> 'v list" where
  "document_values m = map (\<lambda>k. the (fmlookup m k)) (sorted_list_of_fset (fmdom m))"

text \<open>The document a disk holds: \<open>None\<close> when the file is there but is not an acceptable document.\<close>

definition document_at ::
  "('v, 'x) document json_codec \<Rightarrow> (('v, 'x) document \<Rightarrow> bool) \<Rightarrow> ('v, 'x) document \<Rightarrow> path \<Rightarrow> disk \<Rightarrow> ('v, 'x) document option" where
  "document_at codec valid blank p d =
     (case entry_at d p of
        None \<Rightarrow> Some blank
      | Some (FsFile bs) \<Rightarrow>
          (case from_json codec bs of Some doc \<Rightarrow> if valid doc then Some doc else None | None \<Rightarrow> None)
      | Some _ \<Rightarrow> None)"

text \<open>An advisory lock on an open file: it is taken, or the call fails.\<close>

definition lock_exclusive :: "(world, fs_error, unit) action" where
  "lock_exclusive = io (\<lambda>d. (Inr (), d)) whole"

lemma lock_exclusive_triple: "triple (holds \<Phi>) lock_exclusive (\<lambda>_. holds \<Phi>) (\<lambda>_. holds \<Phi>)"
  unfolding lock_exclusive_def by (rule io_read_only) simp

lemma lock_exclusive_quiet [quiet_simps]: "lock_exclusive (quiet d) = (Inr (), quiet d)"
  by (simp add: lock_exclusive_def io_quiet)

lemma find_keyed:
  "(\<And>k. k \<in> set ks \<Longrightarrow> key (f k) = k) \<Longrightarrow> find (\<lambda>v. key v = i) (map f ks) = (if i \<in> set ks then Some (f i) else None)"
  by (induction ks) auto

lemma find_document_values:
  assumes "fmpred (\<lambda>k v. key v = k) m"
  shows "find (\<lambda>v. key v = i) (document_values m) = fmlookup m i"
proof -
  have "key (the (fmlookup m k)) = k" if k: "k |\<in>| fmdom m" for k
  proof -
    obtain v where "fmlookup m k = Some v" using k by (meson fmlookup_dom_iff)
    then show ?thesis using assms by (auto simp: fmpred_iff)
  qed
  then have "find (\<lambda>v. key v = i) (document_values m) = (if i |\<in>| fmdom m then Some (the (fmlookup m i)) else None)"
    unfolding document_values_def by (subst find_keyed) auto
  then show ?thesis by (cases "fmlookup m i") (auto simp: fmdom_notI fmdomI)
qed

lemma set_document_values: "set (document_values m) = {v. \<exists>k. fmlookup m k = Some v}"
proof -
  have "set (document_values m) = (\<lambda>k. the (fmlookup m k)) ` fset (fmdom m)"
    by (simp add: document_values_def)
  also have "\<dots> = {v. \<exists>k. fmlookup m k = Some v}"
    by (force simp: fmlookup_dom_iff image_iff)
  finally show ?thesis .
qed

lemma distinct_document_values:
  assumes "fmpred (\<lambda>k v. key v = k) m"
  shows "distinct (map key (document_values m))"
proof -
  have "map key (document_values m) = sorted_list_of_fset (fmdom m)"
    unfolding document_values_def map_map
  proof (rule map_idI)
    fix k assume "k \<in> set (sorted_list_of_fset (fmdom m))"
    then obtain v where "fmlookup m k = Some v" by (auto simp: fmlookup_dom_iff)
    then show "(key \<circ> (\<lambda>k. the (fmlookup m k))) k = k" using assms by (auto simp: fmpred_iff)
  qed
  then show ?thesis by (simp add: sorted_list_of_fset.rep_eq)
qed

section \<open>Replacing a file\<close>

locale swapped_file =
  fixes directory :: path and name temp :: string and scratch :: "string set"
  assumes temp_scratch: "temp \<in> scratch" and name_kept: "name \<notin> scratch"
begin

definition target :: path where
  "target = directory @ [name]"

definition temporary :: path where
  "temporary = directory @ [temp]"

definition elsewhere :: "path \<Rightarrow> bool" where
  "elsewhere q \<longleftrightarrow> \<not> prefix target q \<and> (\<forall>n\<in>scratch. \<not> prefix (directory @ [n]) q) \<and> \<not> prefix q directory"

text \<open>What a replacement leaves alone: everything elsewhere; directories above may be created.\<close>

definition frame :: "disk \<Rightarrow> disk \<Rightarrow> bool" where
  "frame d d' \<longleftrightarrow> (\<forall>q. (elsewhere q \<longrightarrow> entry_at d' q = entry_at d q) \<and>
     (prefix q directory \<longrightarrow> entry_at d' q \<in> {entry_at d q, Some FsDir}))"

definition kept :: "disk \<Rightarrow> disk \<Rightarrow> bool" where
  "kept d d' \<longleftrightarrow> frame d d' \<and> entry_at d' target = entry_at d target"

definition staged :: "byte list \<Rightarrow> disk \<Rightarrow> disk \<Rightarrow> bool" where
  "staged bs d d' \<longleftrightarrow> kept d d' \<and> entry_at d' temporary = Some (FsFile bs)"

definition swapped :: "byte list \<Rightarrow> disk \<Rightarrow> disk \<Rightarrow> bool" where
  "swapped bs d d' \<longleftrightarrow> frame d d' \<and> entry_at d' target = Some (FsFile bs)"

lemma scratch_neq: "n \<in> scratch \<Longrightarrow> directory @ [n] \<noteq> target" "n \<in> scratch \<Longrightarrow> \<not> elsewhere (directory @ [n])"
  "\<not> prefix (directory @ [n]) directory"
  using name_kept by (auto simp: target_def elsewhere_def dest: prefix_length_le)

lemma paths_unrelated:
  "\<not> prefix temporary target" "\<not> prefix target temporary" "target \<noteq> []" "temporary \<noteq> []" "\<not> prefix target directory"
  using temp_scratch name_kept by (auto simp: target_def temporary_def dest: prefix_length_le)

lemma frame_sibling:
  assumes "frame d d'" "x \<noteq> name" "x \<notin> scratch"
  shows "entry_at d' (directory @ [x]) = entry_at d (directory @ [x])"
proof -
  have "elsewhere (directory @ [x])" using assms(2,3) by (auto simp: elsewhere_def target_def dest: prefix_length_le)
  then show ?thesis using assms(1) by (simp add: frame_def)
qed

lemma kept_refl: "kept d d"
  by (simp add: kept_def frame_def)

lemma kept_put: "kept d d' \<Longrightarrow> n \<in> scratch \<Longrightarrow> kept d (put (directory @ [n]) e d')"
  using scratch_neq [of n] by (auto simp: kept_def frame_def entry_at_put)

lemma kept_del: "kept d d' \<Longrightarrow> n \<in> scratch \<Longrightarrow> kept d (del (directory @ [n]) d')"
  using scratch_neq [of n] by (auto simp: kept_def frame_def entry_at_del)

lemma kept_append: "kept d d' \<Longrightarrow> n \<in> scratch \<Longrightarrow> kept d (append_file (directory @ [n]) bs d')"
  using scratch_neq [of n]
  by (auto simp: kept_def frame_def entry_at_append_file split: option.splits entry.splits)

lemma kept_parent:
  assumes "kept d d'" "prefix q directory"
  shows "kept d (put q FsDir d')"
proof (cases "q = []")
  case True
  then have "entry_at (put q FsDir d') = entry_at d'" by (auto simp: fun_eq_iff entry_at_def put_def map_of_del)
  then show ?thesis using assms(1) by (simp add: kept_def frame_def)
next
  case False
  have "q \<noteq> target" using assms(2) paths_unrelated(5) by auto
  then show ?thesis
    using assms False by (auto simp: kept_def frame_def entry_at_put elsewhere_def)
qed

text \<open>Triples of the calls a replacement makes, relative to the disk \<open>d\<close> it started on.\<close>

lemma read_only_kept:
  "triple (holds (kept d)) (stat p) (\<lambda>_. holds (kept d)) (\<lambda>_. holds (kept d))"
  by (rule triple_weaken [OF stat_triple [of "kept d"]]) auto

lemma create_dir_all_kept:
  "triple (holds (kept d)) (create_dir_all directory) (\<lambda>_. holds (kept d)) (\<lambda>_. holds (kept d))"
  by (rule create_dir_all_triple) (rule kept_parent)

lemma open_or_create_kept:
  "n \<in> scratch \<Longrightarrow> triple (holds (kept d)) (open_or_create (directory @ [n])) (\<lambda>_. holds (kept d)) (\<lambda>_. holds (kept d))"
  by (rule open_or_create_triple) (rule kept_put)

lemma remove_temporary_kept:
  "triple (holds (kept d)) (remove_file temporary) (\<lambda>_. holds (kept d)) (\<lambda>_. holds (kept d))"
  unfolding temporary_def
  by (rule triple_weaken [OF remove_file_triple [of "kept d" _ "kept d"]]) (auto intro: kept_del temp_scratch)

lemma create_temporary_staged:
  "triple (holds (kept d)) (create_new temporary) (\<lambda>_. holds (staged [] d)) (\<lambda>_. holds (kept d))"
  unfolding temporary_def
  by (rule create_new_triple)
    (auto simp: staged_def temporary_def entry_at_put intro: kept_put temp_scratch)

lemma write_temporary_staged:
  "triple (holds (staged [] d)) (write_file temporary bs) (\<lambda>_. holds (staged bs d)) (\<lambda>_. holds (kept d))"
  by (rule write_file_triple)
    (auto simp: staged_def entry_at_append_file paths_unrelated temporary_def [symmetric]
      intro: kept_append [OF _ temp_scratch, folded temporary_def])

lemma rename_swapped:
  "triple (holds (staged bs d)) (rename temporary target) (\<lambda>_. holds (swapped bs d)) (\<lambda>_. holds (kept d))"
proof -
  have "swapped bs d (move_tree temporary target d')" if "staged bs d d'" for d'
  proof -
    have "\<not> prefix temporary q" if "elsewhere q" for q
      using that temp_scratch by (auto simp: elsewhere_def temporary_def)
    moreover have "\<not> prefix temporary q \<and> \<not> prefix target q" if "prefix q directory" for q
      using that scratch_neq(3) by (auto simp: temporary_def target_def dest: prefix_order.trans)
    ultimately show ?thesis
      using that paths_unrelated
      by (auto simp: swapped_def staged_def kept_def frame_def entry_at_move_tree elsewhere_def)
  qed
  then show ?thesis
    by (intro triple_weaken [OF rename_triple [of "staged bs d" _ "swapped bs d"]]) (auto simp: staged_def)
qed

text \<open>The whole replacement, whatever errors the calls are mapped to and whatever follows it.\<close>

lemma replace_triple:
  assumes k: "triple (holds (swapped bs d)) k Q E" and kept: "\<And>e w. kept d (disk w) \<Longrightarrow> E e w"
  shows "triple (holds (kept d))
    (do_then (do_map_err f (create_new temporary)) (\<lambda>_.
     do_then (do_map_err g (do_then (write_file temporary bs) (\<lambda>_. sync))) (\<lambda>_.
     do_then (do_map_err h (rename temporary target)) (\<lambda>_. k)))) Q E"
proof -
  have weak: "triple P (do_map_err f m) Q' E"
    if "triple P m Q' (\<lambda>_. holds (kept d))" for P Q' f and m :: "(world, fs_error, unit) action"
    by (rule triple_map_err) (rule triple_weaken [OF that], auto intro: kept)
  have s: "triple (holds (staged bs d)) sync (\<lambda>_. holds (staged bs d)) (\<lambda>_. holds (kept d))"
    by (rule triple_weaken [OF sync_triple [of "staged bs d"]]) (auto simp: staged_def)
  show ?thesis
    by (rule triple_then [OF weak [OF create_temporary_staged] triple_then [OF weak [OF triple_then [OF write_temporary_staged s]]
      triple_then [OF weak [OF rename_swapped] k]]])
qed

lemma swapped_quiet: "triple (holds (swapped bs d)) sync (\<lambda>_. holds (swapped bs d)) (\<lambda>_. holds (swapped bs d))"
  "triple (holds (swapped bs d)) (open_path p) (\<lambda>_. holds (swapped bs d)) (\<lambda>_. holds (swapped bs d))"
  by (rule sync_triple open_path_triple)+

end

section \<open>Documents behind a lock\<close>

text \<open>The stores that keep one document: a lock, a checked read and a replacing write. \<open>valid\<close> is
  what an accepted document satisfies whatever the rest of the disk holds; a read may refuse more.\<close>

locale document_store = swapped_file directory name temp scratch
  for directory :: path and name temp :: string and scratch :: "string set" +
  fixes codec :: "('v, 'x) document json_codec" and valid :: "('v, 'x) document \<Rightarrow> bool" and blank :: "('v, 'x) document"
    and lock_op :: "(world, 'e, unit) action" and read_op :: "(world, 'e, ('v, 'x) document) action"
    and write_op :: "('v, 'x) document \<Rightarrow> (world, 'e, unit) action"
  assumes blank_valid: "valid blank"
    and lock_kept: "triple (holds (kept d)) lock_op (\<lambda>_. holds (kept d)) (\<lambda>_. holds (kept d))"
    and read_kept: "triple (holds (kept d)) read_op
      (\<lambda>doc. holds (\<lambda>d'. kept d d' \<and> document_at codec valid blank target d' = Some doc)) (\<lambda>_. holds (kept d))"
    and write_swaps: "triple (holds (kept d)) (write_op doc)
      (\<lambda>_. holds (\<lambda>d'. \<exists>bs. to_json codec doc = Some bs \<and> swapped bs d d'))
      (\<lambda>_. holds (\<lambda>d'. kept d d' \<or> (\<exists>bs. to_json codec doc = Some bs \<and> swapped bs d d')))"
begin

abbreviation doc_at :: "disk \<Rightarrow> ('v, 'x) document option" where
  "doc_at \<equiv> document_at codec valid blank target"

definition readable :: "world \<Rightarrow> bool" where
  "readable w \<longleftrightarrow> codec_ok codec \<and> doc_at (disk w) \<noteq> None"

definition view :: "world \<Rightarrow> string \<Rightarrow> 'v option" where
  "view w = fmlookup (doc_entries (the (doc_at (disk w))))"

text \<open>An action that turns the document into \<open>g\<close> of it, as a whole or not at all.\<close>

definition transforms :: "(world, 'f, 'r) action \<Rightarrow> ('r \<Rightarrow> ('v, 'x) document \<Rightarrow> bool) \<Rightarrow> (('v, 'x) document \<Rightarrow> ('v, 'x) document) \<Rightarrow> bool" where
  "transforms m R g \<longleftrightarrow> (\<forall>d doc. codec_ok codec \<longrightarrow> doc_at d = Some doc \<longrightarrow>
     triple (\<lambda>w. disk w = d) m (\<lambda>x. holds (\<lambda>d'. R x doc \<and> doc_at d' = Some (g doc)))
       (\<lambda>_. holds (\<lambda>d'. doc_at d' \<in> {Some doc, Some (g doc)})))"

lemma doc_kept: "kept d d' \<Longrightarrow> doc_at d' = doc_at d"
  by (simp add: kept_def document_at_def)

lemma doc_swapped: "swapped bs d d' \<Longrightarrow> codec_ok codec \<Longrightarrow> to_json codec doc = Some bs \<Longrightarrow> valid doc \<Longrightarrow> doc_at d' = Some doc"
  by (simp add: swapped_def document_at_def codec_ok_def)

lemma doc_valid: "doc_at d = Some doc \<Longrightarrow> valid doc"
  using blank_valid by (auto simp: document_at_def split: option.splits entry.splits if_splits)

lemma rewrite_triple:
  assumes "codec_ok codec" "doc_at d = Some doc" "valid doc'"
  shows "triple (holds (kept d)) (write_op doc')
    (\<lambda>_. holds (\<lambda>d'. doc_at d' = Some doc')) (\<lambda>_. holds (\<lambda>d'. doc_at d' \<in> {Some doc, Some doc'}))"
  by (rule triple_weaken [OF write_swaps])
    (auto dest: doc_kept simp: assms(2) intro: doc_swapped [OF _ assms(1) _ assms(3)])

lemma locked_read_triple:
  assumes "doc_at d = Some doc" "\<And>w. kept d (disk w) \<Longrightarrow> E w"
    and "triple (holds (kept d)) (f doc) Q (\<lambda>_. E)"
  shows "triple (holds (kept d)) (do_then lock_op (\<lambda>_. do_then read_op f)) Q (\<lambda>_. E)"
proof -
  have l: "triple (holds (kept d)) lock_op (\<lambda>_. holds (kept d)) (\<lambda>_. E)"
    by (rule triple_weaken [OF lock_kept]) (auto intro: assms(2))
  have r: "triple (holds (kept d)) read_op (\<lambda>x. holds (\<lambda>d'. kept d d' \<and> x = doc)) (\<lambda>_. E)"
    by (rule triple_weaken [OF read_kept]) (auto dest: doc_kept simp: assms(1) intro: assms(2))
  have "triple (holds (\<lambda>d'. kept d d' \<and> x = doc)) (f x) Q (\<lambda>_. E)" for x
    using assms(3) by (cases "x = doc") (auto simp: triple_def)
  then show ?thesis by (rule triple_then [OF l triple_then [OF r]])
qed

text \<open>The two shapes of an update: rewrite the document, or leave it when there is nothing to do.
  Actions \<open>pre\<close> that keep the disk may come first.\<close>

lemma transformsI:
  assumes "\<And>d doc. codec_ok codec \<Longrightarrow> doc_at d = Some doc \<Longrightarrow> valid doc \<Longrightarrow>
    triple (holds (kept d)) (f doc) (\<lambda>x. holds (\<lambda>d'. R x doc \<and> doc_at d' = Some (g doc)))
      (\<lambda>_. holds (\<lambda>d'. doc_at d' \<in> {Some doc, Some (g doc)}))"
  shows "transforms (do_then lock_op (\<lambda>_. do_then read_op f)) R g"
proof -
  have "triple (\<lambda>w. disk w = d) (do_then lock_op (\<lambda>_. do_then read_op f))
      (\<lambda>x. holds (\<lambda>d'. R x doc \<and> doc_at d' = Some (g doc))) (\<lambda>_. holds (\<lambda>d'. doc_at d' \<in> {Some doc, Some (g doc)}))"
    if "codec_ok codec" "doc_at d = Some doc" for d doc
  proof (rule triple_weaken)
    show "triple (holds (kept d)) (do_then lock_op (\<lambda>_. do_then read_op f))
      (\<lambda>x. holds (\<lambda>d'. R x doc \<and> doc_at d' = Some (g doc))) (\<lambda>_. holds (\<lambda>d'. doc_at d' \<in> {Some doc, Some (g doc)}))"
      by (intro locked_read_triple [where f = f, OF that(2)] assms [OF that doc_valid [OF that(2)]])
        (auto simp: that(2) dest: doc_kept)
  qed (simp_all add: kept_refl)
  then show ?thesis by (simp add: transforms_def)
qed

lemma transforms_write:
  assumes "\<And>doc. valid doc \<Longrightarrow> valid (g doc)"
  shows "transforms (do_then lock_op (\<lambda>_. do_then read_op (\<lambda>doc. write_op (g doc)))) (\<lambda>_ _. True) g"
  using rewrite_triple [OF _ _ assms] by (intro transformsI) simp

lemma transforms_list:
  "transforms (do_then lock_op (\<lambda>_. do_then read_op (\<lambda>doc. do_return (h doc)))) (\<lambda>x doc. x = h doc) (\<lambda>doc. doc)"
  by (rule transformsI) (auto simp: triple_def dest: doc_kept)

lemma transforms_remove:
  assumes "\<And>doc. valid doc \<Longrightarrow> valid (doc\<lparr>doc_entries := fmdrop i (doc_entries doc)\<rparr>)"
  shows "transforms (do_then lock_op (\<lambda>_. do_then read_op (\<lambda>doc.
       let removed = fmlookup (doc_entries doc) i in
       if removed \<noteq> None
       then do_then (write_op (doc\<lparr>doc_entries := fmdrop i (doc_entries doc)\<rparr>)) (\<lambda>_. do_return removed)
       else do_return removed)))
     (\<lambda>x doc. x = fmlookup (doc_entries doc) i) (\<lambda>doc. doc\<lparr>doc_entries := fmdrop i (doc_entries doc)\<rparr>)"
proof (rule transformsI)
  fix d doc assume a: "codec_ok codec" "doc_at d = Some doc" "valid doc"
  let ?doc = "doc\<lparr>doc_entries := fmdrop i (doc_entries doc)\<rparr>"
  have w: "triple (holds (kept d)) (do_then (write_op ?doc) (\<lambda>_. do_return (fmlookup (doc_entries doc) i)))
    (\<lambda>x. holds (\<lambda>d'. x = fmlookup (doc_entries doc) i \<and> doc_at d' = Some ?doc)) (\<lambda>_. holds (\<lambda>d'. doc_at d' \<in> {Some doc, Some ?doc}))"
    by (rule triple_then [OF rewrite_triple [OF a(1,2) assms [OF a(3)]]]) (simp add: triple_def)
  have n: "?doc = doc" if "fmlookup (doc_entries doc) i = None"
  proof -
    have "fmdrop i (doc_entries doc) = doc_entries doc" using that by (intro fmap_ext) auto
    then show ?thesis by simp
  qed
  show "triple (holds (kept d)) (let removed = fmlookup (doc_entries doc) i in
       if removed \<noteq> None then do_then (write_op ?doc) (\<lambda>_. do_return removed) else do_return removed)
    (\<lambda>x. holds (\<lambda>d'. x = fmlookup (doc_entries doc) i \<and> doc_at d' = Some ?doc)) (\<lambda>_. holds (\<lambda>d'. doc_at d' \<in> {Some doc, Some ?doc}))"
    using w n a(2) by (auto simp: Let_def triple_def dest: doc_kept)
qed

lemma transforms_relabel: "transforms m R g \<Longrightarrow> transforms (do_map_err h m) R g"
  unfolding transforms_def using triple_relabel by blast

lemma transforms_return:
  assumes "transforms m R g" "\<And>x doc. R x doc \<Longrightarrow> R' (h x) doc"
  shows "transforms (do_then m (\<lambda>x. do_return (h x))) R' g"
  unfolding transforms_def
proof (intro allI impI)
  fix d doc assume "codec_ok codec" "doc_at d = Some doc"
  then have "triple (\<lambda>w. disk w = d) m (\<lambda>x. holds (\<lambda>d'. R x doc \<and> doc_at d' = Some (g doc)))
       (\<lambda>_. holds (\<lambda>d'. doc_at d' \<in> {Some doc, Some (g doc)}))"
    using assms(1) by (simp add: transforms_def)
  then show "triple (\<lambda>w. disk w = d) (do_then m (\<lambda>x. do_return (h x))) (\<lambda>x. holds (\<lambda>d'. R' x doc \<and> doc_at d' = Some (g doc)))
       (\<lambda>_. holds (\<lambda>d'. doc_at d' \<in> {Some doc, Some (g doc)}))"
    by (rule triple_then) (use assms(2) in \<open>auto simp: triple_def\<close>)
qed

lemma transforms_lift: "(\<And>x. r = Inr x \<Longrightarrow> transforms (f x) R g) \<Longrightarrow> transforms (do_then (do_lift r) f) R g"
  by (cases r) (auto simp: transforms_def do_then_def triple_def)

text \<open>A check that only reads the disk may come first.\<close>

lemma transforms_after:
  assumes pre: "\<And>d. triple (\<lambda>w. disk w = d) pre (\<lambda>_ w. disk w = d) (\<lambda>_ w. disk w = d)"
    and "transforms m R g"
  shows "transforms (do_then pre (\<lambda>_. m)) R g"
  unfolding transforms_def
proof (intro allI impI)
  fix d doc assume a: "codec_ok codec" "doc_at d = Some doc"
  let ?E = "holds (\<lambda>d'. doc_at d' \<in> {Some doc, Some (g doc)})"
  have "triple (\<lambda>w. disk w = d) pre (\<lambda>_ w. disk w = d) (\<lambda>_. ?E)"
    by (rule triple_weaken [OF pre [of d]]) (use a(2) in auto)
  then show "triple (\<lambda>w. disk w = d) (do_then pre (\<lambda>_. m)) (\<lambda>x. holds (\<lambda>d'. R x doc \<and> doc_at d' = Some (g doc))) (\<lambda>_. ?E)"
    by (rule triple_then) (use assms(2) a in \<open>simp add: transforms_def\<close>)
qed

text \<open>What an update does, in terms of the map the store stands for.\<close>

lemma readable_obtain:
  assumes "readable w"
  obtains doc where "codec_ok codec" "doc_at (disk w) = Some doc" "view w = fmlookup (doc_entries doc)"
  using assms by (auto simp: readable_def view_def)

lemma readableI: "codec_ok codec \<Longrightarrow> doc_at (disk w) = Some doc \<Longrightarrow> readable w \<and> view w = fmlookup (doc_entries doc)"
  by (simp add: readable_def view_def)

lemma transforms_run:
  assumes "transforms m R g" "readable s" "m s = (r, t)"
  obtains doc where "doc_at (disk s) = Some doc" "valid doc" "view s = fmlookup (doc_entries doc)" "readable t"
    "view t \<in> {view s, fmlookup (doc_entries (g doc))}"
    "\<And>x. r = Inr x \<Longrightarrow> R x doc \<and> view t = fmlookup (doc_entries (g doc))"
proof -
  obtain doc where doc: "codec_ok codec" "doc_at (disk s) = Some doc" "view s = fmlookup (doc_entries doc)"
    using assms(2) by (rule readable_obtain)
  note tr = assms(1) [unfolded transforms_def, rule_format, OF doc(1,2)]
  have ok: "R x doc \<and> doc_at (disk t) = Some (g doc)" if "r = Inr x" for x
    using triple_ok [OF tr refl] assms(3) that by auto
  have "doc_at (disk t) \<in> {Some doc, Some (g doc)}"
    using ok triple_err [OF tr refl] assms(3) by (cases r) auto
  then have "readable t" "view t \<in> {view s, fmlookup (doc_entries (g doc))}"
    using readableI [OF doc(1), of t] doc(3) by auto
  then show ?thesis using that [OF doc(2) doc_valid [OF doc(2)] doc(3)] ok readableI [OF doc(1), of t] by auto
qed

lemma transforms_put:
  assumes "transforms m R (\<lambda>doc. doc\<lparr>doc_entries := fmupd k v (doc_entries doc)\<rparr>)" "readable s" "m s = (r, t)"
  shows "readable t" "view t = view s \<or> view t = (view s)(k \<mapsto> v)" "r = Inr x \<Longrightarrow> view t = (view s)(k \<mapsto> v)"
  by (rule transforms_run [OF assms]; auto simp: fun_eq_iff)+

lemma transforms_delete:
  assumes "transforms m (\<lambda>x doc. x = fmlookup (doc_entries doc) k) (\<lambda>doc. doc\<lparr>doc_entries := fmdrop k (doc_entries doc)\<rparr>)"
    "readable s" "m s = (r, t)"
  shows "readable t" "view t = view s \<or> view t = (view s)(k := None)"
    "r = Inr x \<Longrightarrow> view s k = x \<and> view t = (view s)(k := None)"
  by (rule transforms_run [OF assms]; auto simp: fun_eq_iff)+

lemma transforms_query:
  assumes "transforms m (\<lambda>x doc. x = h doc) (\<lambda>doc. doc)" "readable s" "m s = (r, t)"
  shows "readable t" "view t = view s" "r = Inr x \<Longrightarrow> \<exists>doc. valid doc \<and> view s = fmlookup (doc_entries doc) \<and> x = h doc"
  by (rule transforms_run [OF assms]; auto)+

lemma view_valid: "readable w \<Longrightarrow> \<exists>doc. valid doc \<and> view w = fmlookup (doc_entries doc)"
  by (erule readable_obtain) (auto dest: doc_valid)

end

section \<open>Keyed stores\<close>

datatype ('k, 'v) store_op = PutOp 'k 'v | DelOp 'k

primrec store_effect :: "('k, 'v) store_op \<Rightarrow> ('k \<Rightarrow> 'v option) \<Rightarrow> 'k \<Rightarrow> 'v option" where
  "store_effect (PutOp k v) m = m(k \<mapsto> v)"
| "store_effect (DelOp k) m = m(k := None)"

text \<open>The errors of a \<open>SecretStore\<close>.\<close>

datatype secret_store_error = SecretUnavailable | AccessDenied | InvalidData | OperationFailed

subsection \<open>Histories of operations that may fail\<close>

text \<open>An operation that fails may or may not have happened (the last rename went through and a later
  call failed); one that succeeds has. \<open>outcomes\<close> are the abstract states a history allows.\<close>

primrec run_all :: "('o \<Rightarrow> 's \<Rightarrow> bool \<times> 's) \<Rightarrow> 'o list \<Rightarrow> 's \<Rightarrow> bool list \<times> 's" where
  "run_all step [] s = ([], s)"
| "run_all step (oper # ops) s =
     (case step oper s of (acknowledged, s1) \<Rightarrow> case run_all step ops s1 of (acks, s2) \<Rightarrow> (acknowledged # acks, s2))"

primrec outcomes :: "('o \<Rightarrow> 'm \<Rightarrow> 'm) \<Rightarrow> ('o \<times> bool) list \<Rightarrow> 'm \<Rightarrow> 'm set" where
  "outcomes effect [] m = {m}"
| "outcomes effect (x # xs) m = outcomes effect xs (effect (fst x) m) \<union> (if snd x then {} else outcomes effect xs m)"

lemma run_all_outcomes:
  assumes step: "\<And>oper s acknowledged t. good s \<Longrightarrow> ok oper \<Longrightarrow> step oper s = (acknowledged, t) \<Longrightarrow>
      good t \<and> (view t = effect oper (view s) \<or> \<not> acknowledged \<and> view t = view s)"
    and "good s" "list_all ok ops" "run_all step ops s = (acks, t)"
  shows "good t \<and> view t \<in> outcomes effect (zip ops acks) (view s)"
  using assms(2-)
proof (induction ops arbitrary: s acks)
  case Nil
  then show ?case by simp
next
  case (Cons oper ops)
  obtain acknowledged s1 acks' where run: "step oper s = (acknowledged, s1)" "run_all step ops s1 = (acks', t)" "acks = acknowledged # acks'"
    using Cons.prems(3) by (auto split: prod.splits)
  have ok: "ok oper" "list_all ok ops" using Cons.prems(2) by simp_all
  note one = step [OF Cons.prems(1) ok(1) run(1)]
  have "good t \<and> view t \<in> outcomes effect (zip ops acks') (view s1)"
    using Cons.IH one ok(2) run(2) by blast
  then show ?case using one run(3) by auto
qed

subsection \<open>The contracts\<close>

text \<open>\<open>typed\<close> says which keys and values the types of the program admit (a \<open>ProfileId\<close> is a parsed
  identifier, and a profile is stored under its own id).\<close>

locale keyed_store =
  fixes readable :: "'s \<Rightarrow> bool" and view :: "'s \<Rightarrow> 'k \<Rightarrow> 'v option" and typed :: "'k \<Rightarrow> 'v \<Rightarrow> bool"
    and put_op :: "'k \<Rightarrow> 'v \<Rightarrow> ('s, 'e, unit) action" and get_op :: "'k \<Rightarrow> ('s, 'e, 'v option) action"
  assumes put_atomic: "readable s \<Longrightarrow> typed k v \<Longrightarrow> put_op k v s = (r, t) \<Longrightarrow>
      readable t \<and> (view t = view s \<or> view t = (view s)(k \<mapsto> v))"
    and put_ok: "readable s \<Longrightarrow> typed k v \<Longrightarrow> put_op k v s = (Inr u, t) \<Longrightarrow> view t = (view s)(k \<mapsto> v)"
    and get_frame: "readable s \<Longrightarrow> get_op k s = (r', t) \<Longrightarrow> readable t \<and> view t = view s"
    and get_ok: "readable s \<Longrightarrow> get_op k s = (Inr x, t) \<Longrightarrow> x = view s k"
begin

text \<open>A sequence of writes, some of which may fail.\<close>

primrec put_all :: "('k \<times> 'v) list \<Rightarrow> 's \<Rightarrow> 's" where
  "put_all [] s = s"
| "put_all (kv # kvs) s = put_all kvs (snd (put_op (fst kv) (snd kv) s))"

abbreviation typed_all :: "('k \<times> 'v) list \<Rightarrow> bool" where
  "typed_all kvs \<equiv> list_all (\<lambda>kv. typed (fst kv) (snd kv)) kvs"

lemma put_step:
  assumes "readable s" "typed k v"
  shows "readable (snd (put_op k v s))" "k' \<noteq> k \<Longrightarrow> view (snd (put_op k v s)) k' = view s k'"
    "view (snd (put_op k v s)) k \<in> {view s k, Some v}"
proof -
  have "readable (snd (put_op k v s)) \<and> (view (snd (put_op k v s)) = view s \<or> view (snd (put_op k v s)) = (view s)(k \<mapsto> v))"
    using put_atomic [OF assms, of "fst (put_op k v s)" "snd (put_op k v s)"] by auto
  then show "readable (snd (put_op k v s))" "k' \<noteq> k \<Longrightarrow> view (snd (put_op k v s)) k' = view s k'"
    "view (snd (put_op k v s)) k \<in> {view s k, Some v}"
    by auto
qed

lemma put_all_readable: "readable s \<Longrightarrow> typed_all kvs \<Longrightarrow> readable (put_all kvs s)"
  by (induction kvs arbitrary: s) (auto intro: put_step)

lemma put_all_other: "readable s \<Longrightarrow> typed_all kvs \<Longrightarrow> k \<notin> fst ` set kvs \<Longrightarrow> view (put_all kvs s) k = view s k"
  by (induction kvs arbitrary: s) (auto simp: put_step)

text \<open>Every value a key ends with is the one it had or one that was written to it.\<close>

lemma put_all_history:
  "readable s \<Longrightarrow> typed_all kvs \<Longrightarrow> view (put_all kvs s) k \<in> insert (view s k) {Some v | v. (k, v) \<in> set kvs}"
proof (induction kvs arbitrary: s)
  case (Cons kv kvs)
  have t: "typed (fst kv) (snd kv)" "typed_all kvs" using Cons.prems(2) by simp_all
  have "view (put_all kvs (snd (put_op (fst kv) (snd kv) s))) k
      \<in> insert (view (snd (put_op (fst kv) (snd kv) s)) k) {Some v | v. (k, v) \<in> set kvs}"
    by (rule Cons.IH [OF put_step(1) [OF Cons.prems(1) t(1)] t(2)])
  moreover have "view (snd (put_op (fst kv) (snd kv) s)) k \<in> insert (view s k) (if fst kv = k then {Some (snd kv)} else {})"
    using put_step(2) [OF Cons.prems(1) t(1), of k] put_step(3) [OF Cons.prems(1) t(1)] by auto
  ultimately show ?case by (cases kv) (auto split: if_splits)
qed simp

text \<open>An acknowledged write is read back, after any later writes to other keys.\<close>

lemma acknowledged_write_durable:
  assumes "readable s" "typed k v" "put_op k v s = (Inr u, t)" "typed_all kvs" "k \<notin> fst ` set kvs"
    "get_op k (put_all kvs t) = (Inr x, s')"
  shows "x = Some v"
proof -
  have r: "readable t" using put_atomic [OF assms(1-3)] by blast
  have "x = view (put_all kvs t) k"
    by (rule get_ok [OF put_all_readable [OF r assms(4)] assms(6)])
  also have "\<dots> = view t k" by (rule put_all_other [OF r assms(4,5)])
  finally show ?thesis using put_ok [OF assms(1-3)] by simp
qed

end

locale deletable_store = keyed_store readable view typed put_op get_op
  for readable :: "'s \<Rightarrow> bool" and view :: "'s \<Rightarrow> 'k \<Rightarrow> 'v option" and typed :: "'k \<Rightarrow> 'v \<Rightarrow> bool"
    and put_op :: "'k \<Rightarrow> 'v \<Rightarrow> ('s, 'e, unit) action" and get_op :: "'k \<Rightarrow> ('s, 'e, 'v option) action" +
  fixes del_op :: "'k \<Rightarrow> ('s, 'e, 'b) action"
  assumes del_atomic: "readable s \<Longrightarrow> del_op k s = (r, t) \<Longrightarrow> readable t \<and> (view t = view s \<or> view t = (view s)(k := None))"
    and del_ok: "readable s \<Longrightarrow> del_op k s = (Inr b, t) \<Longrightarrow> view t = (view s)(k := None)"
begin

lemma deleted_absent:
  assumes "readable s" "del_op k s = (Inr b, t)" "typed_all kvs" "k \<notin> fst ` set kvs" "get_op k (put_all kvs t) = (Inr x, s')"
  shows "x = None"
proof -
  have r: "readable t" using del_atomic [OF assms(1,2)] by blast
  have "x = view t k"
    using get_ok [OF put_all_readable [OF r assms(3)] assms(5)] put_all_other [OF r assms(3,4)] by simp
  then show ?thesis using del_ok [OF assms(1,2)] by simp
qed

primrec store_step :: "('k, 'v) store_op \<Rightarrow> 's \<Rightarrow> bool \<times> 's" where
  "store_step (PutOp k v) s = (case put_op k v s of (r, t) \<Rightarrow> (is_ok r, t))"
| "store_step (DelOp k) s = (case del_op k s of (r, t) \<Rightarrow> (is_ok r, t))"

primrec op_admitted :: "('k, 'v) store_op \<Rightarrow> bool" where
  "op_admitted (PutOp k v) = typed k v"
| "op_admitted (DelOp k) = True"

lemma store_step_effect:
  assumes "readable s" "op_admitted oper" "store_step oper s = (acknowledged, t)"
  shows "readable t \<and> (view t = store_effect oper (view s) \<or> \<not> acknowledged \<and> view t = view s)"
proof (cases oper)
  case (PutOp k v)
  then obtain r where "put_op k v s = (r, t)" "acknowledged = is_ok r" "typed k v" using assms(2,3) by (auto split: prod.splits)
  then show ?thesis using put_atomic [OF assms(1)] put_ok [OF assms(1)] PutOp by (cases r) auto
next
  case (DelOp k)
  then obtain r where "del_op k s = (r, t)" "acknowledged = is_ok r" using assms(3) by (auto split: prod.splits)
  then show ?thesis using del_atomic [OF assms(1)] del_ok [OF assms(1)] DelOp by (cases r) auto
qed

lemma history_outcome:
  assumes "readable s" "list_all op_admitted ops" "run_all store_step ops s = (acks, t)"
    and "get_op k t = (Inr x, u)"
  shows "readable u \<and> view u = view t \<and> (\<exists>m\<in>outcomes store_effect (zip ops acks) (view s). view t = m \<and> x = m k)"
proof -
  have "readable t \<and> view t \<in> outcomes store_effect (zip ops acks) (view s)"
    by (rule run_all_outcomes [where step = store_step and ok = op_admitted]) (fact store_step_effect assms)+
  then show ?thesis using get_frame [OF _ assms(4)] get_ok [OF _ assms(4)] by auto
qed

end

end
