(* ===== verification/Repository_Inventory.thy ===== *)
theory Repository_Inventory
  imports Repository_Files Manifest Store_Interface "HOL-Library.Product_Lexorder" "HOL-Library.Multiset"
begin

text \<open>
  \<^verbatim>\<open>crates/guardian-local-repository/src/{signature_file,verification,inventory}.rs\<close>: the detached
  signature file, the verification of a payload tree against its manifest, and the inventory of the
  sealed backups. SHA-256, the JSON codecs and the signature check are parameters; a directory is
  listed in one call.
\<close>

section \<open>Definitions\<close>

subsection \<open>The signature file\<close>

record disk_signature =
  ds_algorithm :: string
  ds_key_id :: string
  ds_signature :: string

definition disk_signature_new :: "string \<Rightarrow> string \<Rightarrow> byte list \<Rightarrow> disk_signature" where
  "disk_signature_new algorithm key_id signature = \<lparr>ds_algorithm = algorithm, ds_key_id = key_id, ds_signature = hex signature\<rparr>"

definition to_digit16 :: "char \<Rightarrow> nat option" where
  "to_digit16 c =
     (if is_ascii_digit c then Some (code c - 48)
      else if byte_in 97 102 c then Some (code c - 87)
      else if byte_in 65 70 c then Some (code c - 55)
      else None)"

text \<open>\<open>u8::from_str_radix(text, 16)\<close> on two characters: a leading plus sign is accepted.\<close>

definition u8_from_hex :: "char \<Rightarrow> char \<Rightarrow> byte option" where
  "u8_from_hex a b =
     (if a = CHR ''+'' then map_option word_of_nat (to_digit16 b)
      else
        case (to_digit16 a, to_digit16 b) of
          (Some high, Some low) \<Rightarrow> Some (word_of_nat (high * 16 + low))
        | _ \<Rightarrow> None)"

fun decode_pairs :: "string \<Rightarrow> repository_error + byte list" where
  "decode_pairs (a # b # rest) =
     and_then (ok_or (u8_from_hex a b) IntegrityFailure) (\<lambda>byte. and_then (decode_pairs rest) (\<lambda>bytes. Inr (byte # bytes)))"
| "decode_pairs _ = Inr []"

definition disk_signature_decode :: "disk_signature \<Rightarrow> repository_error + byte list" where
  "disk_signature_decode self =
     (if odd (length (ds_signature self)) then Inl IntegrityFailure else decode_pairs (ds_signature self))"

subsection \<open>Verification of payloads\<close>

definition MAX_PAYLOAD_FILES :: nat where "MAX_PAYLOAD_FILES = 100000"

definition MAX_PAYLOAD_DEPTH :: nat where "MAX_PAYLOAD_DEPTH = 64"

definition ascii_lower :: "char \<Rightarrow> char" where
  "ascii_lower c = (if byte_in 65 90 c then char_of (code c + 32) else c)"

definition hash_file :: "hash_function \<Rightarrow> path \<Rightarrow> string repo" where
  "hash_file sha256 path =
     do_then (do_map_err (Io ''open staged payload'') (open_path path)) (\<lambda>_.
     do_then (do_map_err (Io ''hash staged payload'') (read_file path)) (\<lambda>bytes.
     do_return (hex (sha256 bytes))))"

definition strip_root :: "path \<Rightarrow> path \<Rightarrow> path option" where
  "strip_root root path = (if prefix root path then Some (drop (length root) path) else None)"

function walk_payload :: "path \<Rightarrow> path \<Rightarrow> nat \<Rightarrow> path set \<Rightarrow> path set repo" where
  "walk_payload root directory depth files =
     (if depth > MAX_PAYLOAD_DEPTH then do_fail IntegrityFailure
      else
        do_then (do_map_err (Io ''list staged payload'') (read_dir directory)) (\<lambda>names.
        do_fold (\<lambda>name files.
          do_then (do_map_err (Io ''inspect staged payload type'') (stat (directory @ [name]))) (\<lambda>file_type.
            case file_type of
              FsLink _ \<Rightarrow> do_fail UnsafeFilesystemEntry
            | FsDir \<Rightarrow> walk_payload root (directory @ [name]) (depth + 1) files
            | FsFile _ \<Rightarrow>
                do_then (do_lift (ok_or (strip_root root (directory @ [name])) UnsafeFilesystemEntry)) (\<lambda>relative.
                  let files = insert relative files in
                  if card files > MAX_PAYLOAD_FILES then do_fail IntegrityFailure else do_return files)
            | FsSpecial \<Rightarrow> do_fail UnsafeFilesystemEntry)) names files))"
  by pat_completeness auto
termination by (relation "measure (\<lambda>(_, _, depth, _). Suc MAX_PAYLOAD_DEPTH - depth)") auto

declare walk_payload.simps [simp del]

definition collect_payload_files :: "path \<Rightarrow> path set repo" where
  "collect_payload_files root =
     (let payload = root @ [''payload''] in
      do_then (ensure_directory payload) (\<lambda>_. walk_payload root payload 0 {}))"

text \<open>The path of a payload below the root of its backup, one component per segment.\<close>

definition payload_file :: "path \<Rightarrow> payload_path \<Rightarrow> path" where
  "payload_file root path = root @ split_on slash path"

definition verify_payload_entry :: "hash_function \<Rightarrow> path \<Rightarrow> payload_entry \<Rightarrow> unit repo" where
  "verify_payload_entry sha256 payload_root entry =
     (let path = payload_file payload_root (py_path entry) in
      do_then (do_map_err (Io ''inspect staged payload'') (stat path)) (\<lambda>metadata.
        case metadata of
          FsFile bytes \<Rightarrow>
            if length bytes \<noteq> unat (py_byte_length entry) then do_fail IntegrityFailure
            else
              do_then (hash_file sha256 path) (\<lambda>hash.
                if hash \<noteq> map ascii_lower (py_sha256 entry) then do_fail IntegrityFailure else do_return ())
        | _ \<Rightarrow> do_fail IntegrityFailure))"

definition verify_payload_tree :: "hash_function \<Rightarrow> path \<Rightarrow> manifest \<Rightarrow> unit repo" where
  "verify_payload_tree sha256 payload_root manifest =
     do_then (ensure_directory payload_root) (\<lambda>_.
     do_then (collect_payload_files payload_root) (\<lambda>actual.
       let expected = set (map (\<lambda>entry. split_on slash (py_path entry)) (mf_payloads manifest)) in
       if actual \<noteq> expected then do_fail IntegrityFailure
       else do_each (verify_payload_entry sha256 payload_root) (mf_payloads manifest)))"

definition verify_staged_payloads :: "b64_decoder \<Rightarrow> hash_function \<Rightarrow> path \<Rightarrow> manifest \<Rightarrow> unit repo" where
  "verify_staged_payloads b64 sha256 payload_root manifest =
     do_then (do_lift (map_err RepoManifest (validate_for_verification b64 manifest))) (\<lambda>_.
     verify_payload_tree sha256 payload_root manifest)"

definition verify_sealed_payloads :: "b64_decoder \<Rightarrow> hash_function \<Rightarrow> path \<Rightarrow> manifest \<Rightarrow> unit repo" where
  "verify_sealed_payloads b64 sha256 payload_root manifest =
     do_then (do_lift (map_err RepoManifest (validate_sealed b64 manifest))) (\<lambda>_.
     verify_payload_tree sha256 payload_root manifest)"

subsection \<open>The inventory of sealed backups\<close>

text \<open>The code outside the crate the inventory calls.\<close>

record repository_env =
  re_b64 :: b64_decoder
  re_sha256 :: hash_function
  re_manifest_codec :: "manifest json_codec"
  re_signature_codec :: "disk_signature json_codec"

record trusted_backup =
  tb_backup_id :: backup_id
  tb_sealed_at :: timestamp

definition read_regular_file :: "path \<Rightarrow> string \<Rightarrow> byte list repo" where
  "read_regular_file path operation =
     do_then (do_map_err (Io ''inspect sealed metadata file'') (stat path)) (\<lambda>metadata.
       case metadata of
         FsFile _ \<Rightarrow> do_map_err (Io operation) (read_file path)
       | _ \<Rightarrow> do_fail UnsafeFilesystemEntry)"

definition verify_signature :: "repository_env \<Rightarrow> path \<Rightarrow> manifest \<Rightarrow> byte list \<Rightarrow> manifest_verifier \<Rightarrow> unit repo" where
  "verify_signature env path manifest canonical verifier =
     do_then (read_regular_file (path @ [''manifest.sig'']) ''read manifest signature'') (\<lambda>bytes.
     do_then (do_lift (ok_or (from_json (re_signature_codec env) bytes) IntegrityFailure)) (\<lambda>sig.
     do_then (do_lift (ok_or (mf_signature manifest) IntegrityFailure)) (\<lambda>metadata.
       if ds_algorithm sig \<noteq> sm_algorithm metadata \<or> ds_key_id sig \<noteq> sm_key_id metadata then do_fail IntegrityFailure
       else
         do_then (do_lift (disk_signature_decode sig)) (\<lambda>signature.
         do_lift (map_err RepoSigning (verifier (ds_algorithm sig) (ds_key_id sig) canonical signature))))))"

definition load_verified_manifest :: "repository_env \<Rightarrow> manifest_verifier \<Rightarrow> path \<Rightarrow> manifest repo" where
  "load_verified_manifest env verifier path =
     do_then (ensure_directory path) (\<lambda>_.
     do_then (do_lift (ok_or (if path = [] then None else Some (last path)) UnsafeFilesystemEntry)) (\<lambda>directory_name.
     do_then (do_lift (map_err (\<lambda>_. UnsafeFilesystemEntry) (backup_id_parse directory_name))) (\<lambda>directory_id.
     do_then (read_regular_file (path @ [''manifest.json'']) ''read sealed manifest'') (\<lambda>canonical.
     do_then (do_lift (ok_or (from_json (re_manifest_codec env) canonical) IntegrityFailure)) (\<lambda>manifest.
     do_then (do_lift (map_err RepoManifest (validate_sealed (re_b64 env) manifest))) (\<lambda>_.
     do_then (if mf_backup_id manifest \<noteq> directory_id then do_fail IntegrityFailure
              else
                do_then (do_lift (map_err RepoManifest (canonical_bytes (to_json (re_manifest_codec env)) manifest))) (\<lambda>bytes.
                  if bytes \<noteq> canonical then do_fail IntegrityFailure else do_return ())) (\<lambda>_.
     do_then (verify_signature env path manifest canonical verifier) (\<lambda>_.
     do_then (verify_sealed_payloads (re_b64 env) (re_sha256 env) path manifest) (\<lambda>_.
     do_return manifest)))))))))"

definition inspect_backup :: "repository_env \<Rightarrow> manifest_verifier \<Rightarrow> path \<Rightarrow> trusted_backup repo" where
  "inspect_backup env verifier path =
     do_then (load_verified_manifest env verifier path) (\<lambda>manifest.
     do_then (do_lift (ok_or (mf_sealed_at manifest) IntegrityFailure)) (\<lambda>sealed_at.
     do_return \<lparr>tb_backup_id = mf_backup_id manifest, tb_sealed_at = sealed_at\<rparr>))"

definition trusted_inventory :: "repository_env \<Rightarrow> path \<Rightarrow> manifest_verifier \<Rightarrow> trusted_backup list repo" where
  "trusted_inventory env backups_root verifier =
     do_then (ensure_directory backups_root) (\<lambda>_.
     do_then (do_map_err (Io ''list sealed backups'') (read_dir backups_root)) (\<lambda>names.
     do_then (do_fold (\<lambda>name inventory.
         do_then (inspect_backup env verifier (backups_root @ [name])) (\<lambda>backup. do_return (inventory @ [backup]))) names []) (\<lambda>inventory.
     do_return (sort_key (\<lambda>backup. (tb_sealed_at backup, tb_backup_id backup)) inventory))))"

section \<open>What a payload tree holds\<close>

text \<open>The entries below a directory that a walk reaches: every directory on the way is a real one.\<close>

definition visible :: "disk \<Rightarrow> path \<Rightarrow> path \<Rightarrow> bool" where
  "visible d dir q \<longleftrightarrow> strict_prefix dir q \<and> entry_at d q \<noteq> None \<and> (\<forall>r. prefix dir r \<and> strict_prefix r q \<longrightarrow> entry_at d r = Some FsDir)"

definition is_file :: "disk \<Rightarrow> path \<Rightarrow> bool" where
  "is_file d q \<longleftrightarrow> (\<exists>bytes. entry_at d q = Some (FsFile bytes))"

text \<open>Only directories, at most \<open>limit\<close> levels deep, and regular files.\<close>

definition plain_tree :: "nat \<Rightarrow> disk \<Rightarrow> path \<Rightarrow> bool" where
  "plain_tree limit d dir \<longleftrightarrow> entry_at d dir = Some FsDir \<and>
     (\<forall>q. visible d dir q \<longrightarrow> is_file d q \<or> entry_at d q = Some FsDir \<and> length q - length dir \<le> limit)"

definition files_below :: "path \<Rightarrow> disk \<Rightarrow> path \<Rightarrow> path set" where
  "files_below root d dir = {drop (length root) q | q. visible d dir q \<and> is_file d q}"

lemma visible_step:
  "visible d dir q \<longleftrightarrow> entry_at d dir = Some FsDir \<and>
     (\<exists>n\<in>set (children d dir). q = dir @ [n] \<or> entry_at d (dir @ [n]) = Some FsDir \<and> visible d (dir @ [n]) q)"
proof
  assume v: "visible d dir q"
  then have "strict_prefix dir q" by (simp add: visible_def)
  then obtain n r where q: "q = dir @ n # r" by (auto elim: strict_prefixE')
  have dir: "entry_at d dir = Some FsDir" using v q by (auto simp: visible_def strict_prefix_def)
  show "entry_at d dir = Some FsDir \<and>
     (\<exists>n\<in>set (children d dir). q = dir @ [n] \<or> entry_at d (dir @ [n]) = Some FsDir \<and> visible d (dir @ [n]) q)"
  proof (cases r)
    case Nil
    then show ?thesis using v q dir by (auto simp: visible_def children_entry)
  next
    case (Cons m r')
    then have sp: "strict_prefix (dir @ [n]) q" using q by (auto simp: strict_prefix_def prefix_def)
    then have e: "entry_at d (dir @ [n]) = Some FsDir" using v by (auto simp: visible_def)
    have "visible d (dir @ [n]) q"
      using v sp unfolding visible_def by (metis prefixI prefix_order.trans)
    then show ?thesis using dir e by (auto simp: children_entry)
  qed
next
  assume a: "entry_at d dir = Some FsDir \<and>
     (\<exists>n\<in>set (children d dir). q = dir @ [n] \<or> entry_at d (dir @ [n]) = Some FsDir \<and> visible d (dir @ [n]) q)"
  then obtain n where n: "n \<in> set (children d dir)" "q = dir @ [n] \<or> entry_at d (dir @ [n]) = Some FsDir \<and> visible d (dir @ [n]) q" by blast
  have above: "r = dir \<or> prefix (dir @ [n]) r" if pr: "prefix dir r" "strict_prefix r q" for r
  proof -
    obtain s where s: "r = dir @ s" using pr(1) by (auto simp: prefix_def)
    show ?thesis
    proof (cases s)
      case (Cons m s')
      have "prefix (dir @ [n]) q" using n(2) by (auto simp: visible_def strict_prefix_def)
      moreover have "prefix (dir @ [m]) q" using pr(2) s Cons by (auto simp: strict_prefix_def prefix_def)
      ultimately have "m = n" by (auto simp: prefix_def)
      then show ?thesis using s Cons by simp
    qed (use s in simp)
  qed
  from n(2) show "visible d dir q"
  proof
    assume q: "q = dir @ [n]"
    have "entry_at d r = Some FsDir" if "prefix dir r" "strict_prefix r q" for r
      using above [OF that] that(2) q a by auto
    then show ?thesis using n(1) q by (auto simp: visible_def children_entry strict_prefix_def)
  next
    assume e: "entry_at d (dir @ [n]) = Some FsDir \<and> visible d (dir @ [n]) q"
    have "entry_at d r = Some FsDir" if "prefix dir r" "strict_prefix r q" for r
      using above [OF that] that(2) e a unfolding visible_def by blast
    then show ?thesis using e by (auto simp: visible_def strict_prefix_def prefix_def)
  qed
qed

lemma plain_tree_step:
  "plain_tree limit d dir \<longleftrightarrow> entry_at d dir = Some FsDir \<and>
     (\<forall>n\<in>set (children d dir). is_file d (dir @ [n]) \<or> limit > 0 \<and> plain_tree (limit - 1) d (dir @ [n]))"
proof
  assume p: "plain_tree limit d dir"
  have "is_file d (dir @ [n]) \<or> limit > 0 \<and> plain_tree (limit - 1) d (dir @ [n])" if n: "n \<in> set (children d dir)" for n
  proof (cases "is_file d (dir @ [n])")
    case False
    have v: "visible d dir (dir @ [n])" using p n by (subst visible_step) (auto simp: plain_tree_def)
    then have e: "entry_at d (dir @ [n]) = Some FsDir" "0 < limit" using p False by (auto simp: plain_tree_def)
    have "is_file d q \<or> entry_at d q = Some FsDir \<and> length q - length (dir @ [n]) \<le> limit - 1" if "visible d (dir @ [n]) q" for q
    proof -
      have "visible d dir q" using that e(1) n p by (subst visible_step) (auto simp: plain_tree_def)
      then show ?thesis using p by (fastforce simp: plain_tree_def)
    qed
    then show ?thesis using e by (auto simp: plain_tree_def)
  qed simp
  then show "entry_at d dir = Some FsDir \<and> (\<forall>n\<in>set (children d dir). is_file d (dir @ [n]) \<or> limit > 0 \<and> plain_tree (limit - 1) d (dir @ [n]))"
    using p by (simp add: plain_tree_def)
next
  assume a: "entry_at d dir = Some FsDir \<and> (\<forall>n\<in>set (children d dir). is_file d (dir @ [n]) \<or> limit > 0 \<and> plain_tree (limit - 1) d (dir @ [n]))"
  have "is_file d q \<or> entry_at d q = Some FsDir \<and> length q - length dir \<le> limit" if q: "visible d dir q" for q
  proof -
    obtain n where n: "n \<in> set (children d dir)" "q = dir @ [n] \<or> entry_at d (dir @ [n]) = Some FsDir \<and> visible d (dir @ [n]) q"
      using q visible_step [of d dir q] by blast
    from n(2) show ?thesis
    proof
      assume "q = dir @ [n]"
      then show ?thesis using a n(1) by (auto simp: plain_tree_def)
    next
      assume e: "entry_at d (dir @ [n]) = Some FsDir \<and> visible d (dir @ [n]) q"
      then have "\<not> is_file d (dir @ [n])" by (simp add: is_file_def)
      then have "0 < limit" "plain_tree (limit - 1) d (dir @ [n])" using a n(1) by blast+
      then show ?thesis using e by (fastforce simp: plain_tree_def)
    qed
  qed
  then show "plain_tree limit d dir" using a by (simp add: plain_tree_def)
qed

lemma files_below_step:
  assumes "entry_at d dir = Some FsDir"
  shows "files_below root d dir =
    (\<Union>n\<in>set (children d dir). if is_file d (dir @ [n]) then {drop (length root) (dir @ [n])} else files_below root d (dir @ [n]))"
proof -
  have dirs: "visible d (dir @ [n]) q \<Longrightarrow> entry_at d (dir @ [n]) = Some FsDir" for n q by (auto simp: visible_def strict_prefix_def)
  have "visible d dir q \<and> is_file d q \<longleftrightarrow> (\<exists>n\<in>set (children d dir). q = dir @ [n] \<and> is_file d q \<or> visible d (dir @ [n]) q \<and> is_file d q)" for q
    unfolding visible_step [of d dir q] using assms dirs by blast
  then have split: "files_below root d dir = (\<Union>n\<in>set (children d dir).
      {drop (length root) q | q. q = dir @ [n] \<and> is_file d q} \<union> files_below root d (dir @ [n]))"
    unfolding files_below_def by blast
  have "{drop (length root) q | q. q = dir @ [n] \<and> is_file d q} \<union> files_below root d (dir @ [n]) =
      (if is_file d (dir @ [n]) then {drop (length root) (dir @ [n])} else files_below root d (dir @ [n]))" for n
  proof (cases "is_file d (dir @ [n])")
    case True
    then have "files_below root d (dir @ [n]) = {}" using dirs by (auto simp: files_below_def is_file_def)
    then show ?thesis using True by auto
  qed auto
  then show ?thesis unfolding split by simp
qed

section \<open>The walk\<close>

lemma do_then_run: "m s = (Inr x, t) \<Longrightarrow> do_then m f s = f x t"
  by (simp add: do_then_def)

lemma triple_fold:
  assumes "\<And>x acc. x \<in> set xs \<Longrightarrow> triple P (f x acc) (\<lambda>res s. P s \<and> G x \<and> res = acc \<union> F x) E"
  shows "triple P (do_fold f xs acc) (\<lambda>res s. P s \<and> (\<forall>x\<in>set xs. G x) \<and> res = acc \<union> (\<Union>x\<in>set xs. F x)) E"
  using assms
proof (induction xs arbitrary: acc)
  case Nil
  then show ?case by (simp add: triple_def)
next
  case (Cons x xs)
  have x: "triple P (f x acc) (\<lambda>res s. P s \<and> G x \<and> res = acc \<union> F x) E" using Cons.prems by simp
  have rest: "triple P (do_fold f xs acc') (\<lambda>res s. P s \<and> (\<forall>x\<in>set xs. G x) \<and> res = acc' \<union> (\<Union>x\<in>set xs. F x)) E" for acc'
    using Cons by simp
  show ?case
    unfolding do_fold.simps
  proof (rule triple_then [OF x])
    fix acc'
    show "triple (\<lambda>s. P s \<and> G x \<and> acc' = acc \<union> F x) (do_fold f xs acc')
       (\<lambda>res s. P s \<and> (\<forall>x\<in>set (x # xs). G x) \<and> res = acc \<union> (\<Union>x\<in>set (x # xs). F x)) E"
      using rest [of acc'] by (fastforce simp: triple_def split: prod.splits sum.splits)
  qed
qed

lemma fold_quiet:
  assumes "\<And>x acc. x \<in> set xs \<Longrightarrow> finite acc \<Longrightarrow> card (acc \<union> F x) \<le> m \<Longrightarrow> f x acc (quiet d) = (Inr (acc \<union> F x), quiet d)"
    and "\<And>x. x \<in> set xs \<Longrightarrow> finite (F x)" "finite acc" "card (acc \<union> (\<Union>x\<in>set xs. F x)) \<le> m"
  shows "do_fold f xs acc (quiet d) = (Inr (acc \<union> (\<Union>x\<in>set xs. F x)), quiet d)"
  using assms
proof (induction xs arbitrary: acc)
  case (Cons x xs)
  have fin: "finite (acc \<union> (\<Union>x\<in>set (x # xs). F x))" using Cons.prems(2,3) by auto
  have "card (acc \<union> F x) \<le> card (acc \<union> (\<Union>x\<in>set (x # xs). F x))" by (rule card_mono [OF fin]) auto
  then have one: "f x acc (quiet d) = (Inr (acc \<union> F x), quiet d)" using Cons.prems by auto
  have "do_fold f xs (acc \<union> F x) (quiet d) = (Inr (acc \<union> F x \<union> (\<Union>x\<in>set xs. F x)), quiet d)"
    using Cons.prems by (intro Cons.IH) (auto simp: Un_assoc)
  then show ?case using one by (simp add: do_then_def Un_assoc)
qed simp

lemma finite_files_below: "finite (files_below root d dir)"
proof -
  have "{q. visible d dir q} \<subseteq> fst ` set d"
    by (auto simp: visible_def entry_at_def dest: map_of_SomeD split: if_splits intro: rev_image_eqI)
  then have "finite {q. visible d dir q}" by (rule finite_subset) simp
  then show ?thesis unfolding files_below_def by simp
qed

lemma walk_payload_sound:
  assumes "prefix root dir"
  shows "triple (\<lambda>w. disk w = d) (walk_payload root dir depth files)
    (\<lambda>res w. disk w = d \<and> depth \<le> MAX_PAYLOAD_DEPTH \<and> plain_tree (MAX_PAYLOAD_DEPTH - depth) d dir \<and> res = files \<union> files_below root d dir)
    (\<lambda>_ w. disk w = d)"
  using assms
proof (induction root dir depth files rule: walk_payload.induct)
  case (1 root dir depth files)
  let ?E = "\<lambda>_ :: repository_error. \<lambda>w. disk w = d"
  let ?sub = "\<lambda>n. if is_file d (dir @ [n]) then {drop (length root) (dir @ [n])} else files_below root d (dir @ [n])"
  let ?good = "\<lambda>n. is_file d (dir @ [n]) \<or> MAX_PAYLOAD_DEPTH - depth > 0 \<and> plain_tree (MAX_PAYLOAD_DEPTH - depth - 1) d (dir @ [n])"
  show ?case
  proof (cases "depth > MAX_PAYLOAD_DEPTH")
    case True
    then show ?thesis by (simp add: walk_payload.simps [of root dir] triple_def)
  next
    case False
    have list: "triple (\<lambda>w. disk w = d) (do_map_err (Io ''list staged payload'') (read_dir dir))
        (\<lambda>names w. disk w = d \<and> entry_at d dir = Some FsDir \<and> names = children d dir) ?E"
      unfolding read_dir_def by (rule triple_relabel) (rule io_rule [of "\<lambda>d'. d' = d"]; auto split: if_splits)
    let ?step = "\<lambda>name files.
          do_then (do_map_err (Io ''inspect staged payload type'') (stat (dir @ [name]))) (\<lambda>file_type.
            case file_type of
              FsLink _ \<Rightarrow> do_fail UnsafeFilesystemEntry
            | FsDir \<Rightarrow> walk_payload root (dir @ [name]) (depth + 1) files
            | FsFile _ \<Rightarrow>
                do_then (do_lift (ok_or (strip_root root (dir @ [name])) UnsafeFilesystemEntry)) (\<lambda>relative.
                  let files = insert relative files in
                  if card files > MAX_PAYLOAD_FILES then do_fail IntegrityFailure else do_return files)
            | FsSpecial \<Rightarrow> do_fail UnsafeFilesystemEntry)"
    have one: "triple (\<lambda>w. disk w = d) (?step n acc) (\<lambda>res w. disk w = d \<and> ?good n \<and> res = acc \<union> ?sub n) ?E" for n acc
    proof (rule triple_then)
      show "triple (\<lambda>w. disk w = d) (do_map_err (Io ''inspect staged payload type'') (stat (dir @ [n])))
          (\<lambda>e w. disk w = d \<and> entry_at d (dir @ [n]) = Some e) ?E"
        by (rule triple_relabel) (rule triple_weaken [OF stat_triple [of "\<lambda>d'. d' = d"]]; auto)
      fix e
      have pre: "prefix root (dir @ [n])" using 1(2) by auto
      show "triple (\<lambda>w. disk w = d \<and> entry_at d (dir @ [n]) = Some e) (case e of
              FsLink _ \<Rightarrow> do_fail UnsafeFilesystemEntry
            | FsDir \<Rightarrow> walk_payload root (dir @ [n]) (depth + 1) acc
            | FsFile _ \<Rightarrow>
                do_then (do_lift (ok_or (strip_root root (dir @ [n])) UnsafeFilesystemEntry)) (\<lambda>relative.
                  let files = insert relative acc in
                  if card files > MAX_PAYLOAD_FILES then do_fail IntegrityFailure else do_return files)
            | FsSpecial \<Rightarrow> do_fail UnsafeFilesystemEntry) (\<lambda>res w. disk w = d \<and> ?good n \<and> res = acc \<union> ?sub n) ?E"
      proof (cases e)
        case FsDir
        show ?thesis
          unfolding FsDir entry.case
          by (rule triple_weaken [OF 1(1) [OF False pre]]) (auto simp: is_file_def plain_tree_def)
      next
        case (FsFile bytes)
        then show ?thesis using pre by (auto simp: triple_def do_then_def Let_def strip_root_def is_file_def ok_or_def)
      qed (simp_all add: triple_def)
    qed
    have fold: "triple (\<lambda>w. disk w = d) (do_fold ?step names files)
        (\<lambda>res w. disk w = d \<and> (\<forall>n\<in>set names. ?good n) \<and> res = files \<union> (\<Union>n\<in>set names. ?sub n)) ?E" for names
      by (rule triple_fold [OF one])
    have "triple (\<lambda>w. disk w = d) (do_then (do_map_err (Io ''list staged payload'') (read_dir dir)) (\<lambda>names. do_fold ?step names files))
      (\<lambda>res w. disk w = d \<and> depth \<le> MAX_PAYLOAD_DEPTH \<and> plain_tree (MAX_PAYLOAD_DEPTH - depth) d dir \<and> res = files \<union> files_below root d dir) ?E"
    proof (rule triple_then [OF list])
      fix names
      show "triple (\<lambda>w. disk w = d \<and> entry_at d dir = Some FsDir \<and> names = children d dir) (do_fold ?step names files)
        (\<lambda>res w. disk w = d \<and> depth \<le> MAX_PAYLOAD_DEPTH \<and> plain_tree (MAX_PAYLOAD_DEPTH - depth) d dir \<and> res = files \<union> files_below root d dir) ?E"
      proof (cases "entry_at d dir = Some FsDir \<and> names = children d dir")
        case True
        then have dir: "entry_at d dir = Some FsDir" and names: "names = children d dir" by blast+
        show ?thesis
          by (rule triple_weaken [OF fold [of names]])
            (use False dir in \<open>auto simp: plain_tree_step [of _ d dir] files_below_step [OF dir] names\<close>)
      qed (auto simp: triple_def)
    qed
    then show ?thesis by (simp only: walk_payload.simps [of root dir depth files] False if_False)
  qed
qed

lemma walk_payload_complete:
  assumes "prefix root dir" "depth \<le> MAX_PAYLOAD_DEPTH" "plain_tree (MAX_PAYLOAD_DEPTH - depth) d dir" "finite files"
    "card (files \<union> files_below root d dir) \<le> MAX_PAYLOAD_FILES"
  shows "walk_payload root dir depth files (quiet d) = (Inr (files \<union> files_below root d dir), quiet d)"
  using assms
proof (induction root dir depth files rule: walk_payload.induct)
  case (1 root dir depth files)
  let ?sub = "\<lambda>n. if is_file d (dir @ [n]) then {drop (length root) (dir @ [n])} else files_below root d (dir @ [n])"
  let ?step = "\<lambda>name files.
          do_then (do_map_err (Io ''inspect staged payload type'') (stat (dir @ [name]))) (\<lambda>file_type.
            case file_type of
              FsLink _ \<Rightarrow> do_fail UnsafeFilesystemEntry
            | FsDir \<Rightarrow> walk_payload root (dir @ [name]) (depth + 1) files
            | FsFile _ \<Rightarrow>
                do_then (do_lift (ok_or (strip_root root (dir @ [name])) UnsafeFilesystemEntry)) (\<lambda>relative.
                  let files = insert relative files in
                  if card files > MAX_PAYLOAD_FILES then do_fail IntegrityFailure else do_return files)
            | FsSpecial \<Rightarrow> do_fail UnsafeFilesystemEntry)"
  have dir: "entry_at d dir = Some FsDir" using 1(4) by (simp add: plain_tree_def)
  have one: "?step n acc (quiet d) = (Inr (acc \<union> ?sub n), quiet d)"
    if n: "n \<in> set (children d dir)" and fin: "finite acc" and le: "card (acc \<union> ?sub n) \<le> MAX_PAYLOAD_FILES" for n acc
  proof -
    have pre: "prefix root (dir @ [n])" using 1(2) by auto
    consider (regular) bytes where "entry_at d (dir @ [n]) = Some (FsFile bytes)"
      | (below) "\<not> is_file d (dir @ [n])" "entry_at d (dir @ [n]) = Some FsDir" "depth + 1 \<le> MAX_PAYLOAD_DEPTH" "plain_tree (MAX_PAYLOAD_DEPTH - (depth + 1)) d (dir @ [n])"
      using 1(4) n by (subst (asm) plain_tree_step) (fastforce simp: is_file_def plain_tree_def)
    then show ?thesis
    proof cases
      case (regular bytes)
      then show ?thesis using regular le pre by (simp add: is_file_def do_then_def do_map_err_def quiet_simps ok_or_def strip_root_def)
    next
      case below
      have "walk_payload root (dir @ [n]) (depth + 1) acc (quiet d) = (Inr (acc \<union> files_below root d (dir @ [n])), quiet d)"
        using 1(1) [of n acc] 1(3) below pre fin le by simp
      then show ?thesis using below by (simp add: do_then_def do_map_err_def quiet_simps ok_or_def)
    qed
  qed
  have fin: "finite (?sub n)" for n by (simp add: finite_files_below)
  have fold: "do_fold ?step (children d dir) files (quiet d) = (Inr (files \<union> files_below root d dir), quiet d)"
    unfolding files_below_step [OF dir, of root]
    by (rule fold_quiet [where F = ?sub and m = MAX_PAYLOAD_FILES]) (use one fin 1(5,6) in \<open>simp_all add: files_below_step [OF dir]\<close>)
  have list: "do_map_err (Io ''list staged payload'') (read_dir dir) (quiet d) = (Inr (children d dir), quiet d)"
    using dir by (simp add: do_map_err_def quiet_simps)
  have "\<not> depth > MAX_PAYLOAD_DEPTH" using 1(3) by simp
  then show ?case by (simp only: walk_payload.simps [of root dir depth files] if_False do_then_run [of "do_map_err (Io ''list staged payload'') (read_dir dir)", OF list] fold)
qed

lemma triple_fold_inv:
  assumes "\<And>x acc. triple (\<lambda>_. I acc) (f x acc) (\<lambda>res _. I res) E"
  shows "triple (\<lambda>_. I acc) (do_fold f xs acc) (\<lambda>res _. I res) E"
proof (induction xs arbitrary: acc)
  case (Cons x xs)
  show ?case unfolding do_fold.simps by (rule triple_then [OF assms Cons.IH])
qed (simp add: triple_def)

lemma triple_conj:
  assumes "triple P m Q E" "triple P' m Q' E'"
  shows "triple (\<lambda>s. P s \<and> P' s) m (\<lambda>x s. Q x s \<and> Q' x s) (\<lambda>e s. E e s \<and> E' e s)"
  using assms unfolding triple_def by (fastforce split: prod.splits sum.splits)

lemma triple_const: "(c \<Longrightarrow> triple P m Q E) \<Longrightarrow> triple (\<lambda>s. P s \<and> c) m (\<lambda>x s. Q x s \<and> c) E"
  by (cases c) (simp_all add: triple_def)

lemma walk_payload_bound:
  "triple (\<lambda>_. card files \<le> MAX_PAYLOAD_FILES) (walk_payload root dir depth files) (\<lambda>res _. card res \<le> MAX_PAYLOAD_FILES) (\<lambda>_ _. True)"
proof (induction root dir depth files rule: walk_payload.induct)
  case (1 root dir depth files)
  let ?I = "\<lambda>acc. card acc \<le> MAX_PAYLOAD_FILES"
  let ?step = "\<lambda>name files.
          do_then (do_map_err (Io ''inspect staged payload type'') (stat (dir @ [name]))) (\<lambda>file_type.
            case file_type of
              FsLink _ \<Rightarrow> do_fail UnsafeFilesystemEntry
            | FsDir \<Rightarrow> walk_payload root (dir @ [name]) (depth + 1) files
            | FsFile _ \<Rightarrow>
                do_then (do_lift (ok_or (strip_root root (dir @ [name])) UnsafeFilesystemEntry)) (\<lambda>relative.
                  let files = insert relative files in
                  if card files > MAX_PAYLOAD_FILES then do_fail IntegrityFailure else do_return files)
            | FsSpecial \<Rightarrow> do_fail UnsafeFilesystemEntry)"
  show ?case
  proof (cases "depth > MAX_PAYLOAD_DEPTH")
    case True
    then show ?thesis by (simp add: walk_payload.simps [of root dir] triple_def)
  next
    case False
    have any: "triple (\<lambda>_. ?I acc) m (\<lambda>_ _. ?I acc) (\<lambda>_ _. True)" for acc and m :: "'x repo"
      by (auto simp: triple_def split: prod.splits sum.splits)
    have one: "triple (\<lambda>_. ?I acc) (?step n acc) (\<lambda>res _. ?I res) (\<lambda>_ _. True)" for n acc
    proof (rule triple_then [OF any])
      fix e
      show "triple (\<lambda>_. ?I acc) (case e of
              FsLink _ \<Rightarrow> do_fail UnsafeFilesystemEntry
            | FsDir \<Rightarrow> walk_payload root (dir @ [n]) (depth + 1) acc
            | FsFile _ \<Rightarrow>
                do_then (do_lift (ok_or (strip_root root (dir @ [n])) UnsafeFilesystemEntry)) (\<lambda>relative.
                  let files = insert relative acc in
                  if card files > MAX_PAYLOAD_FILES then do_fail IntegrityFailure else do_return files)
            | FsSpecial \<Rightarrow> do_fail UnsafeFilesystemEntry) (\<lambda>res _. ?I res) (\<lambda>_ _. True)"
        using 1 [OF False] by (cases e) (auto simp: triple_def do_then_def Let_def split: sum.splits)
    qed
    have "triple (\<lambda>_. ?I files) (do_then (do_map_err (Io ''list staged payload'') (read_dir dir)) (\<lambda>names. do_fold ?step names files))
      (\<lambda>res _. ?I res) (\<lambda>_ _. True)"
      by (rule triple_then [OF any triple_fold_inv [OF one]])
    then show ?thesis by (simp only: walk_payload.simps [of root dir depth files] False if_False)
  qed
qed

section \<open>Verified backups\<close>

definition payload_matches :: "hash_function \<Rightarrow> path \<Rightarrow> disk \<Rightarrow> payload_entry \<Rightarrow> bool" where
  "payload_matches sha256 root d entry \<longleftrightarrow>
     (\<exists>bytes. entry_at d (payload_file root (py_path entry)) = Some (FsFile bytes) \<and> length bytes = unat (py_byte_length entry) \<and>
        hex (sha256 bytes) = map ascii_lower (py_sha256 entry))"

text \<open>The payload tree is exactly what the manifest lists.\<close>

definition payloads_match :: "hash_function \<Rightarrow> path \<Rightarrow> manifest \<Rightarrow> disk \<Rightarrow> bool" where
  "payloads_match sha256 root manifest d \<longleftrightarrow>
     entry_at d root = Some FsDir \<and> plain_tree MAX_PAYLOAD_DEPTH d (root @ [''payload'']) \<and>
     files_below root d (root @ [''payload'']) = (\<lambda>entry. split_on slash (py_path entry)) ` set (mf_payloads manifest) \<and>
     card ((\<lambda>entry. split_on slash (py_path entry)) ` set (mf_payloads manifest)) \<le> MAX_PAYLOAD_FILES \<and>
     (\<forall>entry\<in>set (mf_payloads manifest). payload_matches sha256 root d entry)"

lemma ensure_directory_found:
  "triple (\<lambda>w. disk w = d) (ensure_directory p) (\<lambda>_ w. disk w = d \<and> entry_at d p = Some FsDir) (\<lambda>_ w. disk w = d)"
proof -
  have "triple (\<lambda>w. disk w = d) (do_map_err g (stat p)) (\<lambda>e w. disk w = d \<and> entry_at d p = Some e) (\<lambda>_ w. disk w = d)"
    for g :: "fs_error \<Rightarrow> repository_error"
    by (rule triple_relabel) (rule triple_weaken [OF stat_triple [of "\<lambda>d'. d' = d"]]; auto)
  then show ?thesis
    unfolding ensure_directory_def by (rule triple_then) (auto simp: triple_def)
qed

lemma ensure_directory_quiet: "entry_at d p = Some FsDir \<Longrightarrow> ensure_directory p (quiet d) = (Inr (), quiet d)"
  by (simp add: ensure_directory_def do_then_def do_map_err_def quiet_simps ok_or_def)

lemma stat_same:
  "triple (\<lambda>w. disk w = d) (do_map_err g (stat p)) (\<lambda>e w. disk w = d \<and> entry_at d p = Some e) (\<lambda>_ w. disk w = d)"
  by (rule triple_relabel) (rule triple_weaken [OF stat_triple [of "\<lambda>d'. d' = d"]]; auto)

lemma read_same:
  "triple (\<lambda>w. disk w = d) (do_map_err g (read_file p)) (\<lambda>bs w. disk w = d \<and> entry_at d p = Some (FsFile bs)) (\<lambda>_ w. disk w = d)"
  by (rule triple_relabel) (rule triple_weaken [OF read_file_triple [of "\<lambda>d'. d' = d"]]; auto)

lemma hash_file_triple:
  "triple (\<lambda>w. disk w = d) (hash_file sha256 p) (\<lambda>h w. disk w = d \<and> (\<exists>bytes. entry_at d p = Some (FsFile bytes) \<and> h = hex (sha256 bytes))) (\<lambda>_ w. disk w = d)"
proof -
  have o: "triple (\<lambda>w. disk w = d) (do_map_err g (open_path p)) (\<lambda>_ w. disk w = d) (\<lambda>_ w. disk w = d)" for g :: "fs_error \<Rightarrow> repository_error"
    by (rule triple_relabel) (rule open_path_triple [of "\<lambda>d'. d' = d"])
  show ?thesis
    unfolding hash_file_def by (rule triple_then [OF o], rule triple_then [OF read_same]) (auto simp: triple_def)
qed

lemma verify_payload_entry_triple:
  "triple (\<lambda>w. disk w = d) (verify_payload_entry sha256 root entry) (\<lambda>_ w. disk w = d \<and> payload_matches sha256 root d entry) (\<lambda>_ w. disk w = d)"
  unfolding verify_payload_entry_def Let_def
proof (rule triple_then [OF stat_same])
  fix e
  let ?Q = "\<lambda>_ :: unit. \<lambda>w. disk w = d \<and> payload_matches sha256 root d entry" and ?E = "\<lambda>_ :: repository_error. \<lambda>w. disk w = d"
  let ?p = "payload_file root (py_path entry)"
  show "triple (\<lambda>w. disk w = d \<and> entry_at d ?p = Some e) (case e of
          FsFile bytes \<Rightarrow>
            if length bytes \<noteq> unat (py_byte_length entry) then do_fail IntegrityFailure
            else
              do_then (hash_file sha256 ?p) (\<lambda>hash.
                if hash \<noteq> map ascii_lower (py_sha256 entry) then do_fail IntegrityFailure else do_return ())
        | _ \<Rightarrow> do_fail IntegrityFailure) ?Q ?E"
  proof (cases e)
    case (FsFile bytes)
    have h: "triple (\<lambda>w. disk w = d \<and> entry_at d ?p = Some (FsFile bytes)) (hash_file sha256 ?p)
        (\<lambda>h w. disk w = d \<and> entry_at d ?p = Some (FsFile bytes) \<and> h = hex (sha256 bytes)) ?E"
      by (rule triple_weaken [OF triple_const [OF hash_file_triple [of d sha256 ?p], of "entry_at d ?p = Some (FsFile bytes)"]]) auto
    show ?thesis
    proof (cases "length bytes = unat (py_byte_length entry)")
      case True
      have "triple (\<lambda>w. disk w = d \<and> entry_at d ?p = Some (FsFile bytes)) (do_then (hash_file sha256 ?p) (\<lambda>hash.
                if hash \<noteq> map ascii_lower (py_sha256 entry) then do_fail IntegrityFailure else do_return ())) ?Q ?E"
        by (rule triple_then [OF h]) (use True in \<open>auto simp: triple_def payload_matches_def\<close>)
      then show ?thesis using FsFile True by simp
    qed (simp add: FsFile triple_def)
  qed (simp_all add: triple_def)
qed

lemma triple_each_collect:
  assumes "\<And>x. x \<in> set xs \<Longrightarrow> triple P (f x) (\<lambda>_ s. P s \<and> G x) E"
  shows "triple P (do_each f xs) (\<lambda>_ s. P s \<and> (\<forall>x\<in>set xs. G x)) E"
  using assms
proof (induction xs)
  case (Cons x xs)
  have "triple (\<lambda>s. P s \<and> G x) (do_each f xs) (\<lambda>_ s. P s \<and> (\<forall>y\<in>set (x # xs). G y)) E"
    by (rule triple_weaken [OF triple_const [OF Cons.IH, of "G x"]]) (use Cons.prems in auto)
  then show ?case using triple_then [of P "f x" "\<lambda>_ s. P s \<and> G x" E] Cons.prems by simp
qed (simp add: triple_def)

lemma verify_payload_tree_triple:
  "triple (\<lambda>w. disk w = d) (verify_payload_tree sha256 root manifest) (\<lambda>_ w. disk w = d \<and> payloads_match sha256 root manifest d) (\<lambda>_ w. disk w = d)"
proof -
  let ?E = "\<lambda>_ :: repository_error. \<lambda>w. disk w = d" and ?dir = "root @ [''payload'']"
  let ?walk = "\<lambda>res w. disk w = d \<and> plain_tree MAX_PAYLOAD_DEPTH d ?dir \<and> res = files_below root d ?dir \<and> card res \<le> MAX_PAYLOAD_FILES"
  have walk: "triple (\<lambda>w. disk w = d \<and> entry_at d ?dir = Some FsDir) (walk_payload root ?dir 0 {}) ?walk ?E"
    by (rule triple_weaken [OF triple_conj [OF walk_payload_sound [of root ?dir d 0 "{}"] walk_payload_bound [of "{}" root ?dir 0]]]) auto
  have collect: "triple (\<lambda>w. disk w = d \<and> entry_at d root = Some FsDir) (collect_payload_files root) (\<lambda>res w. ?walk res w \<and> entry_at d root = Some FsDir) ?E"
    unfolding collect_payload_files_def Let_def by (rule triple_const [OF triple_then [OF ensure_directory_found walk]])
  show ?thesis
    unfolding verify_payload_tree_def
  proof (rule triple_then [OF ensure_directory_found triple_then [OF collect]])
    fix actual
    let ?expected = "set (map (\<lambda>entry. split_on slash (py_path entry)) (mf_payloads manifest))"
    have each: "triple (\<lambda>w. disk w = d) (do_each (verify_payload_entry sha256 root) (mf_payloads manifest))
        (\<lambda>_ w. disk w = d \<and> (\<forall>e\<in>set (mf_payloads manifest). payload_matches sha256 root d e)) ?E"
      by (rule triple_each_collect) (rule verify_payload_entry_triple)
    show "triple (\<lambda>w. ?walk actual w \<and> entry_at d root = Some FsDir)
        (let expected = ?expected in if actual \<noteq> expected then do_fail IntegrityFailure
         else do_each (verify_payload_entry sha256 root) (mf_payloads manifest))
        (\<lambda>_ w. disk w = d \<and> payloads_match sha256 root manifest d) ?E"
    proof (cases "actual = ?expected \<and> (plain_tree MAX_PAYLOAD_DEPTH d ?dir \<and> actual = files_below root d ?dir \<and> card actual \<le> MAX_PAYLOAD_FILES) \<and> entry_at d root = Some FsDir")
      case True
      then show ?thesis
        by (simp add: Let_def) (rule triple_weaken [OF each]; auto simp: payloads_match_def)
    qed (auto simp: triple_def Let_def)
  qed
qed

lemma each_quiet: "(\<And>x. x \<in> set xs \<Longrightarrow> f x (quiet d) = (Inr (), quiet d)) \<Longrightarrow> do_each f xs (quiet d) = (Inr (), quiet d)"
  by (induction xs) (simp_all add: do_then_def)

lemma verify_payload_entry_quiet:
  "payload_matches sha256 root d entry \<Longrightarrow> verify_payload_entry sha256 root entry (quiet d) = (Inr (), quiet d)"
  by (auto simp: payload_matches_def verify_payload_entry_def Let_def hash_file_def do_then_def do_map_err_def quiet_simps ok_or_def)

lemma verify_payload_tree_quiet:
  assumes "payloads_match sha256 root manifest d"
  shows "verify_payload_tree sha256 root manifest (quiet d) = (Inr (), quiet d)"
proof -
  let ?dir = "root @ [''payload'']"
  have root: "ensure_directory root (quiet d) = (Inr (), quiet d)" and dir: "ensure_directory ?dir (quiet d) = (Inr (), quiet d)"
    using assms by (auto simp: payloads_match_def plain_tree_def intro: ensure_directory_quiet)
  have "walk_payload root ?dir 0 {} (quiet d) = (Inr ({} \<union> files_below root d ?dir), quiet d)"
    by (rule walk_payload_complete) (use assms in \<open>simp_all add: payloads_match_def\<close>)
  then have collect: "collect_payload_files root (quiet d) = (Inr (files_below root d ?dir), quiet d)"
    by (simp add: collect_payload_files_def Let_def do_then_run [of "ensure_directory ?dir", OF dir])
  have each: "do_each (verify_payload_entry sha256 root) (mf_payloads manifest) (quiet d) = (Inr (), quiet d)"
    using assms by (intro each_quiet verify_payload_entry_quiet) (simp add: payloads_match_def)
  have "files_below root d ?dir = set (map (\<lambda>entry. split_on slash (py_path entry)) (mf_payloads manifest))"
    using assms by (simp add: payloads_match_def)
  then show ?thesis
    by (simp add: verify_payload_tree_def do_then_run [of "ensure_directory root", OF root] do_then_run [of "collect_payload_files root", OF collect] each)
qed

text \<open>A backup directory whose manifest is canonical, sealed, signed and matched by its payloads.\<close>

definition signature_checks :: "repository_env \<Rightarrow> manifest_verifier \<Rightarrow> manifest \<Rightarrow> byte list \<Rightarrow> byte list \<Rightarrow> bool" where
  "signature_checks env verifier m canonical bytes \<longleftrightarrow>
     (\<exists>sig signature algorithm key_id. from_json (re_signature_codec env) bytes = Some sig \<and>
        mf_signature m = Some \<lparr>sm_algorithm = algorithm, sm_key_id = key_id\<rparr> \<and> ds_algorithm sig = algorithm \<and> ds_key_id sig = key_id \<and>
        disk_signature_decode sig = Inr signature \<and> verifier algorithm key_id canonical signature = Inr ())"

definition sealed_backup :: "repository_env \<Rightarrow> manifest_verifier \<Rightarrow> path \<Rightarrow> manifest \<Rightarrow> disk \<Rightarrow> bool" where
  "sealed_backup env verifier path m d \<longleftrightarrow>
     path \<noteq> [] \<and> backup_id_parse (last path) = Inr (mf_backup_id m) \<and> validate_sealed (re_b64 env) m = Inr () \<and>
     (\<exists>canonical bytes. entry_at d (path @ [''manifest.json'']) = Some (FsFile canonical) \<and>
        from_json (re_manifest_codec env) canonical = Some m \<and> to_json (re_manifest_codec env) m = Some canonical \<and>
        entry_at d (path @ [''manifest.sig'']) = Some (FsFile bytes) \<and> signature_checks env verifier m canonical bytes) \<and>
     payloads_match (re_sha256 env) path m d"

lemma read_regular_file_triple:
  "triple (\<lambda>w. disk w = d) (read_regular_file p operation) (\<lambda>bs w. disk w = d \<and> entry_at d p = Some (FsFile bs)) (\<lambda>_ w. disk w = d)"
  unfolding read_regular_file_def
proof (rule triple_then [OF stat_same])
  fix e
  have "triple (\<lambda>w. disk w = d \<and> c) (do_map_err (Io operation) (read_file p)) (\<lambda>bs w. disk w = d \<and> entry_at d p = Some (FsFile bs)) (\<lambda>_ w. disk w = d)" for c
    by (rule triple_weaken [OF read_same]) auto
  then show "triple (\<lambda>w. disk w = d \<and> entry_at d p = Some e) (case e of FsFile _ \<Rightarrow> do_map_err (Io operation) (read_file p)
      | _ \<Rightarrow> do_fail UnsafeFilesystemEntry) (\<lambda>bs w. disk w = d \<and> entry_at d p = Some (FsFile bs)) (\<lambda>_ w. disk w = d)"
    by (cases e) (simp_all add: triple_done(2) triple_def)
qed

lemma read_regular_file_quiet: "entry_at d p = Some (FsFile bs) \<Longrightarrow> read_regular_file p operation (quiet d) = (Inr bs, quiet d)"
  by (simp add: read_regular_file_def do_then_def do_map_err_def quiet_simps ok_or_def)

text \<open>Checks that only look at values.\<close>

lemma triple_check:
  assumes "\<And>x. r = Inr x \<Longrightarrow> triple P (f x) Q (\<lambda>_. P)"
  shows "triple P (do_then (do_lift r) f) Q (\<lambda>_. P)"
  by (rule triple_lift) (use assms in auto)

lemma verify_signature_triple:
  "triple (\<lambda>w. disk w = d) (verify_signature env path m canonical verifier)
     (\<lambda>_ w. disk w = d \<and> (\<exists>bytes. entry_at d (path @ [''manifest.sig'']) = Some (FsFile bytes) \<and> signature_checks env verifier m canonical bytes))
     (\<lambda>_ w. disk w = d)"
  unfolding verify_signature_def
proof (rule triple_then [OF read_regular_file_triple])
  fix bytes
  show "triple (\<lambda>w. disk w = d \<and> entry_at d (path @ [''manifest.sig'']) = Some (FsFile bytes))
    (do_then (do_lift (ok_or (from_json (re_signature_codec env) bytes) IntegrityFailure)) (\<lambda>sig.
     do_then (do_lift (ok_or (mf_signature m) IntegrityFailure)) (\<lambda>metadata.
       if ds_algorithm sig \<noteq> sm_algorithm metadata \<or> ds_key_id sig \<noteq> sm_key_id metadata then do_fail IntegrityFailure
       else
         do_then (do_lift (disk_signature_decode sig)) (\<lambda>signature.
         do_lift (map_err RepoSigning (verifier (ds_algorithm sig) (ds_key_id sig) canonical signature))))))
    (\<lambda>_ w. disk w = d \<and> (\<exists>bytes. entry_at d (path @ [''manifest.sig'']) = Some (FsFile bytes) \<and> signature_checks env verifier m canonical bytes))
    (\<lambda>_ w. disk w = d)"
    unfolding triple_def signature_checks_def by (auto simp: do_then_def ok_or_def map_err_def split: option.splits sum.splits)
qed

lemma verify_signature_quiet:
  assumes "entry_at d (path @ [''manifest.sig'']) = Some (FsFile bytes)" "signature_checks env verifier m canonical bytes"
  shows "verify_signature env path m canonical verifier (quiet d) = (Inr (), quiet d)"
  using assms by (auto simp: verify_signature_def signature_checks_def read_regular_file_quiet do_then_def ok_or_def map_err_def)

lemma load_verified_manifest_triple:
  "triple (\<lambda>w. disk w = d) (load_verified_manifest env verifier path) (\<lambda>m w. disk w = d \<and> sealed_backup env verifier path m d) (\<lambda>_ w. disk w = d)"
proof -
  let ?E = "\<lambda>_ :: repository_error. \<lambda>w. disk w = d" and ?Q = "\<lambda>m w. disk w = d \<and> sealed_backup env verifier path m d"
  have tree: "triple (\<lambda>w. disk w = d \<and> c) (verify_sealed_payloads (re_b64 env) (re_sha256 env) path m)
      (\<lambda>_ w. (disk w = d \<and> payloads_match (re_sha256 env) path m d) \<and> c) ?E" for c m
    unfolding verify_sealed_payloads_def by (rule triple_const, rule triple_check, rule verify_payload_tree_triple)
  have sig: "triple (\<lambda>w. disk w = d \<and> c) (verify_signature env path m canonical verifier)
      (\<lambda>_ w. disk w = d \<and> (\<exists>bytes. entry_at d (path @ [''manifest.sig'']) = Some (FsFile bytes) \<and> signature_checks env verifier m canonical bytes) \<and> c) ?E" for c m canonical
    by (rule triple_weaken [OF triple_const [OF verify_signature_triple]]) auto
  have manifest: "triple (\<lambda>w. disk w = d) (read_regular_file (path @ [''manifest.json'']) ''read sealed manifest'')
      (\<lambda>bs w. disk w = d \<and> entry_at d (path @ [''manifest.json'']) = Some (FsFile bs)) ?E"
    by (rule read_regular_file_triple)
  have dir: "triple (\<lambda>w. disk w = d) (ensure_directory path) (\<lambda>_ w. disk w = d) ?E"
    by (rule triple_weaken [OF ensure_directory_found [of d path]]) auto
  show ?thesis
    unfolding load_verified_manifest_def
  proof (rule triple_then [OF dir], rule triple_check, rule triple_check, rule triple_then [OF manifest])
    fix name i canonical
    assume name: "ok_or (if path = [] then None else Some (last path)) UnsafeFilesystemEntry = Inr name"
      "map_err (\<lambda>_. UnsafeFilesystemEntry) (backup_id_parse name) = Inr i"
    let ?c = "entry_at d (path @ [''manifest.json'']) = Some (FsFile canonical)"
    show "triple (\<lambda>w. disk w = d \<and> ?c) (do_then (do_lift (ok_or (from_json (re_manifest_codec env) canonical) IntegrityFailure)) (\<lambda>manifest.
     do_then (do_lift (map_err RepoManifest (validate_sealed (re_b64 env) manifest))) (\<lambda>_.
     do_then (if mf_backup_id manifest \<noteq> i then do_fail IntegrityFailure
              else
                do_then (do_lift (map_err RepoManifest (canonical_bytes (to_json (re_manifest_codec env)) manifest))) (\<lambda>bytes.
                  if bytes \<noteq> canonical then do_fail IntegrityFailure else do_return ())) (\<lambda>_.
     do_then (verify_signature env path manifest canonical verifier) (\<lambda>_.
     do_then (verify_sealed_payloads (re_b64 env) (re_sha256 env) path manifest) (\<lambda>_.
     do_return manifest)))))) ?Q ?E"
    proof (rule triple_lift, rule triple_lift)
      fix m u
      assume m: "ok_or (from_json (re_manifest_codec env) canonical) IntegrityFailure = Inr m"
        "map_err RepoManifest (validate_sealed (re_b64 env) m) = Inr u"
      let ?c' = "?c \<and> mf_backup_id m = i \<and> to_json (re_manifest_codec env) m = Some canonical"
      have "triple (\<lambda>w. disk w = d \<and> ?c) (if mf_backup_id m \<noteq> i then do_fail IntegrityFailure
              else
                do_then (do_lift (map_err RepoManifest (canonical_bytes (to_json (re_manifest_codec env)) m))) (\<lambda>bytes.
                  if bytes \<noteq> canonical then do_fail IntegrityFailure else do_return ())) (\<lambda>_ w. disk w = d \<and> ?c') ?E"
        by (auto simp: triple_def do_then_def canonical_bytes_def ok_or_def map_err_def split: option.splits)
      then show "triple (\<lambda>w. disk w = d \<and> ?c) (do_then (if mf_backup_id m \<noteq> i then do_fail IntegrityFailure
              else
                do_then (do_lift (map_err RepoManifest (canonical_bytes (to_json (re_manifest_codec env)) m))) (\<lambda>bytes.
                  if bytes \<noteq> canonical then do_fail IntegrityFailure else do_return ())) (\<lambda>_.
     do_then (verify_signature env path m canonical verifier) (\<lambda>_.
     do_then (verify_sealed_payloads (re_b64 env) (re_sha256 env) path m) (\<lambda>_.
     do_return m)))) ?Q ?E"
      proof (rule triple_then, intro triple_then [OF sig] triple_then [OF tree])
        fix u'
        show "triple (\<lambda>w. (disk w = d \<and> payloads_match (re_sha256 env) path m d) \<and>
            (\<exists>bytes. entry_at d (path @ [''manifest.sig'']) = Some (FsFile bytes) \<and> signature_checks env verifier m canonical bytes) \<and> ?c')
          (do_return m) ?Q ?E"
          using name m by (auto simp: triple_def sealed_backup_def ok_or_def split: if_splits option.splits)
      qed
    qed auto
  qed
qed

lemma load_verified_manifest_quiet:
  assumes "sealed_backup env verifier path m d"
  shows "load_verified_manifest env verifier path (quiet d) = (Inr m, quiet d)"
proof -
  obtain canonical bytes where c: "entry_at d (path @ [''manifest.json'']) = Some (FsFile canonical)"
      "from_json (re_manifest_codec env) canonical = Some m" "to_json (re_manifest_codec env) m = Some canonical"
      "entry_at d (path @ [''manifest.sig'']) = Some (FsFile bytes)" "signature_checks env verifier m canonical bytes"
    and s: "path \<noteq> []" "backup_id_parse (last path) = Inr (mf_backup_id m)" "validate_sealed (re_b64 env) m = Inr ()" "payloads_match (re_sha256 env) path m d"
    using assms by (auto simp: sealed_backup_def)
  have "ensure_directory path (quiet d) = (Inr (), quiet d)" using s(4) by (simp add: payloads_match_def ensure_directory_quiet)
  then show ?thesis
    using c s by (simp add: load_verified_manifest_def do_then_def ok_or_def canonical_bytes_def read_regular_file_quiet [OF c(1)]
      verify_signature_quiet [OF c(4,5)] verify_sealed_payloads_def verify_payload_tree_quiet)
qed

subsection \<open>The signature file\<close>

lemma hex_digit_values: "n < 16 \<Longrightarrow> to_digit16 (hex_digit n) = Some n \<and> hex_digit n \<noteq> CHR ''+''"
proof -
  have "\<forall>n\<in>set [0..<16]. to_digit16 (hex_digit n) = Some n \<and> hex_digit n \<noteq> CHR ''+''" by code_simp
  then show "n < 16 \<Longrightarrow> ?thesis" by simp
qed

lemma decode_hex: "decode_pairs (hex bs) = Inr bs"
proof (induction bs)
  case (Cons b bs)
  have lt: "unat b div 16 < 16" "unat b mod 16 < 16" using unat_byte_less [of b] by auto
  have "u8_from_hex (hex_digit (unat b div 16)) (hex_digit (unat b mod 16)) = Some b"
    using lt by (simp add: u8_from_hex_def hex_digit_values)
  then show ?case using Cons by (simp add: hex_def hex_byte_def ok_or_def)
qed (simp add: hex_def)

lemma disk_signature_roundtrip: "disk_signature_decode (disk_signature_new algorithm key_id signature) = Inr signature"
  by (simp add: disk_signature_decode_def disk_signature_new_def decode_hex)

subsection \<open>The inventory\<close>

text \<open>Every entry of the inventory is a verified backup under its own name, and every name is listed.\<close>

lemma inspect_backup_triple:
  "triple (\<lambda>w. disk w = d) (inspect_backup env verifier path)
     (\<lambda>b w. disk w = d \<and> (\<exists>m. sealed_backup env verifier path m d \<and> tb_backup_id b = mf_backup_id m \<and> Some (tb_sealed_at b) = mf_sealed_at m))
     (\<lambda>_ w. disk w = d)"
  unfolding inspect_backup_def
  by (rule triple_then [OF load_verified_manifest_triple]) (auto simp: triple_def do_then_def ok_or_def split: option.splits)

lemma sealed_backup_name: "sealed_backup env verifier path m d \<Longrightarrow> mf_backup_id m = last path"
  by (auto simp: sealed_backup_def backup_id_parse_def parse_identifier_def ok_if_def split: if_splits)

definition inventory_of :: "repository_env \<Rightarrow> manifest_verifier \<Rightarrow> path \<Rightarrow> disk \<Rightarrow> string list \<Rightarrow> trusted_backup list \<Rightarrow> bool" where
  "inventory_of env verifier root d names inventory \<longleftrightarrow>
     list_all2 (\<lambda>name b. tb_backup_id b = name \<and>
       (\<exists>m. sealed_backup env verifier (root @ [name]) m d \<and> mf_backup_id m = name \<and> mf_sealed_at m = Some (tb_sealed_at b))) names inventory"

lemma inventory_of_snoc:
  assumes "inventory_of env verifier root d seen acc" "sealed_backup env verifier (root @ [name]) m d"
    "tb_backup_id b = mf_backup_id m" "Some (tb_sealed_at b) = mf_sealed_at m"
  shows "inventory_of env verifier root d (seen @ [name]) (acc @ [b])"
  unfolding inventory_of_def
  by (rule list_all2_appendI) (use assms sealed_backup_name [OF assms(2)] in \<open>auto simp: inventory_of_def\<close>)

lemma inventory_fold_triple:
  "triple (\<lambda>w. disk w = d \<and> inventory_of env verifier root d seen acc)
     (do_fold (\<lambda>name inventory. do_then (inspect_backup env verifier (root @ [name])) (\<lambda>backup. do_return (inventory @ [backup]))) names acc)
     (\<lambda>inventory w. disk w = d \<and> inventory_of env verifier root d (seen @ names) inventory) (\<lambda>_ w. disk w = d)"
proof (induction names arbitrary: seen acc)
  case (Cons name names)
  have "triple (\<lambda>w. disk w = d \<and> inventory_of env verifier root d seen acc)
      (do_then (inspect_backup env verifier (root @ [name])) (\<lambda>backup. do_return (acc @ [backup])))
      (\<lambda>inventory w. disk w = d \<and> inventory_of env verifier root d (seen @ [name]) inventory) (\<lambda>_ w. disk w = d)"
  proof (rule triple_then [OF triple_const [OF inspect_backup_triple]])
    fix b
    show "triple (\<lambda>w. (disk w = d \<and> (\<exists>m. sealed_backup env verifier (root @ [name]) m d \<and> tb_backup_id b = mf_backup_id m \<and>
          Some (tb_sealed_at b) = mf_sealed_at m)) \<and> inventory_of env verifier root d seen acc) (do_return (acc @ [b]))
        (\<lambda>inventory w. disk w = d \<and> inventory_of env verifier root d (seen @ [name]) inventory) (\<lambda>_ w. disk w = d)"
      by (auto simp: triple_def intro: inventory_of_snoc)
  qed
  then show ?case
    unfolding do_fold.simps
    by (rule triple_then) (rule triple_weaken [OF Cons.IH [of "seen @ [name]"]]; simp)
qed (simp add: triple_def)

lemma trusted_inventory_triple:
  "triple (\<lambda>w. disk w = d) (trusted_inventory env root verifier)
     (\<lambda>inventory w. disk w = d \<and> sorted (map (\<lambda>b. (tb_sealed_at b, tb_backup_id b)) inventory) \<and>
        (\<exists>listed. mset inventory = mset listed \<and> inventory_of env verifier root d (children d root) listed)) (\<lambda>_ w. disk w = d)"
proof -
  let ?E = "\<lambda>_ :: repository_error. \<lambda>w. disk w = d"
  have dir: "triple (\<lambda>w. disk w = d) (ensure_directory root) (\<lambda>_ w. disk w = d) ?E"
    by (rule triple_weaken [OF ensure_directory_found [of d root]]) auto
  have list: "triple (\<lambda>w. disk w = d) (do_map_err (Io ''list sealed backups'') (read_dir root)) (\<lambda>names w. disk w = d \<and> names = children d root) ?E"
    unfolding read_dir_def by (rule triple_relabel) (rule io_rule [of "\<lambda>d'. d' = d"]; auto split: if_splits)
  show ?thesis
    unfolding trusted_inventory_def
  proof (rule triple_then [OF dir triple_then [OF list triple_then]])
    fix names
    show "triple (\<lambda>w. disk w = d \<and> names = children d root)
      (do_fold (\<lambda>name inventory. do_then (inspect_backup env verifier (root @ [name])) (\<lambda>backup. do_return (inventory @ [backup]))) names [])
      (\<lambda>inventory w. (disk w = d \<and> inventory_of env verifier root d names inventory) \<and> names = children d root) ?E"
      by (rule triple_const, rule triple_weaken [OF inventory_fold_triple [of d env verifier root "[]" "[]" names]]) (auto simp: inventory_of_def)
  qed (auto simp: triple_def intro!: exI [of _ "_ :: trusted_backup list"] mset_sort)
qed

section \<open>Properties\<close>

text \<open>C35: a backup passes verification exactly when it is intact. Whatever calls fail on the way, a
  verification writes nothing, and if it accepts then the directory carries the name of the backup,
  its manifest file is the canonical form of a sealed manifest, the detached signature verifies over
  exactly those bytes under the recorded algorithm and key, and the payload directory holds exactly
  the listed files, with their lengths and hashes, at most 64 levels deep and nothing else: no link,
  no extra file. When no call fails, such a backup is accepted and no other.\<close>

theorem verified_backup_exact:
  assumes "load_verified_manifest env verifier path w = (r, w')"
  shows "disk w' = disk w \<and> (\<forall>m. r = Inr m \<longrightarrow> sealed_backup env verifier path m (disk w)) \<and>
    (faults w = [] \<longrightarrow> (\<forall>m. r = Inr m \<longleftrightarrow> sealed_backup env verifier path m (disk w)))"
proof -
  have sound: "disk w' = disk w \<and> (\<forall>m. r = Inr m \<longrightarrow> sealed_backup env verifier path m (disk w))"
    using triple_ok [OF load_verified_manifest_triple refl] triple_err [OF load_verified_manifest_triple refl] assms by (cases r) auto
  have "r = Inr m" if "faults w = []" "sealed_backup env verifier path m (disk w)" for m
  proof -
    have "w = quiet (disk w)" using that(1) by (simp add: quiet_def)
    then show ?thesis using load_verified_manifest_quiet [OF that(2)] assms by simp
  qed
  then show ?thesis using sound by blast
qed

definition sample_repository_env :: repository_env where
  "sample_repository_env = \<lparr>re_b64 = \<lambda>_. None, re_sha256 = \<lambda>_. replicate 32 170, re_manifest_codec = two_documents sample_manifest sample_manifest,
     re_signature_codec = two_documents (disk_signature_new ''ed25519'' ''key-1'' [7]) (disk_signature_new ''ed25519'' ''key-1'' [7])\<rparr>"

definition sample_backup :: disk where
  "sample_backup = [([''backups''], FsDir), ([''backups'', ''b1''], FsDir), ([''backups'', ''b1'', ''payload''], FsDir),
     ([''backups'', ''b1'', ''payload'', ''fs.tar.zst''], FsFile (replicate 10 0)), ([''backups'', ''b1'', ''manifest.json''], FsFile [1]),
     ([''backups'', ''b1'', ''manifest.sig''], FsFile [1])]"

lemma verified_backup_exact_witness:
  "\<exists>w'. load_verified_manifest sample_repository_env (\<lambda>_ _ _ sg. if sg = [7] then Inr () else Inl VerificationFailed) [''backups'', ''b1''] (quiet sample_backup) =
       (Inr sample_manifest, w') \<and>
     sealed_backup sample_repository_env (\<lambda>_ _ _ sg. if sg = [7] then Inr () else Inl VerificationFailed) [''backups'', ''b1''] sample_manifest sample_backup"
proof -
  let ?v = "\<lambda>_ _ _ sg. if sg = [7] then Inr () else Inl VerificationFailed" and ?p = "[''backups'', ''b1'']"
  have v: "validate_sealed (re_b64 sample_repository_env) sample_manifest = Inr ()" by (rule sample_sealed)
  have hash: "hex (replicate 32 170) = replicate 64 (ascii_lower CHR ''a'')" by code_simp
  have "verify_payload_tree (re_sha256 sample_repository_env) ?p sample_manifest (quiet sample_backup) = (Inr (), quiet sample_backup)"
    by (simp add: hash verify_payload_tree_def collect_payload_files_def Let_def do_then_def do_map_err_def ensure_directory_def quiet_simps walk_payload.simps
      sample_repository_env_def sample_backup_def sample_manifest_def manifest_new_def entry_at_def children_def map_filter_simps ok_or_def strip_root_def hash_file_def verify_payload_entry_def payload_file_def
      MAX_PAYLOAD_DEPTH_def MAX_PAYLOAD_FILES_def)
  note tree = this
  have dir: "ensure_directory ?p (quiet sample_backup) = (Inr (), quiet sample_backup)"
    by (rule ensure_directory_quiet) (simp add: sample_backup_def entry_at_def)
  have m: "read_regular_file [''backups'', ''b1'', ''manifest.json''] operation (quiet sample_backup) = (Inr [1], quiet sample_backup)" for operation
    by (rule read_regular_file_quiet) (simp add: sample_backup_def entry_at_def)
  have i: "backup_id_parse ''b1'' = Inr (mf_backup_id sample_manifest)" by code_simp
  have s: "verify_signature sample_repository_env ?p sample_manifest [1] ?v (quiet sample_backup) = (Inr (), quiet sample_backup)"
  proof (rule verify_signature_quiet)
    show "entry_at sample_backup (?p @ [''manifest.sig'']) = Some (FsFile [1])" by (simp add: sample_backup_def entry_at_def)
    have "from_json (re_signature_codec sample_repository_env) [1] = Some (disk_signature_new ''ed25519'' ''key-1'' [7])"
      by (simp add: sample_repository_env_def two_documents_def)
    moreover have "mf_signature sample_manifest = Some \<lparr>sm_algorithm = ''ed25519'', sm_key_id = ''key-1''\<rparr>"
      by (simp add: sample_manifest_def)
    ultimately show "signature_checks sample_repository_env ?v sample_manifest [1] [1]"
      by (auto simp: signature_checks_def disk_signature_roundtrip) (simp_all add: disk_signature_new_def)
  qed
  have c: "from_json (re_manifest_codec sample_repository_env) [1] = Some sample_manifest" "to_json (re_manifest_codec sample_repository_env) sample_manifest = Some [1]"
    by (simp_all add: sample_repository_env_def two_documents_def)
  have run: "load_verified_manifest sample_repository_env ?v ?p (quiet sample_backup) = (Inr sample_manifest, quiet sample_backup)"
    using v by (simp add: load_verified_manifest_def verify_sealed_payloads_def do_then_def dir i m c s tree ok_or_def canonical_bytes_def)
  show ?thesis using verified_backup_exact [OF run] run by (auto simp: quiet_simps)
qed

end
