(* ===== verification/Retention_Journal.thy ===== *)
theory Retention_Journal
  imports Repository_Files
begin

text \<open>
  \<^verbatim>\<open>crates/guardian-local-repository/src/{retention,retention_journal}.rs\<close>: the moves of a retention
  plan, their write-ahead journal in the quarantine directory and its reconciliation when the
  repository is opened again. The JSON codecs of the intent and of the audit record are parameters.
  Everything runs under the repository lock, so no other writer interleaves.
\<close>

section \<open>Definitions\<close>

definition INTENT_SUFFIX :: string where
  "INTENT_SUFFIX = ''.intent.json''"

definition CLEANUP_SUFFIX :: string where
  "CLEANUP_SUFFIX = ''.cleanup-ready''"

definition FORMAT_VERSION :: u32 where
  "FORMAT_VERSION = 1"

definition backups_root :: path where
  "backups_root = [''backups'']"

definition quarantine_root :: path where
  "quarantine_root = [''quarantine'']"

definition audit_root :: path where
  "audit_root = [''audit'']"

record retention_intent =
  ri_format_version :: u32
  ri_plan_id :: plan_id
  ri_repository_id :: repository_id
  ri_delete_backup_ids :: "backup_id list"

record audit_record =
  ar_state :: string
  ar_plan_id :: plan_id
  ar_repository_id :: repository_id
  ar_delete_backup_ids :: "backup_id list"

text \<open>The JSON codecs the journal relies on.\<close>

record journal_codec =
  intent_to_json :: "retention_intent \<Rightarrow> byte list option"
  intent_from_json :: "byte list \<Rightarrow> retention_intent option"
  audit_to_json :: "audit_record \<Rightarrow> byte list option"

definition intent_from_plan :: "retention_plan \<Rightarrow> retention_intent" where
  "intent_from_plan plan =
     \<lparr>ri_format_version = FORMAT_VERSION, ri_plan_id = rp_plan_id plan,
      ri_repository_id = rp_repository_id plan, ri_delete_backup_ids = rp_delete_backup_ids plan\<rparr>"

definition has_duplicate_ids :: "backup_id list \<Rightarrow> bool" where
  "has_duplicate_ids ids \<longleftrightarrow> list_ex (\<lambda>index. ids ! index \<in> set (take index ids)) [0..<length ids]"

definition intent_validate :: "retention_intent \<Rightarrow> plan_id \<Rightarrow> repository_id \<Rightarrow> repository_error + unit" where
  "intent_validate self expected_plan_id repository_id =
     ok_if (\<not> (ri_format_version self \<noteq> FORMAT_VERSION \<or> ri_plan_id self \<noteq> expected_plan_id \<or>
          ri_repository_id self \<noteq> repository_id \<or> ri_delete_backup_ids self = [] \<or>
          has_duplicate_ids (ri_delete_backup_ids self)))
       () RecoveryRequired"

record retention_transaction =
  tx_intent :: retention_intent
  tx_intent_path :: path
  tx_cleanup_path :: path
  tx_trash :: path

definition transaction_prefix :: "plan_id \<Rightarrow> string" where
  "transaction_prefix plan_id = ''retention-'' @ plan_id"

subsection \<open>File helpers of the journal\<close>

definition ensure_regular_file :: "path \<Rightarrow> unit repo" where
  "ensure_regular_file path =
     do_then (do_map_err (Io ''inspect retention journal'') (stat path)) (\<lambda>metadata.
       case metadata of FsFile _ \<Rightarrow> do_return () | _ \<Rightarrow> do_fail UnsafeFilesystemEntry)"

definition real_directory_or_absent :: "path \<Rightarrow> bool repo" where
  "real_directory_or_absent path =
     do_match (stat path) (\<lambda>r.
       case r of
         Inr e \<Rightarrow> if e = FsDir then do_return True else do_fail UnsafeFilesystemEntry
       | Inl NotFound \<Rightarrow> do_return False
       | Inl err \<Rightarrow> do_fail (Io ''inspect retention backup'' err))"

definition remove_if_exists :: "path \<Rightarrow> unit repo" where
  "remove_if_exists path =
     do_match (remove_file path) (\<lambda>r.
       case r of
         Inr _ \<Rightarrow> sync_parent path
       | Inl NotFound \<Rightarrow> do_return ()
       | Inl err \<Rightarrow> do_fail (Io ''remove retention journal'' err))"

definition remove_empty_if_exists :: "path \<Rightarrow> unit repo" where
  "remove_empty_if_exists path =
     do_match (remove_dir path) (\<lambda>r.
       case r of
         Inr _ \<Rightarrow> sync_parent path
       | Inl NotFound \<Rightarrow> do_return ()
       | Inl err \<Rightarrow> do_fail (Io ''remove retention quarantine'' err))"

definition map_create_error :: "fs_error \<Rightarrow> repository_error" where
  "map_create_error err = (if err = AlreadyExists then AuditConflict else Io ''create retention quarantine'' err)"

definition audit_path :: "plan_id \<Rightarrow> string \<Rightarrow> path" where
  "audit_path plan_id state = audit_root @ [''retention-'' @ plan_id @ ''-'' @ state @ ''.json'']"

definition write_retention_audit ::
  "journal_codec \<Rightarrow> plan_id \<Rightarrow> repository_id \<Rightarrow> backup_id list \<Rightarrow> string \<Rightarrow> unit repo" where
  "write_retention_audit codec plan_id repository_id delete_backup_ids state =
     do_then (ensure_directory audit_root) (\<lambda>_.
     do_then (do_lift (ok_or (audit_to_json codec
         \<lparr>ar_state = state, ar_plan_id = plan_id, ar_repository_id = repository_id,
          ar_delete_backup_ids = delete_backup_ids\<rparr>) RepoSerialization)) (\<lambda>bytes.
     do_match (write_new (audit_path plan_id state) bytes) (\<lambda>r.
       case r of
         Inl (Io operation AlreadyExists) \<Rightarrow> do_fail AuditConflict
       | Inl err \<Rightarrow> do_fail err
       | Inr _ \<Rightarrow> sync_parent (audit_path plan_id state))))"

definition write_audit :: "journal_codec \<Rightarrow> retention_plan \<Rightarrow> string \<Rightarrow> unit repo" where
  "write_audit codec plan state =
     write_retention_audit codec (rp_plan_id plan) (rp_repository_id plan) (rp_delete_backup_ids plan) state"

subsection \<open>Validation, cleanup and rollback\<close>

definition validate_trash_entries :: "retention_intent \<Rightarrow> path \<Rightarrow> unit repo" where
  "validate_trash_entries intent trash =
     do_then (path_exists trash) (\<lambda>present.
       if \<not> present then do_return ()
       else
         do_then (ensure_directory trash) (\<lambda>_.
         do_then (do_map_err (Io ''list retention quarantine'') (read_dir trash)) (\<lambda>names.
         do_each (\<lambda>name.
           if name \<notin> set (ri_delete_backup_ids intent) then do_fail RecoveryRequired
           else do_then (real_directory_or_absent (trash @ [name])) (\<lambda>real.
             if real then do_return () else do_fail RecoveryRequired)) names)))"

definition validate_cleanup_state :: "retention_intent \<Rightarrow> path \<Rightarrow> unit repo" where
  "validate_cleanup_state intent trash =
     do_then (validate_trash_entries intent trash) (\<lambda>_.
       do_each (\<lambda>backup_id.
         do_then (path_exists (backups_root @ [backup_id])) (\<lambda>present.
           if present then do_fail RecoveryRequired else do_return ())) (ri_delete_backup_ids intent))"

definition validate_rollback_state :: "retention_intent \<Rightarrow> path \<Rightarrow> unit repo" where
  "validate_rollback_state intent trash =
     do_then (validate_trash_entries intent trash) (\<lambda>_.
       do_each (\<lambda>backup_id.
         do_then (real_directory_or_absent (backups_root @ [backup_id])) (\<lambda>active_exists.
         do_then (real_directory_or_absent (trash @ [backup_id])) (\<lambda>quarantined_exists.
           if active_exists = quarantined_exists then do_fail RecoveryRequired else do_return ())))
         (ri_delete_backup_ids intent))"

definition cleanup_transaction :: "retention_intent \<Rightarrow> path \<Rightarrow> unit repo" where
  "cleanup_transaction intent trash =
     do_then (validate_cleanup_state intent trash) (\<lambda>_.
     do_then (do_each (\<lambda>backup_id.
       do_then (path_exists (trash @ [backup_id])) (\<lambda>present.
         if present
         then do_then (do_map_err (\<lambda>_. CleanupPending) (remove_dir_all (trash @ [backup_id]))) (\<lambda>_.
           sync_parent (trash @ [backup_id]))
         else do_return ())) (ri_delete_backup_ids intent)) (\<lambda>_.
     do_map_err (\<lambda>_. CleanupPending) (remove_empty_if_exists trash)))"

definition rollback_transaction :: "retention_intent \<Rightarrow> path \<Rightarrow> unit repo" where
  "rollback_transaction intent trash =
     do_then (validate_rollback_state intent trash) (\<lambda>_.
     do_then (do_each (\<lambda>backup_id.
       do_then (path_exists (trash @ [backup_id])) (\<lambda>present.
         if present
         then do_then (do_map_err (\<lambda>_. RecoveryRequired)
             (rename (trash @ [backup_id]) (backups_root @ [backup_id]))) (\<lambda>_.
           do_then (sync_parent (trash @ [backup_id])) (\<lambda>_.
           sync_parent (backups_root @ [backup_id])))
         else do_return ())) (rev (ri_delete_backup_ids intent))) (\<lambda>_.
     remove_empty_if_exists trash))"

subsection \<open>The transaction\<close>

definition tx_finish :: "retention_transaction \<Rightarrow> unit repo" where
  "tx_finish self =
     do_then (remove_if_exists (tx_cleanup_path self)) (\<lambda>_. remove_if_exists (tx_intent_path self))"

definition tx_abort :: "retention_transaction \<Rightarrow> unit repo" where
  "tx_abort self = do_then (remove_empty_if_exists (tx_trash self)) (\<lambda>_. tx_finish self)"

definition tx_mark_cleanup_ready :: "retention_transaction \<Rightarrow> unit repo" where
  "tx_mark_cleanup_ready self =
     do_then (write_new (tx_cleanup_path self) []) (\<lambda>_. sync_parent (tx_cleanup_path self))"

definition tx_cleanup :: "retention_transaction \<Rightarrow> unit repo" where
  "tx_cleanup self = cleanup_transaction (tx_intent self) (tx_trash self)"

definition tx_write_intent :: "journal_codec \<Rightarrow> retention_transaction \<Rightarrow> unit repo" where
  "tx_write_intent codec self =
     do_then (do_lift (ok_or (intent_to_json codec (tx_intent self)) RepoSerialization)) (\<lambda>bytes.
     do_then (write_new (tx_intent_path self) bytes) (\<lambda>_.
     sync_parent (tx_intent_path self)))"

definition tx_of_plan :: "retention_plan \<Rightarrow> retention_transaction" where
  "tx_of_plan plan =
     (let intent = intent_from_plan plan; pre = transaction_prefix (ri_plan_id intent) in
      \<lparr>tx_intent = intent, tx_intent_path = quarantine_root @ [pre @ INTENT_SUFFIX],
       tx_cleanup_path = quarantine_root @ [pre @ CLEANUP_SUFFIX], tx_trash = quarantine_root @ [pre]\<rparr>)"

definition tx_begin :: "journal_codec \<Rightarrow> retention_plan \<Rightarrow> retention_transaction repo" where
  "tx_begin codec plan =
     (let transaction = tx_of_plan plan in
      do_then (tx_write_intent codec transaction) (\<lambda>_.
      do_then (do_map_err map_create_error (create_dir (tx_trash transaction))) (\<lambda>_.
      do_then (sync_parent (tx_trash transaction)) (\<lambda>_.
      do_return transaction))))"

definition rollback_moves :: "(path \<times> path) list \<Rightarrow> unit repo" where
  "rollback_moves moved =
     do_each (\<lambda>(source, destination).
       do_then (do_map_err (\<lambda>_. RecoveryRequired) (rename destination source)) (\<lambda>_.
       do_then (sync_parent source) (\<lambda>_.
       sync_parent destination))) (rev moved)"

definition sync_move :: "(path \<times> path) list \<Rightarrow> unit repo" where
  "sync_move moved =
     (if moved = [] then do_fail RecoveryRequired
      else case last moved of (source, destination) \<Rightarrow>
        do_then (sync_parent source) (\<lambda>_. sync_parent destination))"

primrec move_backups ::
  "retention_transaction \<Rightarrow> (path \<times> path) list \<Rightarrow> backup_id list \<Rightarrow> unit repo" where
  "move_backups transaction moved [] = do_return ()"
| "move_backups transaction moved (backup_id # rest) =
     (let source = backups_root @ [backup_id]; destination = tx_trash transaction @ [backup_id] in
      do_match (rename source destination) (\<lambda>r.
        case r of
          Inl source_error \<Rightarrow>
            do_then (rollback_moves moved) (\<lambda>_.
            do_then (tx_abort transaction) (\<lambda>_.
            do_fail (Io ''move backup to retention quarantine'' source_error)))
        | Inr _ \<Rightarrow>
            let moved' = moved @ [(source, destination)] in
            do_match (sync_move moved') (\<lambda>r.
              case r of
                Inl sync_error \<Rightarrow>
                  do_then (rollback_moves moved') (\<lambda>_.
                  do_then (tx_abort transaction) (\<lambda>_.
                  do_fail sync_error))
              | Inr _ \<Rightarrow> move_backups transaction moved' rest)))"

definition execute_moves :: "journal_codec \<Rightarrow> retention_plan \<Rightarrow> unit repo" where
  "execute_moves codec plan =
     do_then (write_audit codec plan ''approved'') (\<lambda>_.
     do_then (tx_begin codec plan) (\<lambda>transaction.
     do_then (move_backups transaction [] (rp_delete_backup_ids plan)) (\<lambda>_.
     do_then (tx_mark_cleanup_ready transaction) (\<lambda>_.
     do_then (tx_cleanup transaction) (\<lambda>_.
     do_then (write_audit codec plan ''completed'') (\<lambda>_.
     tx_finish transaction))))))"

subsection \<open>Reconciliation\<close>

definition completed_audit_exists :: "retention_intent \<Rightarrow> bool repo" where
  "completed_audit_exists intent =
     do_match (stat (audit_root @ [''retention-'' @ ri_plan_id intent @ ''-completed.json''])) (\<lambda>r.
       case r of
         Inr (FsFile _) \<Rightarrow> do_return True
       | Inr _ \<Rightarrow> do_fail RecoveryRequired
       | Inl NotFound \<Rightarrow> do_return False
       | Inl err \<Rightarrow> do_fail (Io ''inspect retention audit'' err))"

definition complete_recovered_transaction ::
  "journal_codec \<Rightarrow> retention_intent \<Rightarrow> path \<Rightarrow> path \<Rightarrow> unit repo" where
  "complete_recovered_transaction codec intent cleanup_path intent_path =
     do_match (write_retention_audit codec (ri_plan_id intent) (ri_repository_id intent)
         (ri_delete_backup_ids intent) ''completed'') (\<lambda>r.
       if r = Inr () \<or> r = Inl AuditConflict
       then do_then (remove_if_exists cleanup_path) (\<lambda>_. remove_if_exists intent_path)
       else do_lift r)"

definition read_intent :: "journal_codec \<Rightarrow> path \<Rightarrow> retention_intent repo" where
  "read_intent codec path =
     do_then (ensure_regular_file path) (\<lambda>_.
     do_then (do_map_err (Io ''read retention intent'') (read_file path)) (\<lambda>bytes.
     do_lift (ok_or (intent_from_json codec bytes) RecoveryRequired)))"

definition plan_id_from_intent_path :: "path \<Rightarrow> repository_error + plan_id" where
  "plan_id_from_intent_path path =
     (if path = [] then Inl UnsafeFilesystemEntry
      else
        and_then (ok_or (Option.bind (strip_prefix ''retention-'' (last path)) (strip_suffix INTENT_SUFFIX))
          RecoveryRequired) (\<lambda>plan.
        map_err (\<lambda>_. RecoveryRequired) (plan_id_parse plan)))"

definition retention_intents :: "path \<Rightarrow> path list repo" where
  "retention_intents root =
     do_then (do_map_err (Io ''list quarantine entries'') (read_dir root)) (\<lambda>names.
       let intents = filter (\<lambda>name. prefix ''retention-'' name \<and> suffix INTENT_SUFFIX name) names in
       do_then (do_each (\<lambda>name. ensure_regular_file (root @ [name])) intents) (\<lambda>_.
       do_return (map (\<lambda>name. root @ [name]) intents)))"

definition reject_orphan_retention_entries :: "path \<Rightarrow> unit repo" where
  "reject_orphan_retention_entries root =
     do_then (do_map_err (Io ''list quarantine entries'') (read_dir root)) (\<lambda>names.
       do_each (\<lambda>name. if prefix ''retention-'' name then do_fail RecoveryRequired else do_return ()) names)"

definition reconcile_transaction :: "journal_codec \<Rightarrow> repository_id \<Rightarrow> path \<Rightarrow> unit repo" where
  "reconcile_transaction codec repository_id intent_path =
     do_then (do_lift (plan_id_from_intent_path intent_path)) (\<lambda>plan_id.
     do_then (read_intent codec intent_path) (\<lambda>intent.
     do_then (do_lift (intent_validate intent plan_id repository_id)) (\<lambda>_.
       let pre = transaction_prefix plan_id;
           cleanup_path = quarantine_root @ [pre @ CLEANUP_SUFFIX];
           trash = quarantine_root @ [pre] in
       do_then (path_exists cleanup_path) (\<lambda>ready.
         if ready then
           do_then (ensure_regular_file cleanup_path) (\<lambda>_.
           do_then (cleanup_transaction intent trash) (\<lambda>_.
           complete_recovered_transaction codec intent cleanup_path intent_path))
         else
           do_then (completed_audit_exists intent) (\<lambda>completed.
             if completed then
               do_then (cleanup_transaction intent trash) (\<lambda>_. remove_if_exists intent_path)
             else
               do_then (rollback_transaction intent trash) (\<lambda>_. remove_if_exists intent_path))))))"

definition reconcile_retention_locked :: "journal_codec \<Rightarrow> repository_id \<Rightarrow> unit repo" where
  "reconcile_retention_locked codec repository_id =
     do_then (retention_intents quarantine_root) (\<lambda>intents.
     do_then (do_each (reconcile_transaction codec repository_id) intents) (\<lambda>_.
     reject_orphan_retention_entries quarantine_root))"

end
