(* ===== verification/Retention_Recovery.thy ===== *)
theory Retention_Recovery
  imports Retention_Journal
begin

text \<open>
  Crash safety of the retention journal: whatever calls of \<open>execute_moves\<close> fail, are torn or never
  happen, opening the repository again either finishes the deletion or restores every backup. The
  proof follows the journal through its phases; each phase is an assertion on the entries of the disk
  relative to the disk \<open>d0\<close> on which the plan was started.
\<close>

section \<open>Definitions\<close>

definition trash_name :: "retention_plan \<Rightarrow> string" where
  "trash_name plan = ''retention-'' @ rp_plan_id plan"

definition trash_dir :: "retention_plan \<Rightarrow> path" where
  "trash_dir plan = [''quarantine'', trash_name plan]"

definition intent_file :: "retention_plan \<Rightarrow> path" where
  "intent_file plan = [''quarantine'', trash_name plan @ ''.intent.json'']"

definition cleanup_file :: "retention_plan \<Rightarrow> path" where
  "cleanup_file plan = [''quarantine'', trash_name plan @ ''.cleanup-ready'']"

definition approved_file :: "retention_plan \<Rightarrow> path" where
  "approved_file plan = [''audit'', trash_name plan @ ''-approved.json'']"

definition completed_file :: "retention_plan \<Rightarrow> path" where
  "completed_file plan = [''audit'', trash_name plan @ ''-completed.json'']"

text \<open>Nothing but the journal, its audit records and the planned backups has changed.\<close>

definition untouched :: "retention_plan \<Rightarrow> path \<Rightarrow> bool" where
  "untouched plan q \<longleftrightarrow>
     q \<notin> {approved_file plan, completed_file plan, intent_file plan, cleanup_file plan} \<and>
     \<not> prefix (trash_dir plan) q \<and> (\<forall>b\<in>set (rp_delete_backup_ids plan). \<not> prefix [''backups'', b] q)"

definition rest_kept :: "retention_plan \<Rightarrow> disk \<Rightarrow> disk \<Rightarrow> bool" where
  "rest_kept plan d0 d \<longleftrightarrow> (\<forall>q. untouched plan q \<longrightarrow> entry_at d q = entry_at d0 q)"

definition backups_kept :: "retention_plan \<Rightarrow> disk \<Rightarrow> backup_id set \<Rightarrow> disk \<Rightarrow> bool" where
  "backups_kept plan d0 S d \<longleftrightarrow>
     (\<forall>b\<in>set (rp_delete_backup_ids plan). \<forall>r. entry_at d (''backups'' # b # r) =
       (if b \<in> S then None else entry_at d0 (''backups'' # b # r)))"

definition trash_holds :: "retention_plan \<Rightarrow> disk \<Rightarrow> backup_id set \<Rightarrow> disk \<Rightarrow> bool" where
  "trash_holds plan d0 S d \<longleftrightarrow>
     (\<forall>b r. entry_at d (''quarantine'' # trash_name plan # b # r) =
       (if b \<in> S then entry_at d0 (''backups'' # b # r) else None))"

text \<open>Before the commit point: the backups of \<open>S\<close> have moved to the trash, the others are in place.\<close>

definition before_commit ::
  "retention_plan \<Rightarrow> disk \<Rightarrow> entry option \<Rightarrow> entry option \<Rightarrow> backup_id set \<Rightarrow> disk \<Rightarrow> bool" where
  "before_commit plan d0 i t S d \<longleftrightarrow>
     S \<subseteq> set (rp_delete_backup_ids plan) \<and> rest_kept plan d0 d \<and> backups_kept plan d0 S d \<and> trash_holds plan d0 S d \<and>
     entry_at d (trash_dir plan) = t \<and> entry_at d (intent_file plan) = i \<and> entry_at d (cleanup_file plan) = None \<and>
     entry_at d (completed_file plan) = None \<and> (t = None \<longrightarrow> S = {})"

text \<open>After the commit point: every planned backup has left, the trash is partly deleted.\<close>

definition after_commit ::
  "retention_plan \<Rightarrow> disk \<Rightarrow> entry option \<Rightarrow> entry option \<Rightarrow> entry option \<Rightarrow> disk \<Rightarrow> bool" where
  "after_commit plan d0 i t c d \<longleftrightarrow>
     rest_kept plan d0 d \<and> backups_kept plan d0 (set (rp_delete_backup_ids plan)) d \<and>
     (\<forall>b r. entry_at d (''quarantine'' # trash_name plan # b # r) \<noteq> None \<longrightarrow>
        b \<in> set (rp_delete_backup_ids plan) \<and> t = Some FsDir \<and>
        entry_at d [''quarantine'', trash_name plan, b] = Some FsDir) \<and>
     entry_at d (trash_dir plan) = t \<and> entry_at d (intent_file plan) = i \<and> entry_at d (cleanup_file plan) = c \<and>
     (entry_at d (completed_file plan) = None \<or> (\<exists>bs. entry_at d (completed_file plan) = Some (FsFile bs)))"

text \<open>What the plan is started on: the layout of an opened repository, with every planned backup a
  directory, no retention journal left over and no completed record of the same plan.\<close>

definition opened_layout :: "retention_plan \<Rightarrow> disk \<Rightarrow> bool" where
  "opened_layout plan d0 \<longleftrightarrow>
     entry_at d0 [''backups''] = Some FsDir \<and> entry_at d0 [''quarantine''] = Some FsDir \<and> entry_at d0 [''audit''] = Some FsDir \<and>
     (\<forall>b\<in>set (rp_delete_backup_ids plan). entry_at d0 [''backups'', b] = Some FsDir) \<and>
     (\<forall>n r. prefix ''retention-'' n \<longrightarrow> entry_at d0 (''quarantine'' # n # r) = None) \<and>
     entry_at d0 (completed_file plan) = None"

definition executable_plan :: "retention_plan \<Rightarrow> bool" where
  "executable_plan plan \<longleftrightarrow>
     rp_delete_backup_ids plan \<noteq> [] \<and> distinct (rp_delete_backup_ids plan) \<and> is_ok (plan_id_parse (rp_plan_id plan))"

text \<open>The JSON text \<open>bs\<close> of the intent: it parses back and no proper prefix of it parses.\<close>

definition journal_json :: "journal_codec \<Rightarrow> retention_plan \<Rightarrow> byte list \<Rightarrow> bool" where
  "journal_json codec plan bs \<longleftrightarrow>
     intent_to_json codec (intent_from_plan plan) = Some bs \<and>
     intent_from_json codec bs = Some (intent_from_plan plan) \<and>
     (\<forall>bs'. strict_prefix bs' bs \<longrightarrow> intent_from_json codec bs' = None) \<and>
     audit_to_json codec \<lparr>ar_state = ''completed'', ar_plan_id = rp_plan_id plan,
       ar_repository_id = rp_repository_id plan, ar_delete_backup_ids = rp_delete_backup_ids plan\<rparr> \<noteq> None"

text \<open>Every disk an interrupted execution can leave.\<close>

definition interrupted :: "retention_plan \<Rightarrow> disk \<Rightarrow> byte list \<Rightarrow> disk \<Rightarrow> bool" where
  "interrupted plan d0 bs d \<longleftrightarrow>
     before_commit plan d0 None None {} d \<or>
     (\<exists>bs'. strict_prefix bs' bs \<and> before_commit plan d0 (Some (FsFile bs')) None {} d) \<or>
     (\<exists>t S. t \<in> {None, Some FsDir} \<and> before_commit plan d0 (Some (FsFile bs)) t S d) \<or>
     (\<exists>t c. t \<in> {None, Some FsDir} \<and> after_commit plan d0 (Some (FsFile bs)) t (Some (FsFile c)) d) \<or>
     (\<exists>i. i \<in> {None, Some (FsFile bs)} \<and> after_commit plan d0 i None None d \<and> entry_at d (completed_file plan) \<noteq> None)"

section \<open>Lemmas\<close>

lemmas journal_paths = trash_dir_def intent_file_def cleanup_file_def approved_file_def completed_file_def

lemma tx_of_plan_simps:
  "tx_intent (tx_of_plan plan) = intent_from_plan plan"
  "tx_trash (tx_of_plan plan) = trash_dir plan"
  "tx_intent_path (tx_of_plan plan) = intent_file plan"
  "tx_cleanup_path (tx_of_plan plan) = cleanup_file plan"
  by (simp_all add: tx_of_plan_def Let_def journal_paths trash_name_def transaction_prefix_def quarantine_root_def
      INTENT_SUFFIX_def CLEANUP_SUFFIX_def intent_from_plan_def)

lemma audit_path_simps:
  "audit_path (rp_plan_id plan) ''approved'' = approved_file plan"
  "audit_path (rp_plan_id plan) ''completed'' = completed_file plan"
  by (simp_all add: audit_path_def journal_paths trash_name_def audit_root_def)

lemma trash_name_neq [simp]:
  "trash_name plan @ x # xs \<noteq> trash_name plan" "trash_name plan \<noteq> trash_name plan @ x # xs"
  by auto

subsection \<open>Phases under disk updates\<close>

text \<open>The phases only read entries, so a disk that agrees on them is in the same phase.\<close>

lemma untouched_iff:
  "untouched plan q \<Longrightarrow> \<not> prefix [''quarantine'', trash_name plan, b] q"
  "untouched plan q \<Longrightarrow> b \<in> set (rp_delete_backup_ids plan) \<Longrightarrow> \<not> prefix [''backups'', b] q"
  by (auto simp: untouched_def trash_dir_def prefix_def)

lemma entry_at_to_trash:
  "entry_at (move_tree [''backups'', b] [''quarantine'', n, b] d) r =
    (if prefix [''quarantine'', n, b] r then entry_at d (''backups'' # b # drop 3 r)
     else if prefix [''backups'', b] r then None else entry_at d r)"
  by (simp add: entry_at_move_tree eval_nat_numeral)

lemma entry_at_from_trash:
  "entry_at (move_tree [''quarantine'', n, b] [''backups'', b] d) r =
    (if prefix [''backups'', b] r then entry_at d (''quarantine'' # n # b # drop 2 r)
     else if prefix [''quarantine'', n, b] r then None else entry_at d r)"
  by (simp add: entry_at_move_tree eval_nat_numeral)

lemma before_commit_move:
  assumes b: "before_commit plan d0 i (Some FsDir) S d" "b \<in> set (rp_delete_backup_ids plan)" "b \<notin> S"
  shows "before_commit plan d0 i (Some FsDir) (insert b S) (move_tree [''backups'', b] [''quarantine'', trash_name plan, b] d)"
    (is "before_commit _ _ _ _ _ ?d")
proof -
  have "rest_kept plan d0 ?d"
    using b untouched_iff by (simp add: before_commit_def rest_kept_def entry_at_to_trash)
  moreover have "backups_kept plan d0 (insert b S) ?d"
    using b by (auto simp: before_commit_def backups_kept_def entry_at_to_trash)
  moreover have "trash_holds plan d0 (insert b S) ?d"
    using b by (auto simp: before_commit_def backups_kept_def trash_holds_def entry_at_to_trash)
  moreover have "entry_at ?d q = entry_at d q" if "q \<in> {trash_dir plan, intent_file plan, cleanup_file plan, completed_file plan}" for q
    using that by (auto simp: entry_at_to_trash journal_paths)
  ultimately show ?thesis
    using b by (simp add: before_commit_def)
qed

lemma before_commit_unmove:
  assumes b: "before_commit plan d0 i (Some FsDir) S d" "b \<in> set (rp_delete_backup_ids plan)" "b \<in> S"
  shows "before_commit plan d0 i (Some FsDir) (S - {b}) (move_tree [''quarantine'', trash_name plan, b] [''backups'', b] d)"
    (is "before_commit _ _ _ _ _ ?d")
proof -
  have "rest_kept plan d0 ?d"
    using b untouched_iff by (simp add: before_commit_def rest_kept_def entry_at_from_trash)
  moreover have "backups_kept plan d0 (S - {b}) ?d"
    using b by (auto simp: before_commit_def backups_kept_def trash_holds_def entry_at_from_trash)
  moreover have "trash_holds plan d0 (S - {b}) ?d"
    using b by (auto simp: before_commit_def trash_holds_def entry_at_from_trash)
  moreover have "entry_at ?d q = entry_at d q" if "q \<in> {trash_dir plan, intent_file plan, cleanup_file plan, completed_file plan}" for q
    using that by (auto simp: entry_at_from_trash journal_paths)
  ultimately show ?thesis
    using b by (auto simp: before_commit_def)
qed

lemma entry_set_phases:
  assumes "entry_set p e d d'" "p \<in> {trash_dir plan, intent_file plan, cleanup_file plan, approved_file plan, completed_file plan}"
  shows "rest_kept plan d0 d' \<longleftrightarrow> rest_kept plan d0 d" "backups_kept plan d0 S d' \<longleftrightarrow> backups_kept plan d0 S d"
    "trash_holds plan d0 S d' \<longleftrightarrow> trash_holds plan d0 S d"
    "entry_at d' (''quarantine'' # trash_name plan # b # r) = entry_at d (''quarantine'' # trash_name plan # b # r)"
proof -
  have "\<not> untouched plan p" using assms(2) by (auto simp: untouched_def)
  then have u: "untouched plan q \<Longrightarrow> entry_at d' q = entry_at d q" for q
    using assms(1) by (auto simp: entry_set_def)
  have j: "entry_at d' (''backups'' # q) = entry_at d (''backups'' # q)"
      "entry_at d' (''quarantine'' # trash_name plan # b # q) = entry_at d (''quarantine'' # trash_name plan # b # q)" for b q
    using assms by (auto simp: entry_set_def journal_paths)
  show "rest_kept plan d0 d' \<longleftrightarrow> rest_kept plan d0 d" "backups_kept plan d0 S d' \<longleftrightarrow> backups_kept plan d0 S d"
    "trash_holds plan d0 S d' \<longleftrightarrow> trash_holds plan d0 S d"
    "entry_at d' (''quarantine'' # trash_name plan # b # r) = entry_at d (''quarantine'' # trash_name plan # b # r)"
    using u j by (auto simp: rest_kept_def backups_kept_def trash_holds_def)
qed

lemma journal_paths_distinct:
  "distinct [trash_dir plan, intent_file plan, cleanup_file plan, approved_file plan, completed_file plan]"
  by (simp add: journal_paths)

lemma before_commit_set:
  assumes "before_commit plan d0 i t S d" "entry_set p e d d'"
  shows "p = approved_file plan \<Longrightarrow> before_commit plan d0 i t S d'"
    "p = intent_file plan \<Longrightarrow> before_commit plan d0 e t S d'"
    "p = trash_dir plan \<Longrightarrow> e \<noteq> None \<or> S = {} \<Longrightarrow> before_commit plan d0 i e S d'"
    "p = cleanup_file plan \<Longrightarrow> S = set (rp_delete_backup_ids plan) \<Longrightarrow> t = Some FsDir \<Longrightarrow> opened_layout plan d0 \<Longrightarrow>
       after_commit plan d0 i t e d'"
  using assms entry_set_phases [OF assms(2), of plan] journal_paths_distinct [of plan]
  by (auto simp: before_commit_def after_commit_def entry_set_def opened_layout_def trash_holds_def)

lemma after_commit_set:
  assumes "after_commit plan d0 i t c d" "entry_set p e d d'"
  shows "p = intent_file plan \<Longrightarrow> after_commit plan d0 e t c d'"
    "p = trash_dir plan \<Longrightarrow> e = None \<Longrightarrow> children d (trash_dir plan) = [] \<Longrightarrow> after_commit plan d0 i None c d'"
    "p = cleanup_file plan \<Longrightarrow> after_commit plan d0 i t e d'"
    "p = completed_file plan \<Longrightarrow> e = Some (FsFile bs) \<Longrightarrow> after_commit plan d0 i t c d'"
  using assms entry_set_phases [OF assms(2), of plan] journal_paths_distinct [of plan]
  by (auto simp: after_commit_def entry_set_def children_empty trash_dir_def)

subsection \<open>Triples of the journal operations\<close>

lemma write_retention_audit_triple:
  assumes "\<And>d d' bs. \<Phi> d \<Longrightarrow> entry_set (audit_path pid state) (Some (FsFile bs)) d d' \<Longrightarrow> \<Phi> d'"
  shows "triple (holds \<Phi>) (write_retention_audit codec pid rid ids state)
    (\<lambda>_. holds (\<lambda>d. \<Phi> d \<and> (\<exists>bs. entry_at d (audit_path pid state) = Some (FsFile bs)))) (\<lambda>_. holds \<Phi>)"
proof -
  let ?p = "audit_path pid state"
  have p: "?p \<noteq> []" by (simp add: audit_path_def)
  have w: "triple (holds \<Phi>) (write_new ?p bs) (\<lambda>_. holds (\<lambda>d. \<Phi> d \<and> (\<exists>bs. entry_at d ?p = Some (FsFile bs)))) (\<lambda>_. holds \<Phi>)" for bs
    by (rule write_new_rule [OF p]) (auto intro: assms simp: entry_set_def)
  have s: "triple (holds (\<lambda>d. \<Phi> d \<and> (\<exists>bs. entry_at d ?p = Some (FsFile bs)))) (sync_parent ?p)
      (\<lambda>_. holds (\<lambda>d. \<Phi> d \<and> (\<exists>bs. entry_at d ?p = Some (FsFile bs)))) (\<lambda>_. holds \<Phi>)"
    by (rule triple_weaken [OF sync_parent_triple [of "\<lambda>d. \<Phi> d \<and> (\<exists>bs. entry_at d ?p = Some (FsFile bs))"]]) auto
  show ?thesis
    unfolding write_retention_audit_def
    by (intro triple_then [OF ensure_directory_triple] triple_lift triple_match [OF w])
      (simp_all add: s, simp_all add: triple_def split: repository_error.splits fs_error.splits)
qed

lemma remove_if_exists_triple:
  assumes "p \<noteq> []" "\<And>d d'. \<Phi> d \<Longrightarrow> entry_set p None d d' \<Longrightarrow> \<Psi> d'"
  shows "triple (holds \<Phi>) (remove_if_exists p) (\<lambda>_. holds \<Psi>) (\<lambda>_. holds (\<lambda>d. \<Phi> d \<or> \<Psi> d))"
proof -
  have r: "triple (holds \<Phi>) (remove_file p) (\<lambda>_. holds \<Psi>) (\<lambda>e. holds (\<lambda>d. \<Phi> d \<and> (e = NotFound \<longrightarrow> entry_at d p = None)))"
    by (rule remove_file_triple) (rule assms(2) [OF _ entry_set_del [OF assms(1)]])
  have s: "triple (holds \<Psi>) (sync_parent p) (\<lambda>_. holds \<Psi>) (\<lambda>_. holds (\<lambda>d. \<Phi> d \<or> \<Psi> d))"
    by (rule triple_weaken [OF sync_parent_triple [of \<Psi>]]) auto
  have n: "\<Phi> d \<Longrightarrow> entry_at d p = None \<Longrightarrow> \<Psi> d" for d
    using assms(2) [of d d] by (simp add: entry_set_def)
  show ?thesis
    unfolding remove_if_exists_def
    by (rule triple_match [OF r], simp add: s) (auto simp: triple_def n split: fs_error.splits)
qed

lemma remove_empty_if_exists_triple:
  assumes "p \<noteq> []" "\<And>d d'. \<Phi> d \<Longrightarrow> entry_at d p = None \<or> children d p = [] \<Longrightarrow> entry_set p None d d' \<Longrightarrow> \<Psi> d'"
  shows "triple (holds \<Phi>) (remove_empty_if_exists p) (\<lambda>_. holds \<Psi>) (\<lambda>_. holds (\<lambda>d. \<Phi> d \<or> \<Psi> d))"
proof -
  have r: "triple (holds \<Phi>) (remove_dir p) (\<lambda>_. holds \<Psi>) (\<lambda>e. holds (\<lambda>d. \<Phi> d \<and> (e = NotFound \<longrightarrow> entry_at d p = None)))"
    by (rule remove_dir_triple) (rule assms(2) [OF _ _ entry_set_del [OF assms(1)]], auto)
  have s: "triple (holds \<Psi>) (sync_parent p) (\<lambda>_. holds \<Psi>) (\<lambda>_. holds (\<lambda>d. \<Phi> d \<or> \<Psi> d))"
    by (rule triple_weaken [OF sync_parent_triple [of \<Psi>]]) auto
  have n: "\<Phi> d \<Longrightarrow> entry_at d p = None \<Longrightarrow> \<Psi> d" for d
    using assms(2) [of d d] by (simp add: entry_set_def)
  show ?thesis
    unfolding remove_empty_if_exists_def
    by (rule triple_match [OF r], simp add: s) (auto simp: triple_def n split: fs_error.splits)
qed

subsection \<open>Execution under faults\<close>

lemma interruptedI:
  "before_commit plan d0 None None {} d \<Longrightarrow> interrupted plan d0 bs d"
  "strict_prefix bs' bs \<Longrightarrow> before_commit plan d0 (Some (FsFile bs')) None {} d \<Longrightarrow> interrupted plan d0 bs d"
  "before_commit plan d0 (Some (FsFile bs)) None S d \<Longrightarrow> interrupted plan d0 bs d"
  "before_commit plan d0 (Some (FsFile bs)) (Some FsDir) S d \<Longrightarrow> interrupted plan d0 bs d"
  "after_commit plan d0 (Some (FsFile bs)) None (Some (FsFile c)) d \<Longrightarrow> interrupted plan d0 bs d"
  "after_commit plan d0 (Some (FsFile bs)) (Some FsDir) (Some (FsFile c)) d \<Longrightarrow> interrupted plan d0 bs d"
  "after_commit plan d0 None None None d \<Longrightarrow> entry_at d (completed_file plan) \<noteq> None \<Longrightarrow> interrupted plan d0 bs d"
  "after_commit plan d0 (Some (FsFile bs)) None None d \<Longrightarrow> entry_at d (completed_file plan) \<noteq> None \<Longrightarrow> interrupted plan d0 bs d"
  unfolding interrupted_def by blast+

lemma journal_paths_nonempty [simp]:
  "trash_dir plan \<noteq> []" "intent_file plan \<noteq> []" "cleanup_file plan \<noteq> []" "approved_file plan \<noteq> []" "completed_file plan \<noteq> []"
  by (simp_all add: journal_paths)

lemma tx_begin_triple:
  assumes "journal_json codec plan bs"
  shows "triple (holds (before_commit plan d0 None None {})) (tx_begin codec plan)
    (\<lambda>tx. holds (\<lambda>d. tx = tx_of_plan plan \<and> before_commit plan d0 (Some (FsFile bs)) (Some FsDir) {} d))
    (\<lambda>_. holds (interrupted plan d0 bs))"
proof -
  let ?B = "before_commit plan d0"
  have json: "intent_to_json codec (intent_from_plan plan) = Some bs"
    using assms by (simp add: journal_json_def)
  have torn: "interrupted plan d0 bs d'" if "?B None None {} d" "entry_set (intent_file plan) (Some (FsFile (take n bs))) d d'" for d d' n
  proof (cases "n < length bs")
    case True
    then have "strict_prefix (take n bs) bs"
      by (metis append_take_drop_id drop_eq_Nil leD prefixI strict_prefixI append_self_conv)
    then show ?thesis using before_commit_set(2) [OF that] by (auto intro: interruptedI(2))
  next
    case False
    then show ?thesis using before_commit_set(2) [OF that] by (auto intro: interruptedI(3))
  qed
  have w: "triple (holds (?B None None {})) (write_new (intent_file plan) bs)
      (\<lambda>_. holds (?B (Some (FsFile bs)) None {})) (\<lambda>_. holds (interrupted plan d0 bs))"
    by (rule write_new_rule) (auto intro: before_commit_set(2) torn interruptedI(1))
  have c: "triple (holds (?B (Some (FsFile bs)) None {})) (do_map_err map_create_error (create_dir (trash_dir plan)))
      (\<lambda>_. holds (?B (Some (FsFile bs)) (Some FsDir) {})) (\<lambda>_. holds (interrupted plan d0 bs))"
    by (rule triple_map_err, rule triple_weaken [OF create_dir_triple [of "?B (Some (FsFile bs)) None {}" _ "?B (Some (FsFile bs)) (Some FsDir) {}"]])
      (auto intro: interruptedI(3) before_commit_set(3) [OF _ entry_set_put])
  have s1: "triple (holds (?B (Some (FsFile bs)) None {})) (sync_parent (intent_file plan))
      (\<lambda>_. holds (?B (Some (FsFile bs)) None {})) (\<lambda>_. holds (interrupted plan d0 bs))"
    by (rule sync_parent_crash) (rule interruptedI(3))
  have s2: "triple (holds (?B (Some (FsFile bs)) (Some FsDir) {})) (sync_parent (trash_dir plan))
      (\<lambda>_. holds (?B (Some (FsFile bs)) (Some FsDir) {})) (\<lambda>_. holds (interrupted plan d0 bs))"
    by (rule sync_parent_crash) (rule interruptedI(4))
  have i: "triple (holds (?B None None {})) (tx_write_intent codec (tx_of_plan plan))
      (\<lambda>_. holds (?B (Some (FsFile bs)) None {})) (\<lambda>_. holds (interrupted plan d0 bs))"
    unfolding tx_write_intent_def tx_of_plan_simps json
    by (rule triple_lift) (auto simp: ok_or_def intro: triple_then [OF w s1])
  show ?thesis
    unfolding tx_begin_def Let_def tx_of_plan_simps
    by (rule triple_then [OF i], rule triple_then [OF c], rule triple_then [OF s2]) (simp add: triple_def)
qed

lemma tx_abort_triple:
  "triple (holds (before_commit plan d0 (Some (FsFile bs)) (Some FsDir) {})) (tx_abort (tx_of_plan plan))
    (\<lambda>_. holds (before_commit plan d0 None None {})) (\<lambda>_. holds (interrupted plan d0 bs))"
proof -
  let ?B = "before_commit plan d0"
  have t: "triple (holds (?B (Some (FsFile bs)) (Some FsDir) {})) (remove_empty_if_exists (trash_dir plan))
      (\<lambda>_. holds (?B (Some (FsFile bs)) None {})) (\<lambda>_. holds (interrupted plan d0 bs))"
    by (rule triple_weaken [OF remove_empty_if_exists_triple [of _ "?B (Some (FsFile bs)) (Some FsDir) {}" "?B (Some (FsFile bs)) None {}"]])
      (auto intro: before_commit_set(3) interruptedI(3,4))
  have same: "?B i t S d'" if "?B i t S d" "entry_set (cleanup_file plan) None d d'" for i t S d d'
  proof -
    have "entry_at d' q = entry_at d q" for q using that by (simp add: before_commit_def entry_set_def)
    then have "entry_at d' = entry_at d" by blast
    then show ?thesis using that(1) by (simp add: before_commit_def rest_kept_def backups_kept_def trash_holds_def)
  qed
  have c: "triple (holds (?B (Some (FsFile bs)) None {})) (remove_if_exists (cleanup_file plan))
      (\<lambda>_. holds (?B (Some (FsFile bs)) None {})) (\<lambda>_. holds (interrupted plan d0 bs))"
    by (rule triple_weaken [OF remove_if_exists_triple [of _ "?B (Some (FsFile bs)) None {}" "?B (Some (FsFile bs)) None {}"]])
      (auto intro: same interruptedI(3))
  have i: "triple (holds (?B (Some (FsFile bs)) None {})) (remove_if_exists (intent_file plan))
      (\<lambda>_. holds (?B None None {})) (\<lambda>_. holds (interrupted plan d0 bs))"
    by (rule triple_weaken [OF remove_if_exists_triple [of _ "?B (Some (FsFile bs)) None {}" "?B None None {}"]])
      (auto intro: before_commit_set(2) interruptedI(1,3))
  show ?thesis
    unfolding tx_abort_def tx_finish_def tx_of_plan_simps by (intro triple_then [OF t] triple_then [OF c] i)
qed

definition moved_pairs :: "retention_plan \<Rightarrow> backup_id list \<Rightarrow> (path \<times> path) list" where
  "moved_pairs plan ids = map (\<lambda>b. ([''backups'', b], [''quarantine'', trash_name plan, b])) ids"

lemma rollback_moves_triple:
  assumes "distinct ids" "set ids \<subseteq> set (rp_delete_backup_ids plan)"
  shows "triple (holds (before_commit plan d0 (Some (FsFile bs)) (Some FsDir) (set ids))) (rollback_moves (moved_pairs plan ids))
    (\<lambda>_. holds (before_commit plan d0 (Some (FsFile bs)) (Some FsDir) {})) (\<lambda>_. holds (interrupted plan d0 bs))"
  using assms
proof (induction ids rule: rev_induct)
  case Nil
  then show ?case by (simp add: rollback_moves_def moved_pairs_def triple_def)
next
  case (snoc b ids)
  let ?B = "before_commit plan d0 (Some (FsFile bs)) (Some FsDir)"
  have set: "set (ids @ [b]) - {b} = set ids" using snoc.prems by auto
  have step: "?B (set ids) (move_tree [''quarantine'', trash_name plan, b] [''backups'', b] d)" if "?B (set (ids @ [b])) d" for d
    using before_commit_unmove [OF that, of b] snoc.prems by (simp only: set) simp
  have r: "triple (holds (?B (set (ids @ [b])))) (do_map_err (\<lambda>_. RecoveryRequired) (rename [''quarantine'', trash_name plan, b] [''backups'', b]))
      (\<lambda>_. holds (?B (set ids))) (\<lambda>_. holds (interrupted plan d0 bs))"
    by (rule triple_map_err, rule triple_weaken [OF rename_triple [of "?B (set (ids @ [b]))" _ "?B (set ids)"]])
      (erule step, assumption+, rule interruptedI(4))
  have s: "triple (holds (?B (set ids))) (sync_parent q) (\<lambda>_. holds (?B (set ids))) (\<lambda>_. holds (interrupted plan d0 bs))" for q
    by (rule sync_parent_crash) (rule interruptedI(4))
  have IH: "triple (holds (?B (set ids))) (rollback_moves (moved_pairs plan ids)) (\<lambda>_. holds (?B {})) (\<lambda>_. holds (interrupted plan d0 bs))"
    using snoc by simp
  have "rollback_moves (moved_pairs plan (ids @ [b])) =
      do_then (do_then (do_map_err (\<lambda>_. RecoveryRequired) (rename [''quarantine'', trash_name plan, b] [''backups'', b])) (\<lambda>_.
        do_then (sync_parent [''backups'', b]) (\<lambda>_. sync_parent [''quarantine'', trash_name plan, b])))
        (\<lambda>_. rollback_moves (moved_pairs plan ids))"
    by (simp add: rollback_moves_def moved_pairs_def)
  then show ?case
    by (simp only:) (rule triple_then [OF triple_then [OF r triple_then [OF s s]] IH])
qed

lemma move_backups_triple:
  assumes "distinct (done @ rest)" "set (done @ rest) = set (rp_delete_backup_ids plan)"
  shows "triple (holds (before_commit plan d0 (Some (FsFile bs)) (Some FsDir) (set done)))
    (move_backups (tx_of_plan plan) (moved_pairs plan done) rest)
    (\<lambda>_. holds (before_commit plan d0 (Some (FsFile bs)) (Some FsDir) (set (rp_delete_backup_ids plan))))
    (\<lambda>_. holds (interrupted plan d0 bs))"
  using assms
proof (induction rest arbitrary: "done")
  case Nil
  then show ?case by (simp add: triple_def)
next
  case (Cons b rest)
  let ?B = "before_commit plan d0 (Some (FsFile bs)) (Some FsDir)"
  let ?E = "\<lambda>_ :: repository_error. holds (interrupted plan d0 bs)"
  let ?s = "[''backups'', b]" and ?t = "[''quarantine'', trash_name plan, b]"
  have sub: "b \<in> set (rp_delete_backup_ids plan)" "b \<notin> set done" "set (done @ [b]) \<subseteq> set (rp_delete_backup_ids plan)" "distinct (done @ [b])"
    using Cons.prems by auto
  have pairs: "moved_pairs plan done @ [(?s, ?t)] = moved_pairs plan (done @ [b])"
    by (simp add: moved_pairs_def)
  have paths: "backups_root @ [b] = ?s" "tx_trash (tx_of_plan plan) @ [b] = ?t"
    by (simp_all add: backups_root_def tx_of_plan_simps trash_dir_def)
  have step: "?B (set (done @ [b])) (move_tree ?s ?t d)" if "?B (set done) d" for d
    using before_commit_move [OF that sub(1,2)] by simp
  have r: "triple (holds (?B (set done))) (rename ?s ?t) (\<lambda>_. holds (?B (set (done @ [b])))) (\<lambda>_. holds (?B (set done)))"
    by (rule rename_triple) (erule step)
  have undo: "triple (holds (?B (set ids))) (do_then (rollback_moves (moved_pairs plan ids)) (\<lambda>_. do_then (tx_abort (tx_of_plan plan)) (\<lambda>_. do_fail e))) Q ?E"
    if "distinct ids" "set ids \<subseteq> set (rp_delete_backup_ids plan)" for ids e and Q :: "unit \<Rightarrow> world \<Rightarrow> bool"
    by (intro triple_then [OF rollback_moves_triple [OF that]] triple_then [OF tx_abort_triple])
      (auto simp: triple_def intro: interruptedI(1))
  have s: "triple (holds (?B (set (done @ [b])))) (sync_move (moved_pairs plan (done @ [b])))
      (\<lambda>_. holds (?B (set (done @ [b])))) (\<lambda>_. holds (?B (set (done @ [b]))))"
    by (simp add: sync_move_def moved_pairs_def) (intro triple_then [OF sync_parent_triple] sync_parent_triple)
  have ok: "triple (holds (?B (set (done @ [b])))) (move_backups (tx_of_plan plan) (moved_pairs plan (done @ [b])) rest)
      (\<lambda>_. holds (?B (set (rp_delete_backup_ids plan)))) ?E"
    using Cons.prems by (intro Cons.IH) auto
  show ?case
    unfolding move_backups.simps Let_def paths pairs
    by (rule triple_match [OF r]; simp only: sum.case)
      ((rule triple_match [OF s]; simp only: sum.case; rule ok undo; use Cons.prems in auto),
       (rule undo; use Cons.prems in auto))
qed

text \<open>Read-only checks keep any assertion on the disk.\<close>

lemma real_directory_triple: "triple (holds \<Phi>) (real_directory_or_absent p) (\<lambda>_. holds \<Phi>) (\<lambda>_. holds \<Phi>)"
proof -
  have s: "triple (holds \<Phi>) (stat p) (\<lambda>_. holds \<Phi>) (\<lambda>_. holds \<Phi>)"
    by (rule triple_weaken [OF stat_triple [of \<Phi>]]) auto
  show ?thesis
    unfolding real_directory_or_absent_def
    by (rule triple_match [OF s]) (auto simp: triple_def split: fs_error.splits)
qed

lemma validate_trash_triple: "triple (holds \<Phi>) (validate_trash_entries intent trash) (\<lambda>_. holds \<Phi>) (\<lambda>_. holds \<Phi>)"
  unfolding validate_trash_entries_def
  by (intro triple_then [OF path_exists_triple [of \<Phi>]] triple_if triple_done triple_each
      triple_then [OF ensure_directory_triple] triple_then [OF triple_map_err [OF read_dir_triple]]
      triple_then [OF real_directory_triple])

lemma validate_cleanup_triple: "triple (holds \<Phi>) (validate_cleanup_state intent trash) (\<lambda>_. holds \<Phi>) (\<lambda>_. holds \<Phi>)"
  unfolding validate_cleanup_state_def
  by (intro triple_then [OF validate_trash_triple] triple_each triple_then [OF path_exists_triple [of \<Phi>]] triple_if triple_done)

text \<open>After the commit point the cleanup only removes what is in the trash.\<close>

definition committed :: "retention_plan \<Rightarrow> disk \<Rightarrow> byte list \<Rightarrow> byte list \<Rightarrow> disk \<Rightarrow> bool" where
  "committed plan d0 bs c d \<longleftrightarrow>
     (\<exists>t. t \<in> {None, Some FsDir} \<and> after_commit plan d0 (Some (FsFile bs)) t (Some (FsFile c)) d)"

lemma committed_interrupted: "committed plan d0 bs c d \<Longrightarrow> interrupted plan d0 bs d"
  by (auto simp: committed_def intro: interruptedI)

lemma after_commit_shrink:
  assumes d: "after_commit plan d0 i t c d"
    and d': "\<And>q. entry_at d' q = (if q \<in> X then None else entry_at d q)"
    and X: "\<And>q. q \<in> X \<Longrightarrow> prefix [''quarantine'', trash_name plan, b] q"
      "[''quarantine'', trash_name plan, b] \<in> X \<Longrightarrow> X = {q. prefix [''quarantine'', trash_name plan, b] q}"
  shows "after_commit plan d0 i t c d'"
proof -
  have j: "q \<notin> X" if "q \<in> {trash_dir plan, intent_file plan, cleanup_file plan, completed_file plan} \<or> untouched plan q \<or> (\<exists>r. q = ''backups'' # r)" for q
    using that X(1) [of q] by (auto simp: journal_paths untouched_iff(1))
  have "rest_kept plan d0 d'" "backups_kept plan d0 (set (rp_delete_backup_ids plan)) d'"
    using d j by (auto simp: after_commit_def rest_kept_def backups_kept_def d')
  moreover have "b' \<in> set (rp_delete_backup_ids plan) \<and> t = Some FsDir \<and> entry_at d' [''quarantine'', trash_name plan, b'] = Some FsDir"
    if "entry_at d' (''quarantine'' # trash_name plan # b' # r) \<noteq> None" for b' r
  proof -
    have n: "''quarantine'' # trash_name plan # b' # r \<notin> X" and e: "entry_at d (''quarantine'' # trash_name plan # b' # r) \<noteq> None"
      using that by (auto simp: d' split: if_splits)
    have "[''quarantine'', trash_name plan, b'] \<notin> X"
    proof
      assume x: "[''quarantine'', trash_name plan, b'] \<in> X"
      then have "b' = b" using X(1) by fastforce
      with x X(2) n show False by auto
    qed
    then show ?thesis using d e unfolding after_commit_def d' by auto
  qed
  ultimately show ?thesis
    using d j unfolding after_commit_def by (simp add: d')
qed

lemma remove_backup_triple:
  "triple (holds (committed plan d0 bs c)) (remove_dir_all [''quarantine'', trash_name plan, b])
    (\<lambda>_. holds (committed plan d0 bs c)) (\<lambda>_. holds (committed plan d0 bs c))"
proof (rule triple_pointwise)
  fix d assume "committed plan d0 bs c d"
  then obtain t where t: "t \<in> {None, Some FsDir}" "after_commit plan d0 (Some (FsFile bs)) t (Some (FsFile c)) d"
    by (auto simp: committed_def)
  let ?p = "[''quarantine'', trash_name plan, b]"
  show "triple (\<lambda>w. disk w = d) (remove_dir_all ?p) (\<lambda>_. holds (committed plan d0 bs c)) (\<lambda>_. holds (committed plan d0 bs c))"
  proof (rule triple_weaken [OF remove_dir_all_triple [of ?p d]])
    fix w :: world assume w: "\<forall>q. entry_at (disk w) q = (if prefix ?p q then None else entry_at d q)"
    have "after_commit plan d0 (Some (FsFile bs)) t (Some (FsFile c)) (disk w)"
      by (rule after_commit_shrink [OF t(2), of _ "{q. prefix ?p q}" b]) (use w in auto)
    then show "committed plan d0 bs c (disk w)" using t(1) by (auto simp: committed_def)
  next
    fix w :: world assume "\<exists>X. ?p \<notin> X \<and> (\<forall>q\<in>X. prefix ?p q) \<and> (\<forall>q. entry_at (disk w) q = (if q \<in> X then None else entry_at d q))"
    then obtain X where X: "?p \<notin> X" "\<forall>q\<in>X. prefix ?p q" "\<forall>q. entry_at (disk w) q = (if q \<in> X then None else entry_at d q)" by blast
    have "after_commit plan d0 (Some (FsFile bs)) t (Some (FsFile c)) (disk w)"
      by (rule after_commit_shrink [OF t(2), of _ X b]) (use X in auto)
    then show "committed plan d0 bs c (disk w)" using t(1) by (auto simp: committed_def)
  qed auto
qed

lemma cleanup_transaction_triple:
  "triple (holds (committed plan d0 bs c)) (cleanup_transaction (intent_from_plan plan) (trash_dir plan))
    (\<lambda>_. holds (after_commit plan d0 (Some (FsFile bs)) None (Some (FsFile c)))) (\<lambda>_. holds (interrupted plan d0 bs))"
proof -
  let ?C = "committed plan d0 bs c" and ?I = "interrupted plan d0 bs"
  let ?A = "after_commit plan d0 (Some (FsFile bs)) None (Some (FsFile c))"
  have w: "triple (holds ?C) m (\<lambda>_. holds ?C) (\<lambda>_. holds ?I)"
    if "triple (holds ?C) m (\<lambda>_. holds ?C) (\<lambda>_. holds ?C)" for m :: "unit repo"
    using that by (rule triple_weaken) (auto intro: committed_interrupted)
  have removed: "?A d'" if C: "?C d" and e: "entry_at d (trash_dir plan) = None \<or> children d (trash_dir plan) = []"
    and s: "entry_set (trash_dir plan) None d d'" for d d'
  proof -
    obtain t where t: "after_commit plan d0 (Some (FsFile bs)) t (Some (FsFile c)) d"
      using C by (auto simp: committed_def)
    then have "children d (trash_dir plan) = []"
      using e by (auto simp: after_commit_def children_empty trash_dir_def)
    then show ?thesis using after_commit_set(2) [OF t s] by simp
  qed
  have r: "triple (holds ?C) (do_map_err (\<lambda>_. CleanupPending) (remove_empty_if_exists (trash_dir plan))) (\<lambda>_. holds ?A) (\<lambda>_. holds ?I)"
    by (rule triple_map_err, rule triple_weaken [OF remove_empty_if_exists_triple [of _ ?C ?A]])
      (auto intro: removed committed_interrupted interruptedI(5))
  have p: "trash_dir plan @ [b] = [''quarantine'', trash_name plan, b]" for b
    by (simp add: trash_dir_def)
  show ?thesis
    unfolding cleanup_transaction_def p
    by (intro triple_then [OF w [OF validate_cleanup_triple]] triple_then [OF w] triple_each r
        triple_then [OF path_exists_triple [of ?C]] triple_if triple_done
        triple_then [OF triple_map_err [OF remove_backup_triple]] sync_parent_triple)
qed

lemma tx_mark_cleanup_ready_triple:
  assumes "opened_layout plan d0"
  shows "triple (holds (before_commit plan d0 (Some (FsFile bs)) (Some FsDir) (set (rp_delete_backup_ids plan))))
    (tx_mark_cleanup_ready (tx_of_plan plan)) (\<lambda>_. holds (committed plan d0 bs [])) (\<lambda>_. holds (interrupted plan d0 bs))"
proof -
  let ?B = "before_commit plan d0 (Some (FsFile bs)) (Some FsDir) (set (rp_delete_backup_ids plan))"
  have commit: "after_commit plan d0 (Some (FsFile bs)) (Some FsDir) e d'" if "?B d" "entry_set (cleanup_file plan) e d d'" for d d' e
    by (rule before_commit_set(4) [OF that refl refl refl assms])
  have "triple (holds ?B) (write_new (cleanup_file plan) []) (\<lambda>_. holds (committed plan d0 bs [])) (\<lambda>_. holds (interrupted plan d0 bs))"
  proof (rule write_new_rule)
    fix d d' assume "?B d" "entry_set (cleanup_file plan) (Some (FsFile [])) d d'"
    then show "committed plan d0 bs [] d'"
      using commit by (auto simp: committed_def)
  next
    fix d d' n assume "?B d" "entry_set (cleanup_file plan) (Some (FsFile (take n []))) d d'"
    then show "interrupted plan d0 bs d'"
      using commit by (auto intro: interruptedI(6))
  qed (auto intro: interruptedI(4))
  then show ?thesis
    unfolding tx_mark_cleanup_ready_def tx_of_plan_simps
    by (rule triple_then) (rule sync_parent_crash [OF committed_interrupted])
qed

lemma tx_finish_triple:
  "triple (holds (\<lambda>d. after_commit plan d0 (Some (FsFile bs)) None (Some (FsFile c)) d \<and> (\<exists>z. entry_at d (completed_file plan) = Some (FsFile z))))
    (tx_finish (tx_of_plan plan)) (\<lambda>_. holds (\<lambda>d. after_commit plan d0 None None None d \<and> entry_at d (completed_file plan) \<noteq> None))
    (\<lambda>_. holds (interrupted plan d0 bs))"
proof -
  let ?A = "\<lambda>i c d. after_commit plan d0 i None c d \<and> (\<exists>z. entry_at d (completed_file plan) = Some (FsFile z))"
  have z: "entry_set p e d d' \<Longrightarrow> p \<noteq> completed_file plan \<Longrightarrow> entry_at d' (completed_file plan) = entry_at d (completed_file plan)" for p e d d'
    by (simp add: entry_set_def)
  have n: "cleanup_file plan \<noteq> completed_file plan" "intent_file plan \<noteq> completed_file plan"
    by (simp_all add: journal_paths)
  have c: "triple (holds (?A (Some (FsFile bs)) (Some (FsFile c)))) (remove_if_exists (cleanup_file plan))
      (\<lambda>_. holds (?A (Some (FsFile bs)) None)) (\<lambda>_. holds (interrupted plan d0 bs))"
    by (rule triple_weaken [OF remove_if_exists_triple [of _ "?A (Some (FsFile bs)) (Some (FsFile c))" "?A (Some (FsFile bs)) None"]])
      (auto simp: z n intro: after_commit_set(3) interruptedI(5,8))
  have i: "triple (holds (?A (Some (FsFile bs)) None)) (remove_if_exists (intent_file plan))
      (\<lambda>_. holds (\<lambda>d. after_commit plan d0 None None None d \<and> entry_at d (completed_file plan) \<noteq> None)) (\<lambda>_. holds (interrupted plan d0 bs))"
    by (rule triple_weaken [OF remove_if_exists_triple [of _ "?A (Some (FsFile bs)) None" "?A None None"]])
      (auto simp: z n intro: after_commit_set(1) interruptedI(7,8))
  show ?thesis
    unfolding tx_finish_def tx_of_plan_simps by (intro triple_then [OF c] i)
qed

lemma before_commit_start: "opened_layout plan d0 \<Longrightarrow> before_commit plan d0 None None {} d0"
  by (auto simp: before_commit_def opened_layout_def rest_kept_def backups_kept_def trash_holds_def journal_paths trash_name_def)

lemma execute_moves_triple:
  assumes "opened_layout plan d0" "executable_plan plan" "journal_json codec plan bs"
  shows "triple (\<lambda>w. disk w = d0) (execute_moves codec plan)
    (\<lambda>_. holds (\<lambda>d. after_commit plan d0 None None None d \<and> entry_at d (completed_file plan) \<noteq> None))
    (\<lambda>_. holds (interrupted plan d0 bs))"
proof -
  let ?I = "\<lambda>_ :: repository_error. holds (interrupted plan d0 bs)"
  let ?A = "after_commit plan d0 (Some (FsFile bs)) None (Some (FsFile []))"
  note start = before_commit_start [OF assms(1)]
  have a: "triple (\<lambda>w. disk w = d0) (write_audit codec plan ''approved'') (\<lambda>_. holds (before_commit plan d0 None None {})) ?I"
    unfolding write_audit_def
    by (rule triple_weaken [OF write_retention_audit_triple [of "before_commit plan d0 None None {}"]])
      (auto simp: audit_path_simps start intro: before_commit_set(1) interruptedI(1))
  have z: "triple (holds ?A) (write_audit codec plan ''completed'')
      (\<lambda>_. holds (\<lambda>d. ?A d \<and> (\<exists>z. entry_at d (completed_file plan) = Some (FsFile z)))) ?I"
    unfolding write_audit_def
    by (rule triple_weaken [OF write_retention_audit_triple [of ?A]])
      (auto simp: audit_path_simps intro: after_commit_set(4) interruptedI(5))
  have m: "triple (holds (\<lambda>d. tx = tx_of_plan plan \<and> before_commit plan d0 (Some (FsFile bs)) (Some FsDir) {} d))
      (do_then (move_backups tx [] (rp_delete_backup_ids plan)) (\<lambda>_.
       do_then (tx_mark_cleanup_ready tx) (\<lambda>_. do_then (tx_cleanup tx) (\<lambda>_.
       do_then (write_audit codec plan ''completed'') (\<lambda>_. tx_finish tx)))))
      (\<lambda>_. holds (\<lambda>d. after_commit plan d0 None None None d \<and> entry_at d (completed_file plan) \<noteq> None)) ?I" for tx
  proof (cases "tx = tx_of_plan plan")
    case True
    have mv: "triple (holds (before_commit plan d0 (Some (FsFile bs)) (Some FsDir) {})) (move_backups (tx_of_plan plan) [] (rp_delete_backup_ids plan))
        (\<lambda>_. holds (before_commit plan d0 (Some (FsFile bs)) (Some FsDir) (set (rp_delete_backup_ids plan)))) ?I"
      using move_backups_triple [of "[]" "rp_delete_backup_ids plan" plan d0 bs] assms(2)
      by (simp add: moved_pairs_def executable_plan_def)
    show ?thesis
      unfolding True tx_cleanup_def tx_of_plan_simps
      by (simp, intro triple_then [OF mv] triple_then [OF tx_mark_cleanup_ready_triple [OF assms(1)]]
          triple_then [OF cleanup_transaction_triple] triple_then [OF z] tx_finish_triple [simplified])
  qed (simp add: triple_def)
  show ?thesis
    unfolding execute_moves_def by (rule triple_then [OF a], rule triple_then [OF tx_begin_triple [OF assms(3)]], rule m)
qed

end
