(* ===== verification/Retention_Reconcile.thy ===== *)
theory Retention_Reconcile
  imports Retention_Recovery
begin

text \<open>
  Reconciliation of the retention journal when the repository is opened again, on every disk an
  interrupted execution can leave, and the crash-safety theorem of the retention moves.
\<close>

section \<open>Lemmas\<close>

subsection \<open>Fault-free runs\<close>

lemma runs_remove_if_exists:
  assumes "p \<noteq> []" "entry_at d (butlast p) \<noteq> None" "entry_at d p \<noteq> Some FsDir"
  shows "\<exists>d'. runs (remove_if_exists p) d d' \<and> entry_set p None d d'"
proof (cases "entry_at d p")
  case None
  then show ?thesis
    by (intro exI [of _ d]) (auto simp: runs_def remove_if_exists_def do_defs quiet_simps entry_set_def)
next
  case (Some e)
  have "runs (sync_parent p) (del p d) (del p d)"
    by (rule runs_sync_parent) (use assms in \<open>auto simp: entry_at_del butlast_neq\<close>)
  then show ?thesis
    using Some assms entry_set_del [OF assms(1), of d]
    by (intro exI [of _ "del p d"]) (auto simp: runs_def remove_if_exists_def do_match_def quiet_simps split: entry.splits)
qed

lemma runs_remove_empty_if_exists:
  assumes "p \<noteq> []" "entry_at d (butlast p) \<noteq> None" "entry_at d p = None \<or> entry_at d p = Some FsDir \<and> children d p = []"
  shows "\<exists>d'. runs (remove_empty_if_exists p) d d' \<and> entry_set p None d d'"
proof (cases "entry_at d p")
  case None
  then show ?thesis
    by (intro exI [of _ d]) (auto simp: runs_def remove_empty_if_exists_def do_defs quiet_simps entry_set_def)
next
  case (Some e)
  have "runs (sync_parent p) (del p d) (del p d)"
    by (rule runs_sync_parent) (use assms in \<open>auto simp: entry_at_del butlast_neq\<close>)
  then show ?thesis
    using Some assms entry_set_del [OF assms(1), of d]
    by (intro exI [of _ "del p d"]) (auto simp: runs_def remove_empty_if_exists_def do_match_def quiet_simps)
qed

lemma runs_validate_trash:
  assumes "entry_at d trash = None \<or> entry_at d trash = Some FsDir"
    "\<And>n. entry_at d (trash @ [n]) \<noteq> None \<Longrightarrow> n \<in> set (ri_delete_backup_ids intent) \<and> entry_at d (trash @ [n]) = Some FsDir"
  shows "runs (validate_trash_entries intent trash) d d"
proof (cases "entry_at d trash")
  case None
  then show ?thesis by (simp add: runs_def validate_trash_entries_def do_defs quiet_simps)
next
  case (Some e)
  have "runs (do_each (\<lambda>name. if name \<notin> set (ri_delete_backup_ids intent) then do_fail RecoveryRequired
      else do_then (real_directory_or_absent (trash @ [name])) (\<lambda>real.
        if real then do_return () else do_fail RecoveryRequired)) (children d trash)) d d"
  proof (rule runs_each)
    fix n assume "n \<in> set (children d trash)"
    then have "n \<in> set (ri_delete_backup_ids intent)" "entry_at d (trash @ [n]) = Some FsDir"
      using assms(2) [of n] unfolding children_entry by blast+
    then show "runs (if n \<notin> set (ri_delete_backup_ids intent) then do_fail RecoveryRequired
      else do_then (real_directory_or_absent (trash @ [n])) (\<lambda>real.
        if real then do_return () else do_fail RecoveryRequired)) d d"
      by (simp add: runs_def real_directory_or_absent_def do_defs quiet_simps ok_or_def)
  qed
  then show ?thesis
    using Some assms(1)
    by (simp add: runs_def validate_trash_entries_def ensure_directory_def do_defs quiet_simps ok_or_def map_err_def)
qed


subsection \<open>Rolling back\<close>

lemma rest_kept_layout:
  assumes "opened_layout plan d0" "rest_kept plan d0 d"
  shows "entry_at d [''backups''] = Some FsDir" "entry_at d [''quarantine''] = Some FsDir" "entry_at d [''audit''] = Some FsDir"
  using assms by (auto simp: rest_kept_def untouched_def opened_layout_def journal_paths)

lemma before_commit_layout:
  assumes "opened_layout plan d0" "before_commit plan d0 i t S d"
  shows "entry_at d [''backups''] = Some FsDir" "entry_at d [''quarantine''] = Some FsDir" "entry_at d [''audit''] = Some FsDir"
  using rest_kept_layout [OF assms(1)] assms(2) by (simp_all add: before_commit_def)

lemma before_commit_backup:
  assumes "opened_layout plan d0" "before_commit plan d0 i t S d" "b \<in> set (rp_delete_backup_ids plan)"
  shows "entry_at d [''backups'', b] = (if b \<in> S then None else Some FsDir)"
    "entry_at d [''quarantine'', trash_name plan, b] = (if b \<in> S then Some FsDir else None)"
  using assms by (auto simp: before_commit_def backups_kept_def trash_holds_def opened_layout_def)

lemma before_commit_trash:
  assumes "opened_layout plan d0" "before_commit plan d0 i t S d" "entry_at d [''quarantine'', trash_name plan, b] \<noteq> None"
  shows "b \<in> set (rp_delete_backup_ids plan) \<and> entry_at d [''quarantine'', trash_name plan, b] = Some FsDir"
proof -
  have "b \<in> S" using assms(2,3) by (auto simp: before_commit_def trash_holds_def split: if_splits)
  moreover have "S \<subseteq> set (rp_delete_backup_ids plan)" using assms(2) by (simp add: before_commit_def)
  ultimately show ?thesis using before_commit_backup(2) [OF assms(1,2)] by auto
qed

lemma intent_ids [simp]: "ri_delete_backup_ids (intent_from_plan plan) = rp_delete_backup_ids plan"
  "ri_plan_id (intent_from_plan plan) = rp_plan_id plan" "ri_repository_id (intent_from_plan plan) = rp_repository_id plan"
  by (simp_all add: intent_from_plan_def)

lemma trash_child: "trash_dir plan @ [b] = [''quarantine'', trash_name plan, b]" "backups_root @ [b] = [''backups'', b]"
  by (simp_all add: trash_dir_def backups_root_def)

lemma runs_validate_rollback:
  assumes "opened_layout plan d0" "before_commit plan d0 i t S d" "t \<in> {None, Some FsDir}"
  shows "runs (validate_rollback_state (intent_from_plan plan) (trash_dir plan)) d d"
proof -
  have "runs (validate_trash_entries (intent_from_plan plan) (trash_dir plan)) d d"
    by (rule runs_validate_trash)
      (use assms before_commit_trash [OF assms(1,2)] in \<open>auto simp: trash_child before_commit_def\<close>)
  then show ?thesis
    unfolding validate_rollback_state_def trash_child intent_ids
    by (rule runs_then, intro runs_each)
      (auto simp: before_commit_backup [OF assms(1,2)] runs_def real_directory_or_absent_def do_defs quiet_simps ok_or_def)
qed

lemma runs_rollback_loop:
  assumes "opened_layout plan d0" "before_commit plan d0 i (Some FsDir) S d" "set ids \<subseteq> set (rp_delete_backup_ids plan)"
  shows "\<exists>d'. runs (do_each (\<lambda>backup_id.
       do_then (path_exists (trash_dir plan @ [backup_id])) (\<lambda>present.
         if present
         then do_then (do_map_err (\<lambda>_. RecoveryRequired) (rename (trash_dir plan @ [backup_id]) (backups_root @ [backup_id]))) (\<lambda>_.
           do_then (sync_parent (trash_dir plan @ [backup_id])) (\<lambda>_. sync_parent (backups_root @ [backup_id])))
         else do_return ())) ids) d d' \<and> before_commit plan d0 i (Some FsDir) (S - set ids) d'"
  using assms(2,3)
proof (induction ids arbitrary: d S)
  case Nil
  then show ?case by (auto simp: runs_def)
next
  case (Cons b ids)
  let ?q = "[''quarantine'', trash_name plan, b]" and ?b = "[''backups'', b]"
  let ?f = "\<lambda>b. do_then (path_exists (trash_dir plan @ [b])) (\<lambda>present.
         if present
         then do_then (do_map_err (\<lambda>_. RecoveryRequired) (rename (trash_dir plan @ [b]) (backups_root @ [b]))) (\<lambda>_.
           do_then (sync_parent (trash_dir plan @ [b])) (\<lambda>_. sync_parent (backups_root @ [b])))
         else do_return ())"
  have b: "b \<in> set (rp_delete_backup_ids plan)" "set ids \<subseteq> set (rp_delete_backup_ids plan)" using Cons.prems by auto
  note e = before_commit_backup [OF assms(1) Cons.prems(1) b(1)] before_commit_layout [OF assms(1) Cons.prems(1)]
  have "\<exists>d1. runs (?f b) d d1 \<and> before_commit plan d0 i (Some FsDir) (S - {b}) d1"
  proof (cases "b \<in> S")
    case False
    then show ?thesis using Cons.prems(1) e
      by (intro exI [of _ d]) (simp add: runs_def trash_child do_defs quiet_simps)
  next
    case True
    let ?d = "move_tree ?q ?b d"
    have m: "before_commit plan d0 i (Some FsDir) (S - {b}) ?d"
      by (rule before_commit_unmove [OF Cons.prems(1) b(1) True])
    have "entry_at ?d (trash_dir plan) \<noteq> None" using m by (simp add: before_commit_def)
    then have "runs (sync_parent ?q) ?d ?d" "runs (sync_parent ?b) ?d ?d"
      using before_commit_layout(1) [OF assms(1) m] by (auto intro!: runs_sync_parent simp: trash_dir_def)
    then have s: "runs (do_then (sync_parent ?q) (\<lambda>_. sync_parent ?b)) ?d ?d"
      by (rule runs_then)
    have "rename_allowed d ?q ?b" using e True by (simp add: rename_allowed_def)
    then have "runs (do_map_err (\<lambda>_. RecoveryRequired) (rename ?q ?b)) d ?d"
      using e True by (intro runs_map_err) (simp add: runs_def quiet_simps)
    then have "runs (do_then (do_map_err (\<lambda>_. RecoveryRequired) (rename ?q ?b)) (\<lambda>_. do_then (sync_parent ?q) (\<lambda>_. sync_parent ?b))) d ?d"
      using s by (rule runs_then)
    then have "runs (?f b) d ?d"
      using e True unfolding trash_child by (simp add: runs_def do_then_def [of "path_exists _"] quiet_simps)
    then show ?thesis using m by blast
  qed
  then obtain d1 where d1: "runs (?f b) d d1" "before_commit plan d0 i (Some FsDir) (S - {b}) d1" by blast
  obtain d2 where d2: "runs (do_each ?f ids) d1 d2" "before_commit plan d0 i (Some FsDir) (S - {b} - set ids) d2"
    using Cons.IH [OF d1(2) b(2)] by blast
  have "runs (do_each ?f (b # ids)) d d2"
    unfolding do_each.simps by (rule runs_then, rule d1(1), rule d2(1))
  moreover have "S - set (b # ids) = S - {b} - set ids" by auto
  ultimately show ?case using d2(2) by auto
qed

lemma runs_rollback_transaction:
  assumes L: "opened_layout plan d0" and B: "before_commit plan d0 i t S d" and t: "t \<in> {None, Some FsDir}"
  shows "\<exists>d'. runs (rollback_transaction (intent_from_plan plan) (trash_dir plan)) d d' \<and> before_commit plan d0 i None {} d'"
proof -
  let ?loop = "do_each (\<lambda>backup_id.
       do_then (path_exists (trash_dir plan @ [backup_id])) (\<lambda>present.
         if present
         then do_then (do_map_err (\<lambda>_. RecoveryRequired) (rename (trash_dir plan @ [backup_id]) (backups_root @ [backup_id]))) (\<lambda>_.
           do_then (sync_parent (trash_dir plan @ [backup_id])) (\<lambda>_. sync_parent (backups_root @ [backup_id])))
         else do_return ())) (rev (rp_delete_backup_ids plan))"
  have "\<exists>d1. runs ?loop d d1 \<and> before_commit plan d0 i t {} d1"
  proof (cases t)
    case None
    then have S: "S = {}" using B by (simp add: before_commit_def)
    have "runs ?loop d d"
      by (rule runs_each) (use before_commit_backup(2) [OF L B] S in \<open>simp add: runs_def trash_child do_defs quiet_simps\<close>)
    then show ?thesis using B S by blast
  next
    case (Some e)
    then have e: "t = Some FsDir" using t by simp
    have S: "S - set (rev (rp_delete_backup_ids plan)) = {}" using B by (auto simp: before_commit_def)
    show ?thesis
      using runs_rollback_loop [OF L B [unfolded e], of "rev (rp_delete_backup_ids plan)"] unfolding S e by simp
  qed
  then obtain d1 where d1: "runs ?loop d d1" "before_commit plan d0 i t {} d1" by blast
  have "entry_at d1 (trash_dir plan) = None \<or> entry_at d1 (trash_dir plan) = Some FsDir \<and> children d1 (trash_dir plan) = []"
    using d1(2) t by (auto simp: before_commit_def children_empty trash_child trash_holds_def)
  then obtain d2 where d2: "runs (remove_empty_if_exists (trash_dir plan)) d1 d2" "entry_set (trash_dir plan) None d1 d2"
    using runs_remove_empty_if_exists [of "trash_dir plan" d1] before_commit_layout(2) [OF L d1(2)] by (auto simp: trash_dir_def)
  have "runs (rollback_transaction (intent_from_plan plan) (trash_dir plan)) d d2"
    unfolding rollback_transaction_def intent_ids
    by (rule runs_then, rule runs_validate_rollback [OF L B t], rule runs_then, rule d1(1), rule d2(1))
  then show ?thesis using before_commit_set(3) [OF d1(2) d2(2)] by auto
qed

subsection \<open>Completing the deletion\<close>

lemma after_commit_layout:
  assumes "opened_layout plan d0" "after_commit plan d0 i t c d"
  shows "entry_at d [''backups''] = Some FsDir" "entry_at d [''quarantine''] = Some FsDir" "entry_at d [''audit''] = Some FsDir"
  using rest_kept_layout [OF assms(1)] assms(2) by (simp_all add: after_commit_def)

lemma after_commit_trash:
  assumes "after_commit plan d0 i t c d" "entry_at d (''quarantine'' # trash_name plan # b # r) \<noteq> None"
  shows "b \<in> set (rp_delete_backup_ids plan) \<and> entry_at d (trash_dir plan) = Some FsDir \<and>
    entry_at d [''quarantine'', trash_name plan, b] = Some FsDir"
  using assms unfolding after_commit_def by blast

lemma after_commit_gone:
  "after_commit plan d0 i t c d \<Longrightarrow> b \<in> set (rp_delete_backup_ids plan) \<Longrightarrow> entry_at d (''backups'' # b # r) = None"
  by (auto simp: after_commit_def backups_kept_def)

lemma runs_validate_cleanup:
  assumes A: "after_commit plan d0 i t c d" and t: "t \<in> {None, Some FsDir}"
  shows "runs (validate_cleanup_state (intent_from_plan plan) (trash_dir plan)) d d"
proof -
  have "runs (validate_trash_entries (intent_from_plan plan) (trash_dir plan)) d d"
  proof (rule runs_validate_trash)
    show "entry_at d (trash_dir plan) = None \<or> entry_at d (trash_dir plan) = Some FsDir"
      using A t by (auto simp: after_commit_def)
  qed (use after_commit_trash [OF A] in \<open>simp add: trash_child\<close>)
  then show ?thesis
    unfolding validate_cleanup_state_def trash_child intent_ids
    by (rule runs_then, intro runs_each)
      (auto simp: after_commit_gone [OF A] runs_def do_defs quiet_simps)
qed

lemma runs_cleanup_loop:
  assumes "after_commit plan d0 i t c d" "t \<in> {None, Some FsDir}" "set ids \<subseteq> set (rp_delete_backup_ids plan)"
  shows "\<exists>d'. runs (do_each (\<lambda>backup_id.
       do_then (path_exists (trash_dir plan @ [backup_id])) (\<lambda>present.
         if present
         then do_then (do_map_err (\<lambda>_. CleanupPending) (remove_dir_all (trash_dir plan @ [backup_id]))) (\<lambda>_.
           sync_parent (trash_dir plan @ [backup_id]))
         else do_return ())) ids) d d' \<and> after_commit plan d0 i t c d' \<and>
       entry_at d' (completed_file plan) = entry_at d (completed_file plan) \<and>
       (\<forall>b. entry_at d' [''quarantine'', trash_name plan, b] \<noteq> None \<longrightarrow>
          b \<notin> set ids \<and> entry_at d [''quarantine'', trash_name plan, b] \<noteq> None)"
  using assms(1,3)
proof (induction ids arbitrary: d)
  case Nil
  then show ?case by (auto simp: runs_def)
next
  case (Cons b ids)
  let ?q = "[''quarantine'', trash_name plan, b]"
  let ?f = "\<lambda>b. do_then (path_exists (trash_dir plan @ [b])) (\<lambda>present.
         if present
         then do_then (do_map_err (\<lambda>_. CleanupPending) (remove_dir_all (trash_dir plan @ [b]))) (\<lambda>_.
           sync_parent (trash_dir plan @ [b]))
         else do_return ())"
  have "\<exists>d1. runs (?f b) d d1 \<and> after_commit plan d0 i t c d1 \<and>
      entry_at d1 (completed_file plan) = entry_at d (completed_file plan) \<and>
      (\<forall>b'. entry_at d1 [''quarantine'', trash_name plan, b'] \<noteq> None \<longrightarrow> b' \<noteq> b \<and> entry_at d [''quarantine'', trash_name plan, b'] \<noteq> None)"
  proof (cases "entry_at d ?q")
    case None
    then have "runs (?f b) d d" by (simp add: runs_def trash_child do_defs quiet_simps)
    then show ?thesis using Cons.prems(1) None by (intro exI [of _ d]) auto
  next
    case (Some e)
    then have e: "entry_at d ?q = Some FsDir" "entry_at d (trash_dir plan) = Some FsDir"
      using after_commit_trash [OF Cons.prems(1), of b "[]"] by auto
    obtain d1 where d1: "runs (remove_dir_all ?q) d d1" "\<forall>q. entry_at d1 q = (if prefix ?q q then None else entry_at d q)"
      using runs_remove_dir_all [OF _ e(1)] by auto
    have a: "after_commit plan d0 i t c d1"
      by (rule after_commit_shrink [OF Cons.prems(1), of d1 "{q. prefix ?q q}" b]) (use d1(2) in auto)
    have "runs (sync_parent ?q) d1 d1"
      by (rule runs_sync_parent) (use d1(2) e(2) in \<open>auto simp: trash_dir_def\<close>)
    with runs_map_err [OF d1(1)]
    have "runs (do_then (do_map_err (\<lambda>_. CleanupPending) (remove_dir_all ?q)) (\<lambda>_. sync_parent ?q)) d d1"
      by (rule runs_then)
    then have "runs (?f b) d d1"
      using e unfolding trash_child by (simp add: runs_def do_then_def [of "path_exists _"] quiet_simps)
    then show ?thesis using a d1(2) by (intro exI [of _ d1]) (auto simp: completed_file_def)
  qed
  then obtain d1 where d1: "runs (?f b) d d1" "after_commit plan d0 i t c d1" "entry_at d1 (completed_file plan) = entry_at d (completed_file plan)"
      "\<forall>b'. entry_at d1 [''quarantine'', trash_name plan, b'] \<noteq> None \<longrightarrow> b' \<noteq> b \<and> entry_at d [''quarantine'', trash_name plan, b'] \<noteq> None"
    by blast
  obtain d2 where d2: "runs (do_each ?f ids) d1 d2" "after_commit plan d0 i t c d2" "entry_at d2 (completed_file plan) = entry_at d1 (completed_file plan)"
      "\<forall>b. entry_at d2 [''quarantine'', trash_name plan, b] \<noteq> None \<longrightarrow> b \<notin> set ids \<and> entry_at d1 [''quarantine'', trash_name plan, b] \<noteq> None"
    using Cons.IH [OF d1(2)] Cons.prems(2) by auto
  have "runs (do_each ?f (b # ids)) d d2"
    unfolding do_each.simps by (rule runs_then, rule d1(1), rule d2(1))
  moreover have "\<forall>b'. entry_at d2 [''quarantine'', trash_name plan, b'] \<noteq> None \<longrightarrow>
      b' \<notin> set (b # ids) \<and> entry_at d [''quarantine'', trash_name plan, b'] \<noteq> None"
    using d1(4) d2(4) by (simp only: list.set insert_iff) blast
  ultimately show ?case using d1(3) d2(2,3) by (intro exI [of _ d2] conjI) simp_all
qed

lemma runs_cleanup_transaction:
  assumes L: "opened_layout plan d0" and A: "after_commit plan d0 i t c d" and t: "t \<in> {None, Some FsDir}"
  shows "\<exists>d'. runs (cleanup_transaction (intent_from_plan plan) (trash_dir plan)) d d' \<and> after_commit plan d0 i None c d' \<and>
    entry_at d' (completed_file plan) = entry_at d (completed_file plan)"
proof -
  let ?loop = "do_each (\<lambda>backup_id.
       do_then (path_exists (trash_dir plan @ [backup_id])) (\<lambda>present.
         if present
         then do_then (do_map_err (\<lambda>_. CleanupPending) (remove_dir_all (trash_dir plan @ [backup_id]))) (\<lambda>_.
           sync_parent (trash_dir plan @ [backup_id]))
         else do_return ())) (rp_delete_backup_ids plan)"
  obtain d1 where d1: "runs ?loop d d1" "after_commit plan d0 i t c d1" "entry_at d1 (completed_file plan) = entry_at d (completed_file plan)"
      "\<forall>b. entry_at d1 [''quarantine'', trash_name plan, b] \<noteq> None \<longrightarrow> b \<notin> set (rp_delete_backup_ids plan)"
    using runs_cleanup_loop [OF A t, of "rp_delete_backup_ids plan"] by auto
  have empty: "children d1 (trash_dir plan) = []"
    using d1(2,4) unfolding children_empty trash_child after_commit_def by blast
  then obtain d2 where d2: "runs (remove_empty_if_exists (trash_dir plan)) d1 d2" "entry_set (trash_dir plan) None d1 d2"
    using runs_remove_empty_if_exists [of "trash_dir plan" d1] after_commit_layout(2) [OF L d1(2)] d1(2) t
    by (auto simp: trash_dir_def after_commit_def)
  have "runs (cleanup_transaction (intent_from_plan plan) (trash_dir plan)) d d2"
    unfolding cleanup_transaction_def intent_ids
    by (rule runs_then, rule runs_validate_cleanup [OF A t], rule runs_then, rule d1(1), rule runs_map_err, rule d2(1))
  moreover have "entry_at d2 (completed_file plan) = entry_at d (completed_file plan)"
    using d2(2) d1(3) by (simp add: entry_set_def journal_paths)
  ultimately show ?thesis using after_commit_set(2) [OF d1(2) d2(2) refl refl empty] by blast
qed

subsection \<open>Reconciling a transaction\<close>

lemma runs_remove_intent:
  assumes "entry_at d [''quarantine''] = Some FsDir" "entry_at d (intent_file plan) = Some (FsFile bs)"
  obtains d' where "runs (remove_if_exists (intent_file plan)) d d'" "entry_set (intent_file plan) None d d'"
  using runs_remove_if_exists [of "intent_file plan" d] assms by (auto simp: intent_file_def)

lemma write_completed_quiet:
  assumes L: "opened_layout plan d0" and A: "after_commit plan d0 i t c d" and J: "journal_json codec plan bs"
  shows "\<exists>r d'. write_retention_audit codec (rp_plan_id plan) (rp_repository_id plan) (rp_delete_backup_ids plan) ''completed'' (quiet d)
      = (r, quiet d') \<and> (r = Inr () \<or> r = Inl AuditConflict) \<and> after_commit plan d0 i t c d' \<and> entry_at d' (completed_file plan) \<noteq> None"
proof -
  obtain bytes where b: "audit_to_json codec \<lparr>ar_state = ''completed'', ar_plan_id = rp_plan_id plan,
       ar_repository_id = rp_repository_id plan, ar_delete_backup_ids = rp_delete_backup_ids plan\<rparr> = Some bytes"
    using J by (auto simp: journal_json_def)
  let ?z = "completed_file plan"
  have e: "ensure_directory audit_root (quiet d) = (Inr (), quiet d)"
    using after_commit_layout(3) [OF L A] by (simp add: ensure_directory_def audit_root_def do_defs quiet_simps ok_or_def map_err_def)
  show ?thesis
  proof (cases "entry_at d ?z")
    case None
    let ?d = "append_file ?z bytes (put ?z (FsFile []) d)"
    have ent: "entry_at ?d q = (if q = ?z then Some (FsFile bytes) else entry_at d q)" for q
      by (simp add: entry_at_append_file entry_at_put)
    then have set: "entry_set ?z (Some (FsFile bytes)) d ?d" by (simp add: entry_set_def)
    have "entry_at d (butlast ?z) = Some FsDir"
      using after_commit_layout(3) [OF L A] by (simp add: completed_file_def)
    then have "write_new ?z bytes (quiet d) = (Inr (), quiet ?d)"
      using None ent by (simp add: write_new_def restrict_to_owner_def do_defs quiet_simps map_err_def)
    moreover have "sync_parent ?z (quiet ?d) = (Inr (), quiet ?d)"
      using runs_sync_parent [of ?z ?d] after_commit_layout(3) [OF L A]
      by (simp add: runs_def ent) (simp add: completed_file_def)
    ultimately have "write_retention_audit codec (rp_plan_id plan) (rp_repository_id plan) (rp_delete_backup_ids plan) ''completed'' (quiet d) = (Inr (), quiet ?d)"
      by (simp add: write_retention_audit_def b e do_then_def do_match_def ok_or_def audit_path_simps)
    then show ?thesis using after_commit_set(4) [OF A set] ent by auto
  next
    case (Some z)
    then have "write_new ?z bytes (quiet d) = (Inl (Io ''create new file'' AlreadyExists), quiet d)"
      by (simp add: write_new_def do_defs quiet_simps map_err_def)
    then have "write_retention_audit codec (rp_plan_id plan) (rp_repository_id plan) (rp_delete_backup_ids plan) ''completed'' (quiet d) = (Inl AuditConflict, quiet d)"
      by (simp add: write_retention_audit_def b e do_then_def do_match_def ok_or_def audit_path_simps)
    then show ?thesis using A Some by auto
  qed
qed

lemma runs_complete_recovered:
  assumes L: "opened_layout plan d0" and J: "journal_json codec plan bs"
    and A: "after_commit plan d0 (Some (FsFile bs)) None (Some (FsFile c)) d"
  shows "\<exists>d'. runs (complete_recovered_transaction codec (intent_from_plan plan) (cleanup_file plan) (intent_file plan)) d d' \<and>
    after_commit plan d0 None None None d'"
proof -
  obtain r d1 where d1: "write_retention_audit codec (rp_plan_id plan) (rp_repository_id plan) (rp_delete_backup_ids plan) ''completed'' (quiet d) = (r, quiet d1)"
      "r = Inr () \<or> r = Inl AuditConflict" "after_commit plan d0 (Some (FsFile bs)) None (Some (FsFile c)) d1"
    using write_completed_quiet [OF L A J] by blast
  obtain d2 where d2: "runs (remove_if_exists (cleanup_file plan)) d1 d2" "entry_set (cleanup_file plan) None d1 d2"
    using runs_remove_if_exists [of "cleanup_file plan" d1] after_commit_layout(2) [OF L d1(3)] d1(3)
    by (auto simp: cleanup_file_def after_commit_def)
  have a2: "after_commit plan d0 (Some (FsFile bs)) None None d2"
    using after_commit_set(3) [OF d1(3) d2(2)] by simp
  obtain d3 where d3: "runs (remove_if_exists (intent_file plan)) d2 d3" "entry_set (intent_file plan) None d2 d3"
    using runs_remove_intent [OF after_commit_layout(2) [OF L a2]] a2 by (auto simp: after_commit_def)
  have "runs (do_then (remove_if_exists (cleanup_file plan)) (\<lambda>_. remove_if_exists (intent_file plan))) d1 d3"
    by (rule runs_then, rule d2(1), rule d3(1))
  then have "runs (complete_recovered_transaction codec (intent_from_plan plan) (cleanup_file plan) (intent_file plan)) d d3"
    using d1(1,2) by (auto simp: runs_def complete_recovered_transaction_def do_match_def)
  then show ?thesis using after_commit_set(1) [OF a2 d3(2)] by auto
qed

lemma has_duplicate_ids_iff: "has_duplicate_ids ids \<longleftrightarrow> \<not> distinct ids"
proof -
  have "has_duplicate_ids ids \<longleftrightarrow> (\<exists>i<length ids. ids ! i \<in> set (take i ids))"
    by (auto simp: has_duplicate_ids_def list_ex_iff)
  also have "\<dots> \<longleftrightarrow> (\<exists>i<length ids. \<exists>j<i. ids ! i = ids ! j)"
  proof (rule ex_cong1, rule conj_cong [OF refl])
    fix i assume "i < length ids"
    then have "set (take i ids) = (!) ids ` {0..<i}" by (simp add: nth_image)
    then show "ids ! i \<in> set (take i ids) \<longleftrightarrow> (\<exists>j<i. ids ! i = ids ! j)" by auto
  qed
  also have "\<dots> \<longleftrightarrow> \<not> distinct ids"
    unfolding distinct_conv_nth by (metis (no_types, lifting) nat_neq_iff order.strict_trans)
  finally show ?thesis .
qed

lemma plan_id_from_intent_file:
  assumes "executable_plan plan"
  shows "plan_id_from_intent_path (intent_file plan) = Inr (rp_plan_id plan)"
proof -
  have "strip_prefix ''retention-'' (trash_name plan @ INTENT_SUFFIX) = Some (rp_plan_id plan @ INTENT_SUFFIX)"
    by (simp add: trash_name_def)
  moreover have "strip_suffix INTENT_SUFFIX (rp_plan_id plan @ INTENT_SUFFIX) = Some (rp_plan_id plan)"
    by (simp add: strip_suffix_Some)
  moreover have "plan_id_parse (rp_plan_id plan) = Inr (rp_plan_id plan)"
    using assms by (auto simp: executable_plan_def is_ok_def plan_id_parse_def parse_identifier_def ok_if_def split: if_splits)
  moreover have "intent_file plan \<noteq> []" "last (intent_file plan) = trash_name plan @ INTENT_SUFFIX"
    by (simp_all add: intent_file_def INTENT_SUFFIX_def)
  ultimately show ?thesis
    by (simp only: plan_id_from_intent_path_def ok_or_def and_then_def map_err_def bind.bind_lunit option.case sum.case if_False)
qed

lemma read_intent_quiet:
  "entry_at d (intent_file plan) = Some (FsFile bytes) \<Longrightarrow>
     read_intent codec (intent_file plan) (quiet d) = (ok_or (intent_from_json codec bytes) RecoveryRequired, quiet d)"
  by (simp add: read_intent_def ensure_regular_file_def do_defs quiet_simps ok_or_def map_err_def split: option.splits)

lemma reconcile_torn_quiet:
  assumes "executable_plan plan" "journal_json codec plan bs" "strict_prefix bs' bs" "entry_at d (intent_file plan) = Some (FsFile bs')"
  shows "reconcile_transaction codec rid (intent_file plan) (quiet d) = (Inl RecoveryRequired, quiet d)"
  using assms(2,3)
  by (simp add: reconcile_transaction_def plan_id_from_intent_file [OF assms(1)] read_intent_quiet [OF assms(4)]
      journal_json_def do_then_def ok_or_def)

lemma reconcile_prologue:
  assumes X: "executable_plan plan" and J: "journal_json codec plan bs" and I: "entry_at d (intent_file plan) = Some (FsFile bs)"
  shows "reconcile_transaction codec (rp_repository_id plan) (intent_file plan) (quiet d) =
    do_then (path_exists (cleanup_file plan)) (\<lambda>ready.
         if ready then
           do_then (ensure_regular_file (cleanup_file plan)) (\<lambda>_.
           do_then (cleanup_transaction (intent_from_plan plan) (trash_dir plan)) (\<lambda>_.
           complete_recovered_transaction codec (intent_from_plan plan) (cleanup_file plan) (intent_file plan)))
         else
           do_then (completed_audit_exists (intent_from_plan plan)) (\<lambda>completed.
             if completed then
               do_then (cleanup_transaction (intent_from_plan plan) (trash_dir plan)) (\<lambda>_. remove_if_exists (intent_file plan))
             else
               do_then (rollback_transaction (intent_from_plan plan) (trash_dir plan)) (\<lambda>_. remove_if_exists (intent_file plan)))) (quiet d)"
proof -
  have v: "intent_validate (intent_from_plan plan) (rp_plan_id plan) (rp_repository_id plan) = Inr ()"
    using X by (simp add: intent_validate_def ok_if_def has_duplicate_ids_iff executable_plan_def intent_from_plan_def)
  have p: "quarantine_root @ [transaction_prefix (rp_plan_id plan)] = trash_dir plan"
      "quarantine_root @ [transaction_prefix (rp_plan_id plan) @ CLEANUP_SUFFIX] = cleanup_file plan"
    by (simp_all add: journal_paths trash_name_def transaction_prefix_def quarantine_root_def CLEANUP_SUFFIX_def)
  have j: "intent_from_json codec bs = Some (intent_from_plan plan)"
    using J by (simp add: journal_json_def)
  have t: "do_then (do_lift (Inr x)) f = f x" for x and f :: "'a \<Rightarrow> unit repo"
    by (simp add: do_then_def fun_eq_iff)
  have r: "do_then (read_intent codec (intent_file plan)) f (quiet d) = f (intent_from_plan plan) (quiet d)" for f :: "retention_intent \<Rightarrow> unit repo"
    by (simp add: do_then_def read_intent_quiet [OF I] j ok_or_def)
  show ?thesis
    unfolding reconcile_transaction_def plan_id_from_intent_file [OF X]
    by (simp only: t r v Let_def p)
qed

lemma completed_audit_quiet:
  "completed_audit_exists (intent_from_plan plan) (quiet d) =
    (case entry_at d (completed_file plan) of None \<Rightarrow> Inr False | Some (FsFile _) \<Rightarrow> Inr True | Some _ \<Rightarrow> Inl RecoveryRequired, quiet d)"
proof -
  have "audit_root @ [''retention-'' @ rp_plan_id plan @ ''-completed.json''] = completed_file plan"
    by (simp add: completed_file_def trash_name_def audit_root_def)
  then show ?thesis
    by (simp add: completed_audit_exists_def do_match_def quiet_simps ok_or_def split: option.splits entry.splits)
qed

lemma reconcile_before:
  assumes L: "opened_layout plan d0" and X: "executable_plan plan" and J: "journal_json codec plan bs"
    and B: "before_commit plan d0 (Some (FsFile bs)) t S d" and t: "t \<in> {None, Some FsDir}"
  shows "\<exists>d'. runs (reconcile_transaction codec (rp_repository_id plan) (intent_file plan)) d d' \<and> before_commit plan d0 None None {} d'"
proof -
  have e: "entry_at d (cleanup_file plan) = None" "entry_at d (completed_file plan) = None" "entry_at d (intent_file plan) = Some (FsFile bs)"
    using B by (simp_all add: before_commit_def)
  obtain d1 where d1: "runs (rollback_transaction (intent_from_plan plan) (trash_dir plan)) d d1"
      "before_commit plan d0 (Some (FsFile bs)) None {} d1"
    using runs_rollback_transaction [OF L B t] by blast
  obtain d2 where d2: "runs (remove_if_exists (intent_file plan)) d1 d2" "entry_set (intent_file plan) None d1 d2"
    using runs_remove_intent [OF before_commit_layout(2) [OF L d1(2)]] d1(2) by (auto simp: before_commit_def)
  have "runs (reconcile_transaction codec (rp_repository_id plan) (intent_file plan)) d d2"
    using d1(1) d2(1) unfolding runs_def reconcile_prologue [OF X J e(3)]
    by (simp add: do_then_def quiet_simps e completed_audit_quiet)
  then show ?thesis using before_commit_set(2) [OF d1(2) d2(2)] by auto
qed

lemma reconcile_after:
  assumes L: "opened_layout plan d0" and X: "executable_plan plan" and J: "journal_json codec plan bs"
    and A: "after_commit plan d0 (Some (FsFile bs)) t c d" and t: "t \<in> {None, Some FsDir}"
    and c: "(\<exists>m. c = Some (FsFile m)) \<or> c = None \<and> entry_at d (completed_file plan) \<noteq> None"
  shows "\<exists>d'. runs (reconcile_transaction codec (rp_repository_id plan) (intent_file plan)) d d' \<and> after_commit plan d0 None None None d'"
proof -
  have e: "entry_at d (cleanup_file plan) = c" "entry_at d (intent_file plan) = Some (FsFile bs)"
    using A by (simp_all add: after_commit_def)
  obtain d1 where d1: "runs (cleanup_transaction (intent_from_plan plan) (trash_dir plan)) d d1"
      "after_commit plan d0 (Some (FsFile bs)) None c d1"
    using runs_cleanup_transaction [OF L A t] by blast
  from c show ?thesis
  proof
    assume "\<exists>m. c = Some (FsFile m)"
    then obtain m where m: "c = Some (FsFile m)" by blast
    obtain d2 where d2: "runs (complete_recovered_transaction codec (intent_from_plan plan) (cleanup_file plan) (intent_file plan)) d1 d2"
        "after_commit plan d0 None None None d2"
      using runs_complete_recovered [OF L J d1(2) [unfolded m]] by blast
    have "runs (reconcile_transaction codec (rp_repository_id plan) (intent_file plan)) d d2"
      using d1(1) d2(1) unfolding runs_def reconcile_prologue [OF X J e(2)]
      by (simp add: do_then_def quiet_simps e m ensure_regular_file_def ok_or_def do_map_err_def map_err_def)
    then show ?thesis using d2(2) by blast
  next
    assume z: "c = None \<and> entry_at d (completed_file plan) \<noteq> None"
    then obtain z where z': "entry_at d (completed_file plan) = Some (FsFile z)"
      using A by (auto simp: after_commit_def)
    obtain d2 where d2: "runs (remove_if_exists (intent_file plan)) d1 d2" "entry_set (intent_file plan) None d1 d2"
      using runs_remove_intent [OF after_commit_layout(2) [OF L d1(2)]] d1(2) by (auto simp: after_commit_def)
    have "runs (reconcile_transaction codec (rp_repository_id plan) (intent_file plan)) d d2"
      using d1(1) d2(1) unfolding runs_def reconcile_prologue [OF X J e(2)]
      by (simp add: do_then_def quiet_simps e z z' completed_audit_quiet)
    then show ?thesis using after_commit_set(1) [OF d1(2) d2(2)] z by auto
  qed
qed

subsection \<open>Reconciling the repository\<close>

lemma retention_entries:
  assumes "opened_layout plan d0" "rest_kept plan d0 d" "prefix ''retention-'' n" "entry_at d (''quarantine'' # n # r) \<noteq> None"
  shows "n = trash_name plan \<or> ''quarantine'' # n # r \<in> {intent_file plan, cleanup_file plan}"
proof (rule ccontr)
  assume "\<not> ?thesis"
  then have "untouched plan (''quarantine'' # n # r)" by (auto simp: untouched_def journal_paths)
  then have "entry_at d (''quarantine'' # n # r) = entry_at d0 (''quarantine'' # n # r)"
    using assms(2) by (simp add: rest_kept_def)
  then show False using assms(1,3,4) by (simp add: opened_layout_def)
qed

lemma intent_suffix:
  assumes "executable_plan plan"
  shows "\<not> suffix INTENT_SUFFIX (trash_name plan)" "\<not> suffix INTENT_SUFFIX (trash_name plan @ ''.cleanup-ready'')"
    "suffix INTENT_SUFFIX (trash_name plan @ ''.intent.json'')"
proof -
  have "list_all identifier_byte (rp_plan_id plan)"
    using assms by (auto simp: executable_plan_def is_ok_def plan_id_parse_def parse_identifier_def ok_if_def split: if_splits)
  then have "CHR ''.'' \<notin> set (trash_name plan)"
    by (auto simp: trash_name_def list_all_iff dest!: bspec [of _ _ "CHR ''.''"])
  then show "\<not> suffix INTENT_SUFFIX (trash_name plan)"
    by (auto simp: INTENT_SUFFIX_def dest!: set_mono_suffix)
qed (simp_all add: INTENT_SUFFIX_def suffix_to_prefix suffix_def)

lemma distinct_single: "distinct xs \<Longrightarrow> (\<And>y. y \<in> set xs \<longleftrightarrow> c \<and> y = x) \<Longrightarrow> xs = (if c then [x] else [])"
proof -
  assume d: "distinct xs" and s: "\<And>y. y \<in> set xs \<longleftrightarrow> c \<and> y = x"
  have "set xs = (if c then {x} else {})" using s by (intro set_eqI) simp
  moreover have "length xs = card (set xs)" using d by (simp add: distinct_card)
  ultimately show ?thesis
    by (cases xs) (auto split: if_splits)
qed

lemma retention_intents_quiet:
  assumes L: "opened_layout plan d0" and X: "executable_plan plan" and R: "rest_kept plan d0 d"
    and I: "entry_at d (intent_file plan) = None \<or> (\<exists>bs. entry_at d (intent_file plan) = Some (FsFile bs))"
  shows "retention_intents quarantine_root (quiet d) =
    (Inr (if entry_at d (intent_file plan) = None then [] else [intent_file plan]), quiet d)"
proof -
  let ?P = "\<lambda>name. prefix ''retention-'' name \<and> suffix INTENT_SUFFIX name"
  let ?n = "trash_name plan @ ''.intent.json''"
  have q: "entry_at d quarantine_root = Some FsDir"
    using rest_kept_layout(2) [OF L R] by (simp add: quarantine_root_def)
  have m: "n \<in> set (filter ?P (children d quarantine_root)) \<longleftrightarrow> entry_at d (intent_file plan) \<noteq> None \<and> n = ?n" for n
  proof
    assume "n \<in> set (filter ?P (children d quarantine_root))"
    then have n: "prefix ''retention-'' n" "suffix INTENT_SUFFIX n" "entry_at d [''quarantine'', n] \<noteq> None"
      by (simp_all add: children_entry quarantine_root_def)
    then have "n = ?n"
      using retention_entries [OF L R n(1,3)] intent_suffix [OF X] by (auto simp: journal_paths)
    then show "entry_at d (intent_file plan) \<noteq> None \<and> n = ?n" using n(3) by (simp add: intent_file_def)
  next
    assume "entry_at d (intent_file plan) \<noteq> None \<and> n = ?n"
    then show "n \<in> set (filter ?P (children d quarantine_root))"
      using intent_suffix(3) [OF X] by (simp add: children_entry quarantine_root_def intent_file_def trash_name_def)
  qed
  have f: "filter ?P (children d quarantine_root) = (if entry_at d (intent_file plan) \<noteq> None then [?n] else [])"
    by (rule distinct_single) (simp_all only: m distinct_filter children_distinct)
  have p: "quarantine_root @ [?n] = intent_file plan" by (simp add: quarantine_root_def intent_file_def)
  have "ensure_regular_file (intent_file plan) (quiet d) = (Inr (), quiet d)" if "entry_at d (intent_file plan) \<noteq> None"
    using I that by (auto simp: ensure_regular_file_def do_defs quiet_simps ok_or_def map_err_def)
  then show ?thesis
    unfolding retention_intents_def
    by (simp add: do_then_def do_map_err_def quiet_simps q map_err_def Let_def f p)
qed

lemma reject_orphans_quiet:
  assumes L: "opened_layout plan d0" and R: "rest_kept plan d0 d"
    and none: "entry_at d (trash_dir plan) = None" "entry_at d (intent_file plan) = None" "entry_at d (cleanup_file plan) = None"
  shows "runs (reject_orphan_retention_entries quarantine_root) d d"
proof -
  have q: "entry_at d quarantine_root = Some FsDir"
    using rest_kept_layout(2) [OF L R] by (simp add: quarantine_root_def)
  have "\<not> prefix ''retention-'' n" if "n \<in> set (children d quarantine_root)" for n
    using that retention_entries [OF L R, of n "[]"] none by (auto simp: children_entry quarantine_root_def journal_paths)
  then have "runs (do_each (\<lambda>name. if prefix ''retention-'' name then do_fail RecoveryRequired else do_return ())
      (children d quarantine_root)) d d"
    by (intro runs_each) (simp add: runs_def)
  then show ?thesis
    by (simp add: runs_def reject_orphan_retention_entries_def do_then_def do_map_err_def quiet_simps q map_err_def)
qed

text \<open>The outcome of reopening: everything restored, or everything deleted, and a clean quarantine.\<close>

definition settled :: "retention_plan \<Rightarrow> disk \<Rightarrow> disk \<Rightarrow> bool" where
  "settled plan d0 d \<longleftrightarrow> before_commit plan d0 None None {} d \<or> after_commit plan d0 None None None d"

lemma settled_facts:
  assumes "settled plan d0 d"
  shows "rest_kept plan d0 d" "entry_at d (trash_dir plan) = None" "entry_at d (intent_file plan) = None"
    "entry_at d (cleanup_file plan) = None" "entry_at d (''quarantine'' # trash_name plan # r) = None"
  using assms by (cases r; auto simp: settled_def before_commit_def after_commit_def trash_holds_def trash_dir_def)+

lemma settled_clean:
  assumes L: "opened_layout plan d0" and S: "settled plan d0 d" and n: "prefix ''retention-'' n"
  shows "entry_at d (''quarantine'' # n # p) = None"
proof (rule ccontr)
  assume "entry_at d (''quarantine'' # n # p) \<noteq> None"
  with retention_entries [OF L settled_facts(1) [OF S] n this] settled_facts(3-5) [OF S]
  show False by auto
qed

lemma reconcile_settled:
  assumes L: "opened_layout plan d0" and X: "executable_plan plan" and S: "settled plan d0 d"
  shows "runs (reconcile_retention_locked codec rid) d d"
  using retention_intents_quiet [OF L X settled_facts(1) [OF S]] reject_orphans_quiet [OF L settled_facts(1-4) [OF S]]
    settled_facts(3) [OF S]
  by (simp add: reconcile_retention_locked_def runs_def do_then_def)

lemma reconcile_one:
  assumes L: "opened_layout plan d0" and X: "executable_plan plan" and R: "rest_kept plan d0 d"
    and I: "entry_at d (intent_file plan) = Some (FsFile bs)"
    and run: "runs (reconcile_transaction codec rid (intent_file plan)) d d'" and S: "settled plan d0 d'"
  shows "runs (reconcile_retention_locked codec rid) d d'"
  using retention_intents_quiet [OF L X R] reject_orphans_quiet [OF L settled_facts(1-4) [OF S]] I run
  by (simp add: reconcile_retention_locked_def runs_def do_then_def)

lemma reconcile_torn:
  assumes L: "opened_layout plan d0" and X: "executable_plan plan" and J: "journal_json codec plan bs"
    and B: "before_commit plan d0 (Some (FsFile bs')) None {} d" and p: "strict_prefix bs' bs"
  shows "reconcile_retention_locked codec (rp_repository_id plan) (quiet d) = (Inl RecoveryRequired, quiet d)"
proof -
  have R: "rest_kept plan d0 d" and I: "entry_at d (intent_file plan) = Some (FsFile bs')"
    using B by (simp_all add: before_commit_def)
  show ?thesis
    using retention_intents_quiet [OF L X R] reconcile_torn_quiet [OF X J p I] I
    by (simp add: reconcile_retention_locked_def do_then_def)
qed

subsection \<open>Execution without faults\<close>

lemma runs_write_audit:
  assumes "audit_to_json codec \<lparr>ar_state = state, ar_plan_id = rp_plan_id plan,
       ar_repository_id = rp_repository_id plan, ar_delete_backup_ids = rp_delete_backup_ids plan\<rparr> = Some bytes"
    and p: "entry_at d (audit_path (rp_plan_id plan) state) = None" and a: "entry_at d [''audit''] = Some FsDir"
  shows "\<exists>d'. runs (write_audit codec plan state) d d' \<and> entry_set (audit_path (rp_plan_id plan) state) (Some (FsFile bytes)) d d'"
proof -
  let ?p = "audit_path (rp_plan_id plan) state"
  have pp: "?p \<noteq> []" "butlast ?p = [''audit'']" by (simp_all add: audit_path_def audit_root_def)
  obtain d1 where d1: "runs (write_new ?p bytes) d d1" "entry_set ?p (Some (FsFile bytes)) d d1"
    using runs_write_new [OF pp(1) p] a pp(2) by auto
  have "[''audit''] \<noteq> ?p" by (simp add: audit_path_def audit_root_def)
  then have "runs (sync_parent ?p) d1 d1"
    using d1(2) a pp by (intro runs_sync_parent) (auto simp: entry_set_def)
  moreover have "ensure_directory audit_root (quiet d) = (Inr (), quiet d)"
    using a by (simp add: ensure_directory_def audit_root_def do_defs quiet_simps ok_or_def map_err_def)
  ultimately have "runs (write_audit codec plan state) d d1"
    using d1(1) assms(1) by (simp add: runs_def write_audit_def write_retention_audit_def do_then_def do_match_def ok_or_def)
  then show ?thesis using d1(2) by blast
qed

lemma runs_move_backups:
  assumes L: "opened_layout plan d0" and B: "before_commit plan d0 i (Some FsDir) (set done) d"
    and "distinct (done @ rest)" "set (done @ rest) = set (rp_delete_backup_ids plan)"
  shows "\<exists>d'. runs (move_backups (tx_of_plan plan) (moved_pairs plan done) rest) d d' \<and>
    before_commit plan d0 i (Some FsDir) (set (rp_delete_backup_ids plan)) d'"
  using assms(2-)
proof (induction rest arbitrary: "done" d)
  case Nil
  then show ?case by (auto simp: runs_def)
next
  case (Cons b rest)
  let ?s = "[''backups'', b]" and ?t = "[''quarantine'', trash_name plan, b]"
  let ?d = "move_tree ?s ?t d"
  have b: "b \<in> set (rp_delete_backup_ids plan)" "b \<notin> set done" using Cons.prems by auto
  have pairs: "moved_pairs plan done @ [(?s, ?t)] = moved_pairs plan (done @ [b])"
    by (simp add: moved_pairs_def)
  have paths: "backups_root @ [b] = ?s" "tx_trash (tx_of_plan plan) @ [b] = ?t"
    by (simp_all add: backups_root_def tx_of_plan_simps trash_dir_def)
  note e = before_commit_backup [OF L Cons.prems(1) b(1)]
  have m: "before_commit plan d0 i (Some FsDir) (set (done @ [b])) ?d"
    using before_commit_move [OF Cons.prems(1) b] by simp
  have t: "entry_at d [''quarantine'', trash_name plan] = Some FsDir" "entry_at ?d [''quarantine'', trash_name plan] = Some FsDir"
    using Cons.prems(1) m by (simp_all add: before_commit_def trash_dir_def)
  have r: "rename ?s ?t (quiet d) = (Inr (), quiet ?d)"
    using e b t by (simp add: quiet_simps rename_allowed_def)
  have "runs (sync_parent ?s) ?d ?d" "runs (sync_parent ?t) ?d ?d"
    using t before_commit_layout(1) [OF L m] by (auto intro!: runs_sync_parent)
  then have s: "sync_move (moved_pairs plan (done @ [b])) (quiet ?d) = (Inr (), quiet ?d)"
    by (simp add: sync_move_def moved_pairs_def runs_def do_then_def)
  obtain d' where d': "runs (move_backups (tx_of_plan plan) (moved_pairs plan (done @ [b])) rest) ?d d'"
      "before_commit plan d0 i (Some FsDir) (set (rp_delete_backup_ids plan)) d'"
    using Cons.IH [OF m] Cons.prems by auto
  have "runs (move_backups (tx_of_plan plan) (moved_pairs plan done) (b # rest)) d d'"
    using d'(1) unfolding runs_def move_backups.simps Let_def paths pairs by (simp add: do_match_def r s)
  then show ?case using d'(2) by blast
qed

lemma runs_tx_begin:
  assumes L: "opened_layout plan d0" and J: "journal_json codec plan bs" and B: "before_commit plan d0 None None {} d"
  shows "\<exists>d'. tx_begin codec plan (quiet d) = (Inr (tx_of_plan plan), quiet d') \<and> before_commit plan d0 (Some (FsFile bs)) (Some FsDir) {} d'"
proof -
  have q: "entry_at d [''quarantine''] = Some FsDir" by (rule before_commit_layout(2) [OF L B])
  obtain d1 where d1: "runs (write_new (intent_file plan) bs) d d1" "entry_set (intent_file plan) (Some (FsFile bs)) d d1"
    using runs_write_new [of "intent_file plan" d bs] B q by (auto simp: before_commit_def intent_file_def)
  have b1: "before_commit plan d0 (Some (FsFile bs)) None {} d1"
    using before_commit_set(2) [OF B d1(2)] by simp
  let ?d2 = "put (trash_dir plan) FsDir d1"
  have b2: "before_commit plan d0 (Some (FsFile bs)) (Some FsDir) {} ?d2"
    using before_commit_set(3) [OF b1 entry_set_put] by simp
  have q1: "entry_at d1 [''quarantine''] = Some FsDir" and q2: "entry_at ?d2 [''quarantine''] = Some FsDir"
    by (rule before_commit_layout(2) [OF L b1], rule before_commit_layout(2) [OF L b2])
  have s1: "runs (sync_parent (intent_file plan)) d1 d1" and s2: "runs (sync_parent (trash_dir plan)) ?d2 ?d2"
    using q1 q2 by (auto intro!: runs_sync_parent simp: journal_paths)
  have c: "create_dir (trash_dir plan) (quiet d1) = (Inr (), quiet ?d2)"
    using b1 q1 by (simp add: quiet_simps before_commit_def) (simp add: trash_dir_def)
  have json: "intent_to_json codec (intent_from_plan plan) = Some bs"
    using J by (simp add: journal_json_def)
  have "tx_begin codec plan (quiet d) = (Inr (tx_of_plan plan), quiet ?d2)"
    using d1(1) s1 s2 c
    by (simp add: tx_begin_def tx_write_intent_def Let_def tx_of_plan_simps json ok_or_def do_then_def do_map_err_def map_err_def runs_def)
  then show ?thesis using b2 by blast
qed

section \<open>Properties\<close>

text \<open>C24: retention is crash safe. Start the moves of a plan on an opened repository and let any calls
  be refused or torn, so that the process stops anywhere; then open the repository again. Either every
  planned backup is back exactly as it was or every one is gone, nothing outside the journal, its
  audit records and the planned backups has changed, and reopening succeeds with no retention entry
  left in the quarantine. The one exception is an intent torn while it was being written: then
  reopening reports \<open>RecoveryRequired\<close>, and every backup is in place. A plan that reported success
  has deleted its backups.\<close>

theorem retention_crash_recovery:
  assumes L: "opened_layout plan (disk w)" and X: "executable_plan plan" and J: "journal_json codec plan bs"
    and run: "execute_moves codec plan w = (r, w1)"
    and again: "reconcile_retention_locked codec (rp_repository_id plan) (w1\<lparr>faults := []\<rparr>) = (r2, w2)"
  shows "(\<forall>q. untouched plan q \<longrightarrow> entry_at (disk w2) q = entry_at (disk w) q) \<and>
    ((\<forall>b\<in>set (rp_delete_backup_ids plan). \<forall>p. entry_at (disk w2) (''backups'' # b # p) = entry_at (disk w) (''backups'' # b # p)) \<or>
     r2 = Inr () \<and> (\<forall>b\<in>set (rp_delete_backup_ids plan). \<forall>p. entry_at (disk w2) (''backups'' # b # p) = None)) \<and>
    (r = Inr () \<longrightarrow> (\<forall>b\<in>set (rp_delete_backup_ids plan). \<forall>p. entry_at (disk w2) (''backups'' # b # p) = None)) \<and>
    (r2 = Inr () \<and> (\<forall>n p. prefix ''retention-'' n \<longrightarrow> entry_at (disk w2) (''quarantine'' # n # p) = None) \<or>
     r2 = Inl RecoveryRequired \<and> (\<exists>bs'. strict_prefix bs' bs \<and> entry_at (disk w1) (intent_file plan) = Some (FsFile bs')))"
proof -
  let ?d0 = "disk w"
  have q: "w1\<lparr>faults := []\<rparr> = quiet (disk w1)" by (simp add: quiet_def)
  have final: ?thesis if S: "settled plan ?d0 (disk w2)" "r2 = Inr ()" and ok: "r = Inr () \<Longrightarrow> after_commit plan ?d0 None None None (disk w2)"
  proof -
    note clean = settled_clean [OF L S(1)]
    have gone: "entry_at (disk w2) (''backups'' # b # p) = None"
      if "after_commit plan ?d0 None None None (disk w2)" "b \<in> set (rp_delete_backup_ids plan)" for b p
      using after_commit_gone [OF that] .
    show ?thesis
      using S clean gone ok settled_facts(1) [OF S(1)]
      unfolding settled_def rest_kept_def before_commit_def backups_kept_def by auto
  qed
  show ?thesis
  proof (cases r)
    case (Inr u)
    have A: "after_commit plan ?d0 None None None (disk w1)"
      using triple_ok [OF execute_moves_triple [OF L X J] refl run [unfolded Inr]] by simp
    then have "settled plan ?d0 (disk w1)" by (simp add: settled_def)
    from reconcile_settled [OF L X this] again q have "r2 = Inr ()" "disk w2 = disk w1"
      by (auto simp: runs_def quiet_def)
    then show ?thesis using final A by (simp add: settled_def)
  next
    case (Inl e)
    have "interrupted plan ?d0 bs (disk w1)"
      using triple_err [OF execute_moves_triple [OF L X J] refl run [unfolded Inl]] .
    then consider "settled plan ?d0 (disk w1)"
      | bs' where "strict_prefix bs' bs" "before_commit plan ?d0 (Some (FsFile bs')) None {} (disk w1)"
      | t S where "t \<in> {None, Some FsDir}" "before_commit plan ?d0 (Some (FsFile bs)) t S (disk w1)"
      | t c where "t \<in> {None, Some FsDir}" "after_commit plan ?d0 (Some (FsFile bs)) t c (disk w1)"
          "(\<exists>m. c = Some (FsFile m)) \<or> c = None \<and> entry_at (disk w1) (completed_file plan) \<noteq> None"
      unfolding interrupted_def settled_def by blast
    then show ?thesis
    proof cases
      case 1
      from reconcile_settled [OF L X this] again q have "r2 = Inr ()" "disk w2 = disk w1"
        by (auto simp: runs_def quiet_def)
      then show ?thesis using final 1 Inl by simp
    next
      case 2
      from reconcile_torn [OF L X J 2(2,1)] again q have e: "r2 = Inl RecoveryRequired" "disk w2 = disk w1"
        by (auto simp: quiet_def)
      with 2 Inl show ?thesis
        by (auto simp: before_commit_def rest_kept_def backups_kept_def)
    next
      case 3
      obtain d' where "runs (reconcile_transaction codec (rp_repository_id plan) (intent_file plan)) (disk w1) d'" "before_commit plan ?d0 None None {} d'"
        using reconcile_before [OF L X J 3(2,1)] by blast
      then have "runs (reconcile_retention_locked codec (rp_repository_id plan)) (disk w1) d'" "settled plan ?d0 d'"
        using reconcile_one [OF L X] 3(2) by (auto simp: before_commit_def settled_def)
      with again q Inl show ?thesis by (intro final) (auto simp: runs_def quiet_def)
    next
      case 4
      obtain d' where "runs (reconcile_transaction codec (rp_repository_id plan) (intent_file plan)) (disk w1) d'" "after_commit plan ?d0 None None None d'"
        using reconcile_after [OF L X J 4(2,1,3)] by blast
      then have "runs (reconcile_retention_locked codec (rp_repository_id plan)) (disk w1) d'" "settled plan ?d0 d'"
        using reconcile_one [OF L X] 4(2) by (auto simp: after_commit_def settled_def)
      with again q Inl show ?thesis by (intro final) (auto simp: runs_def quiet_def)
    qed
  qed
qed

definition sample_retention_plan :: retention_plan where
  "sample_retention_plan = \<lparr>rp_plan_id = ''p1'', rp_repository_id = ''repo'',
     rp_policy = \<lparr>max_backups = 1, minimum_backups = 1\<rparr>, rp_snapshot = [], rp_delete_backup_ids = [''a'', ''b'']\<rparr>"

definition sample_codec :: journal_codec where
  "sample_codec = \<lparr>intent_to_json = (\<lambda>_. Some [1, 2]),
     intent_from_json = (\<lambda>bs. if bs = [1, 2] then Some (intent_from_plan sample_retention_plan) else None),
     audit_to_json = (\<lambda>_. Some [7])\<rparr>"

definition sample_repository :: disk where
  "sample_repository = [([''backups''], FsDir), ([''quarantine''], FsDir), ([''audit''], FsDir), ([''backups'', ''a''], FsDir),
     ([''backups'', ''a'', ''manifest.json''], FsFile [5]), ([''backups'', ''b''], FsDir), ([''backups'', ''c''], FsDir)]"

text \<open>A crash after the first backup has moved.\<close>

definition sample_crash :: world where
  "sample_crash = \<lparr>disk = sample_repository, faults = replicate 17 Proceed @ replicate 40 Refuse\<rparr>"

definition sample_reopened :: "(repository_error + unit) \<times> world" where
  "sample_reopened = reconcile_retention_locked sample_codec (rp_repository_id sample_retention_plan)
     ((snd (execute_moves sample_codec sample_retention_plan sample_crash))\<lparr>faults := []\<rparr>)"

lemma sample_retention_ready:
  "opened_layout sample_retention_plan (disk sample_crash)" "executable_plan sample_retention_plan"
  "journal_json sample_codec sample_retention_plan [1, 2]"
proof -
  show "opened_layout sample_retention_plan (disk sample_crash)"
    by (auto simp: opened_layout_def sample_crash_def sample_repository_def sample_retention_plan_def entry_at_def completed_file_def trash_name_def)
  show "executable_plan sample_retention_plan"
    by code_simp
  show "journal_json sample_codec sample_retention_plan [1, 2]"
    by (auto simp: journal_json_def sample_codec_def)
qed

theorem retention_crash_recovery_witness:
  "entry_at (disk (snd (execute_moves sample_codec sample_retention_plan sample_crash))) [''quarantine'', ''retention-p1'', ''a'', ''manifest.json''] = Some (FsFile [5]) \<and>
   entry_at (disk (snd sample_reopened)) [''backups'', ''a'', ''manifest.json''] = Some (FsFile [5]) \<and>
   entry_at (disk (snd sample_reopened)) [''backups'', ''c''] = Some FsDir \<and> fst sample_reopened = Inr ()"
proof -
  have again: "reconcile_retention_locked sample_codec (rp_repository_id sample_retention_plan)
      ((snd (execute_moves sample_codec sample_retention_plan sample_crash))\<lparr>faults := []\<rparr>) = (fst sample_reopened, snd sample_reopened)"
    by (simp only: sample_reopened_def prod.collapse)
  have "\<forall>q. untouched sample_retention_plan q \<longrightarrow> entry_at (disk (snd sample_reopened)) q = entry_at (disk sample_crash) q"
    by (rule retention_crash_recovery [THEN conjunct1, OF sample_retention_ready prod.collapse [symmetric] again])
  moreover have "untouched sample_retention_plan [''backups'', ''c'']" "entry_at (disk sample_crash) [''backups'', ''c''] = Some FsDir"
    by code_simp+
  moreover have "entry_at (disk (snd (execute_moves sample_codec sample_retention_plan sample_crash))) [''quarantine'', ''retention-p1'', ''a'', ''manifest.json''] = Some (FsFile [5])"
    by code_simp
  moreover have "entry_at (disk (snd sample_reopened)) [''backups'', ''a'', ''manifest.json''] = Some (FsFile [5])"
    by code_simp
  moreover have "fst sample_reopened = Inr ()"
    by code_simp
  ultimately show ?thesis by simp
qed

text \<open>C25: when no call fails, the moves succeed: the plan reports success, every planned backup is
  gone, the quarantine holds nothing of the retention and the rest of the repository is untouched.\<close>

theorem retention_succeeds_without_faults:
  assumes L: "opened_layout plan d0" and X: "executable_plan plan" and J: "journal_json codec plan bs"
    and approved: "entry_at d0 (approved_file plan) = None"
      "audit_to_json codec \<lparr>ar_state = ''approved'', ar_plan_id = rp_plan_id plan,
       ar_repository_id = rp_repository_id plan, ar_delete_backup_ids = rp_delete_backup_ids plan\<rparr> = Some bytes"
  shows "\<exists>d. execute_moves codec plan (quiet d0) = (Inr (), quiet d) \<and>
    (\<forall>b\<in>set (rp_delete_backup_ids plan). \<forall>p. entry_at d (''backups'' # b # p) = None) \<and>
    (\<forall>n p. prefix ''retention-'' n \<longrightarrow> entry_at d (''quarantine'' # n # p) = None) \<and>
    (\<forall>q. untouched plan q \<longrightarrow> entry_at d q = entry_at d0 q)"
proof -
  have b0: "before_commit plan d0 None None {} d0" by (rule before_commit_start [OF L])
  obtain d1 where d1: "runs (write_audit codec plan ''approved'') d0 d1" "entry_set (approved_file plan) (Some (FsFile bytes)) d0 d1"
    using runs_write_audit [OF approved(2), of d0] approved(1) L by (auto simp: audit_path_simps opened_layout_def)
  have b1: "before_commit plan d0 None None {} d1" using before_commit_set(1) [OF b0 d1(2)] by simp
  obtain d2 where d2: "tx_begin codec plan (quiet d1) = (Inr (tx_of_plan plan), quiet d2)"
      "before_commit plan d0 (Some (FsFile bs)) (Some FsDir) {} d2"
    using runs_tx_begin [OF L J b1] by blast
  obtain d3 where d3: "runs (move_backups (tx_of_plan plan) [] (rp_delete_backup_ids plan)) d2 d3"
      "before_commit plan d0 (Some (FsFile bs)) (Some FsDir) (set (rp_delete_backup_ids plan)) d3"
    using runs_move_backups [OF L, of "Some (FsFile bs)" "[]" d2 "rp_delete_backup_ids plan"] d2(2) X
    by (auto simp: moved_pairs_def executable_plan_def)
  have q3: "entry_at d3 [''quarantine''] = Some FsDir" by (rule before_commit_layout(2) [OF L d3(2)])
  obtain d4 where d4: "runs (write_new (cleanup_file plan) []) d3 d4" "entry_set (cleanup_file plan) (Some (FsFile [])) d3 d4"
    using runs_write_new [of "cleanup_file plan" d3] d3(2) q3 by (auto simp: before_commit_def cleanup_file_def)
  have a4: "after_commit plan d0 (Some (FsFile bs)) (Some FsDir) (Some (FsFile [])) d4"
    by (rule before_commit_set(4) [OF d3(2) d4(2) refl refl refl L])
  have "runs (sync_parent (cleanup_file plan)) d4 d4"
    using after_commit_layout(2) [OF L a4] by (auto intro!: runs_sync_parent simp: cleanup_file_def)
  with d4(1) have m: "runs (tx_mark_cleanup_ready (tx_of_plan plan)) d3 d4"
    unfolding tx_mark_cleanup_ready_def tx_of_plan_simps by (rule runs_then)
  obtain d5 where d5: "runs (tx_cleanup (tx_of_plan plan)) d4 d5" "after_commit plan d0 (Some (FsFile bs)) None (Some (FsFile [])) d5"
      "entry_at d5 (completed_file plan) = entry_at d4 (completed_file plan)"
    using runs_cleanup_transaction [OF L a4] unfolding tx_cleanup_def tx_of_plan_simps by blast
  have z: "entry_at d5 (completed_file plan) = None"
    using d5(3) d4(2) d3(2) by (simp add: entry_set_def before_commit_def journal_paths)
  obtain bytes' where "audit_to_json codec \<lparr>ar_state = ''completed'', ar_plan_id = rp_plan_id plan,
       ar_repository_id = rp_repository_id plan, ar_delete_backup_ids = rp_delete_backup_ids plan\<rparr> = Some bytes'"
    using J by (auto simp: journal_json_def)
  from runs_write_audit [OF this, of d5] obtain d6
    where d6: "runs (write_audit codec plan ''completed'') d5 d6" "entry_set (completed_file plan) (Some (FsFile bytes')) d5 d6"
    using z after_commit_layout(3) [OF L d5(2)] by (auto simp: audit_path_simps)
  have a6: "after_commit plan d0 (Some (FsFile bs)) None (Some (FsFile [])) d6"
    using after_commit_set(4) [OF d5(2) d6(2)] by simp
  obtain d7 where d7: "runs (remove_if_exists (cleanup_file plan)) d6 d7" "entry_set (cleanup_file plan) None d6 d7"
    using runs_remove_if_exists [of "cleanup_file plan" d6] after_commit_layout(2) [OF L a6] a6
    by (auto simp: cleanup_file_def after_commit_def)
  have a7: "after_commit plan d0 (Some (FsFile bs)) None None d7" using after_commit_set(3) [OF a6 d7(2)] by simp
  have "entry_at d7 (intent_file plan) = Some (FsFile bs)" using a7 by (simp add: after_commit_def)
  then obtain d8 where d8: "runs (remove_if_exists (intent_file plan)) d7 d8"
    by (rule runs_remove_intent [OF after_commit_layout(2) [OF L a7]])
  have f: "runs (tx_finish (tx_of_plan plan)) d6 d8"
    unfolding tx_finish_def tx_of_plan_simps by (rule runs_then, rule d7(1), rule d8)
  have run: "execute_moves codec plan (quiet d0) = (Inr (), quiet d8)"
    using d1(1) d2(1) d3(1) m d5(1) d6(1) f by (simp add: execute_moves_def runs_def do_then_def)
  have a8: "after_commit plan d0 None None None d8"
    using triple_ok [OF execute_moves_triple [OF L X J] _ run] by (simp add: quiet_simps)
  show ?thesis
    using run after_commit_gone [OF a8] settled_clean [OF L, of d8] a8
    by (intro exI [of _ d8]) (auto simp: settled_def after_commit_def rest_kept_def)
qed

theorem retention_succeeds_without_faults_witness:
  "\<exists>d. execute_moves sample_codec sample_retention_plan (quiet sample_repository) = (Inr (), quiet d) \<and>
     entry_at d [''backups'', ''a'', ''manifest.json''] = None \<and> entry_at d [''backups'', ''c''] = Some FsDir"
proof -
  have L: "opened_layout sample_retention_plan sample_repository"
    using sample_retention_ready(1) by (simp add: sample_crash_def)
  have "entry_at sample_repository (approved_file sample_retention_plan) = None"
    by code_simp
  from retention_succeeds_without_faults [OF L sample_retention_ready(2,3) this, of "[7]"]
  obtain d where d: "execute_moves sample_codec sample_retention_plan (quiet sample_repository) = (Inr (), quiet d)"
      "\<forall>b\<in>set (rp_delete_backup_ids sample_retention_plan). \<forall>p. entry_at d (''backups'' # b # p) = None"
      "\<forall>q. untouched sample_retention_plan q \<longrightarrow> entry_at d q = entry_at sample_repository q"
    by (auto simp: sample_codec_def)
  have "untouched sample_retention_plan [''backups'', ''c'']" "entry_at sample_repository [''backups'', ''c''] = Some FsDir"
    "''a'' \<in> set (rp_delete_backup_ids sample_retention_plan)"
    by code_simp+
  then show ?thesis using d by auto
qed

end
