(* ===== verification/Streams.thy ===== *)
theory Streams
  imports Prelude
begin

text \<open>
  The part of \<open>std::io\<close> the envelope and archive code use: a source of bytes that ends with an end
  of file or with an I/O error, a source that hands out its bytes in the pieces the operating
  system chooses, and a sink that may run out of room. \<open>read_exact\<close> and \<open>write_all\<close> are the provided
  methods of \<open>Read\<close> and \<open>Write\<close>.
\<close>

section \<open>Definitions\<close>

datatype io_error = IoFailed

record byte_source =
  src_bytes :: "byte list"
  src_fails :: bool

definition read_exact :: "nat \<Rightarrow> (byte_source, io_error, byte list) action" where
  "read_exact n s =
     (if n \<le> length (src_bytes s)
      then (Inr (take n (src_bytes s)), s\<lparr>src_bytes := drop n (src_bytes s)\<rparr>)
      else (Inl IoFailed, s\<lparr>src_bytes := []\<rparr>))"

text \<open>\<open>read\<close> into a one-byte buffer: how many bytes arrived.\<close>

definition read_one :: "(byte_source, io_error, nat) action" where
  "read_one s =
     (case src_bytes s of
        b # bs \<Rightarrow> (Inr 1, s\<lparr>src_bytes := bs\<rparr>)
      | [] \<Rightarrow> (if src_fails s then Inl IoFailed else Inr 0, s))"

text \<open>What successive \<open>read\<close> calls return: the pieces, then an error or end of file for ever.\<close>

record piece_source =
  ps_pieces :: "byte list list"
  ps_fails :: bool

record sink =
  sk_data :: "byte list"
  sk_room :: "nat option"
  sk_flush_fails :: bool

definition write_all :: "byte list \<Rightarrow> (sink, io_error, unit) action" where
  "write_all bs w =
     (case sk_room w of
        None \<Rightarrow> (Inr (), w\<lparr>sk_data := sk_data w @ bs\<rparr>)
      | Some r \<Rightarrow>
          if length bs \<le> r
          then (Inr (), w\<lparr>sk_data := sk_data w @ bs, sk_room := Some (r - length bs)\<rparr>)
          else (Inl IoFailed, w\<lparr>sk_data := sk_data w @ take r bs, sk_room := Some 0\<rparr>))"

definition flush :: "(sink, io_error, unit) action" where
  "flush w = (if sk_flush_fails w then Inl IoFailed else Inr (), w)"

text \<open>A sink in memory (\<open>Vec<u8>\<close>): no limit and no failing flush.\<close>

definition roomy :: "sink \<Rightarrow> bool" where
  "roomy w \<longleftrightarrow> sk_room w = None \<and> \<not> sk_flush_fails w"

definition vec_sink :: sink where
  "vec_sink = \<lparr>sk_data = [], sk_room = None, sk_flush_fails = False\<rparr>"

definition cursor :: "byte list \<Rightarrow> byte_source" where
  "cursor bs = \<lparr>src_bytes = bs, src_fails = False\<rparr>"

section \<open>Lemmas\<close>

lemma read_exact_ok:
  "read_exact n s = (Inr bs, t) \<longleftrightarrow>
     src_bytes s = bs @ src_bytes t \<and> length bs = n \<and> src_fails t = src_fails s"
proof
  assume "read_exact n s = (Inr bs, t)"
  then show "src_bytes s = bs @ src_bytes t \<and> length bs = n \<and> src_fails t = src_fails s"
    by (auto simp: read_exact_def split: if_splits)
next
  assume a: "src_bytes s = bs @ src_bytes t \<and> length bs = n \<and> src_fails t = src_fails s"
  then have "s\<lparr>src_bytes := src_bytes t\<rparr> = t" by simp
  with a show "read_exact n s = (Inr bs, t)" by (simp add: read_exact_def)
qed

lemma read_one_eof: "read_one s = (Inr 0, t) \<longleftrightarrow> t = s \<and> src_bytes s = [] \<and> \<not> src_fails s"
  by (auto simp: read_one_def split: list.splits)

lemma write_all_ok: "write_all bs w = (Inr u, t) \<Longrightarrow> sk_data t = sk_data w @ bs"
  by (auto simp: write_all_def split: option.splits if_splits)

lemma write_all_roomy:
  "roomy w \<Longrightarrow> write_all bs w = (Inr (), w\<lparr>sk_data := sk_data w @ bs\<rparr>)"
  by (simp add: write_all_def roomy_def)

lemma write_all_prefix: "write_all bs w = (r, t) \<Longrightarrow> prefix (sk_data w) (sk_data t)"
  by (auto simp: write_all_def split: option.splits if_splits)

lemma flush_ok [simp]: "flush w = (Inr u, t) \<longleftrightarrow> \<not> sk_flush_fails w \<and> t = w"
  by (auto simp: flush_def)

lemma roomy_update [simp]: "roomy (w\<lparr>sk_data := d\<rparr>) \<longleftrightarrow> roomy w"
  by (simp add: roomy_def)

lemma sk_data_vec [simp]: "sk_data vec_sink = []"
  by (simp add: vec_sink_def)

lemma roomy_vec [simp]: "roomy vec_sink"
  by (simp add: roomy_def vec_sink_def)

end
