(* ===== verification/Envelope.thy ===== *)
theory Envelope
  imports Streams
begin

text \<open>
  \<^verbatim>\<open>crates/guardian-encryption/src/lib.rs\<close> and \<^verbatim>\<open>recovery_bundle.rs\<close>: the streaming AES-256-GCM
  envelope and the passphrase-protected recovery bundle. The AEAD (crate \<open>aes-gcm\<close>) and the key
  derivation (crate \<open>argon2\<close>) are parameters, the random nonce and salt are arguments.
\<close>

section \<open>Definitions\<close>

definition ENVELOPE_VERSION :: byte where "ENVELOPE_VERSION = 1"

definition CHUNK_BYTES :: nat where "CHUNK_BYTES = 1024 * 1024"

definition KEY_BYTES :: nat where "KEY_BYTES = 32"

definition NONCE_BYTES :: nat where "NONCE_BYTES = 12"

definition MAGIC :: "byte list" where "MAGIC = bytes_of ''VDSENC01''"

definition HEADER_BYTES :: nat where "HEADER_BYTES = length MAGIC + 1 + NONCE_BYTES"

definition TAG_BYTES :: nat where "TAG_BYTES = 16"

type_synonym payload_key = "byte list"

text \<open>\<open>encrypt key nonce aad message\<close> and \<open>decrypt key nonce aad ciphertext\<close> of the AEAD.\<close>

type_synonym aead = "payload_key \<Rightarrow> byte list \<Rightarrow> byte list \<Rightarrow> byte list \<Rightarrow> byte list option"

datatype encryption_error =
    InvalidKey | UnsupportedVersion | Failed | TooLarge | TooManyChunks | EncryptionIo

record envelope_header =
  eh_version :: byte
  eh_nonce :: "byte list"

definition payload_key_from_bytes :: "byte list \<Rightarrow> encryption_error + payload_key" where
  "payload_key_from_bytes bytes = ok_if (length bytes = KEY_BYTES) bytes InvalidKey"

definition cipher :: "payload_key \<Rightarrow> encryption_error + payload_key" where
  "cipher key = ok_if (length key = KEY_BYTES) key InvalidKey"

definition chunk_nonce :: "byte list \<Rightarrow> nat \<Rightarrow> byte list" where
  "chunk_nonce base index = take (NONCE_BYTES - 4) base @ be32 index"

definition frame_aad :: "byte list \<Rightarrow> nat \<Rightarrow> bool \<Rightarrow> byte list" where
  "frame_aad associated_data index final_frame =
     associated_data @ be32 index @ [if final_frame then 1 else 0]"

definition write_frame ::
  "aead \<Rightarrow> payload_key \<Rightarrow> byte list \<Rightarrow> nat \<Rightarrow> bool \<Rightarrow> byte list \<Rightarrow> byte list \<Rightarrow>
   (sink, encryption_error, unit) action" where
  "write_frame enc key base_nonce index final_frame plaintext associated_data =
     do_then (do_lift (ok_or (enc key (chunk_nonce base_nonce index)
       (frame_aad associated_data index final_frame) plaintext) Failed)) (\<lambda>ciphertext.
     do_then (do_lift (ok_if (length ciphertext < 2 ^ 32) (length ciphertext) TooLarge)) (\<lambda>len.
     do_then (do_map_err (\<lambda>_. EncryptionIo) (write_all [if final_frame then 1 else 0])) (\<lambda>_.
     do_then (do_map_err (\<lambda>_. EncryptionIo) (write_all (be32 len))) (\<lambda>_.
     do_map_err (\<lambda>_. EncryptionIo) (write_all ciphertext)))))"

definition finish_envelope ::
  "aead \<Rightarrow> payload_key \<Rightarrow> byte list \<Rightarrow> byte list \<Rightarrow> nat \<Rightarrow> (sink, encryption_error, unit) action" where
  "finish_envelope enc key nonce associated_data index =
     do_then (write_frame enc key nonce index True [] associated_data) (\<lambda>_.
       do_map_err (\<lambda>_. EncryptionIo) flush)"

fun encrypt_loop ::
  "aead \<Rightarrow> payload_key \<Rightarrow> byte list \<Rightarrow> byte list \<Rightarrow> bool \<Rightarrow> nat \<Rightarrow> byte list list \<Rightarrow>
   (sink, encryption_error, unit) action" where
  "encrypt_loop enc key nonce associated_data fails index [] =
     (if fails then do_fail EncryptionIo else finish_envelope enc key nonce associated_data index)"
| "encrypt_loop enc key nonce associated_data fails index (piece # pieces) =
     (if piece = [] then finish_envelope enc key nonce associated_data index
      else
        do_then (write_frame enc key nonce index False piece associated_data) (\<lambda>_.
          if index + 1 < 2 ^ 32
          then encrypt_loop enc key nonce associated_data fails (index + 1) pieces
          else do_fail TooManyChunks))"

definition encrypt_reader_to ::
  "aead \<Rightarrow> payload_key \<Rightarrow> byte list \<Rightarrow> piece_source \<Rightarrow> byte list \<Rightarrow>
   (sink, encryption_error, envelope_header) action" where
  "encrypt_reader_to enc key nonce input associated_data =
     (let header = \<lparr>eh_version = ENVELOPE_VERSION, eh_nonce = nonce\<rparr> in
      do_then (do_map_err (\<lambda>_. EncryptionIo) (write_all MAGIC)) (\<lambda>_.
      do_then (do_map_err (\<lambda>_. EncryptionIo) (write_all [eh_version header])) (\<lambda>_.
      do_then (do_map_err (\<lambda>_. EncryptionIo) (write_all (eh_nonce header))) (\<lambda>_.
      do_then (do_lift (cipher key)) (\<lambda>key.
      do_then (encrypt_loop enc key nonce associated_data (ps_fails input) 0 (ps_pieces input)) (\<lambda>_.
      do_return header))))))"

definition read_header :: "(byte_source, encryption_error, envelope_header) action" where
  "read_header =
     do_then (do_map_err (\<lambda>_. Failed) (read_exact HEADER_BYTES)) (\<lambda>header.
       if take (length MAGIC) header \<noteq> MAGIC \<or> header ! length MAGIC \<noteq> ENVELOPE_VERSION
       then do_fail UnsupportedVersion
       else do_return \<lparr>eh_version = ENVELOPE_VERSION, eh_nonce = drop (length MAGIC + 1) header\<rparr>)"

definition read_frame :: "(byte_source, encryption_error, bool \<times> byte list) action" where
  "read_frame =
     do_then (do_map_err (\<lambda>_. Failed) (read_exact 1)) (\<lambda>final_frame.
     if hd final_frame > 1 then do_fail Failed
     else
       do_then (do_map_err (\<lambda>_. Failed) (read_exact 4)) (\<lambda>len.
       let len = be_nat len in
       if \<not> (TAG_BYTES \<le> len \<and> len \<le> CHUNK_BYTES + TAG_BYTES) then do_fail Failed
       else
         do_then (do_map_err (\<lambda>_. Failed) (read_exact len)) (\<lambda>ciphertext.
         do_return (hd final_frame = 1, ciphertext))))"

definition decrypt_frame ::
  "aead \<Rightarrow> payload_key \<Rightarrow> byte list \<Rightarrow> nat \<Rightarrow> bool \<Rightarrow> byte list \<Rightarrow> byte list \<Rightarrow>
   encryption_error + byte list" where
  "decrypt_frame dec key base_nonce index final_frame ciphertext associated_data =
     ok_or (dec key (chunk_nonce base_nonce index) (frame_aad associated_data index final_frame) ciphertext)
       Failed"

definition end_of_envelope :: "byte list \<Rightarrow> byte_source \<Rightarrow> (sink, encryption_error, unit) action" where
  "end_of_envelope plaintext input =
     (if plaintext \<noteq> [] then do_fail Failed
      else
        do_then (do_lift (map_err (\<lambda>_. EncryptionIo) (fst (read_one input)))) (\<lambda>n.
          if n \<noteq> 0 then do_fail Failed else do_map_err (\<lambda>_. EncryptionIo) flush))"

lemma read_frame_ok:
  "read_frame s = (Inr (f, ct), t) \<longleftrightarrow>
     src_bytes s = (if f then 1 else 0) # be32 (length ct) @ ct @ src_bytes t \<and> src_fails t = src_fails s \<and>
     TAG_BYTES \<le> length ct \<and> length ct \<le> CHUNK_BYTES + TAG_BYTES"
proof
  assume "read_frame s = (Inr (f, ct), t)"
  then obtain b u l v where r: "read_exact 1 s = (Inr b, u)" "read_exact 4 u = (Inr l, v)"
      "read_exact (be_nat l) v = (Inr ct, t)" and b4: "\<not> hd b > 1" and f: "f = (hd b = 1)"
      and bound: "TAG_BYTES \<le> be_nat l" "be_nat l \<le> CHUNK_BYTES + TAG_BYTES"
    unfolding read_frame_def do_then_ok do_map_err_ok Let_def
    by (fastforce simp: do_then_ok split: if_splits)
  note b = r(1) [unfolded read_exact_ok] and l = r(2) [unfolded read_exact_ok] and ct = r(3) [unfolded read_exact_ok]
  have "l = be32 (length ct)" using be32_of_length4 [of l] l ct by simp
  moreover have "b = [if f then 1 else 0]"
  proof -
    obtain x where x: "b = [x]" using b by (cases b) auto
    moreover have "x = 0 \<or> x = 1"
    proof -
      have "unat x \<le> 1" using b4 x by (simp add: word_less_nat_alt)
      then have "unat x = 0 \<or> unat x = unat (1 :: byte)" by auto
      then show ?thesis by (auto simp only: unat_eq_zero word_unat_eq_iff [symmetric])
    qed
    ultimately show ?thesis using f by auto
  qed
  ultimately show "src_bytes s = (if f then 1 else 0) # be32 (length ct) @ ct @ src_bytes t \<and>
      src_fails t = src_fails s \<and> TAG_BYTES \<le> length ct \<and> length ct \<le> CHUNK_BYTES + TAG_BYTES"
    using b l ct bound by simp
next
  assume a: "src_bytes s = (if f then 1 else 0) # be32 (length ct) @ ct @ src_bytes t \<and>
      src_fails t = src_fails s \<and> TAG_BYTES \<le> length ct \<and> length ct \<le> CHUNK_BYTES + TAG_BYTES"
  let ?u = "s\<lparr>src_bytes := be32 (length ct) @ ct @ src_bytes t\<rparr>"
  let ?v = "s\<lparr>src_bytes := ct @ src_bytes t\<rparr>"
  have "read_exact 1 s = (Inr [if f then 1 else 0], ?u)" "read_exact 4 ?u = (Inr (be32 (length ct)), ?v)"
    "read_exact (length ct) ?v = (Inr ct, t)"
    using a by (simp_all add: read_exact_ok)
  moreover have "be_nat (be32 (length ct)) = length ct"
    using a by (intro be_nat_be32) (simp add: CHUNK_BYTES_def TAG_BYTES_def)
  ultimately show "read_frame s = (Inr (f, ct), t)"
    using a by (simp add: read_frame_def do_then_def do_map_err_def Let_def)
qed

function decrypt_loop ::
  "aead \<Rightarrow> payload_key \<Rightarrow> byte list \<Rightarrow> byte list \<Rightarrow> nat \<Rightarrow> byte_source \<Rightarrow>
   (sink, encryption_error, unit) action" where
  "decrypt_loop dec key nonce associated_data index input out =
     (case read_frame input of
        (Inl e, _) \<Rightarrow> (Inl e, out)
      | (Inr (final_frame, ciphertext), input') \<Rightarrow>
          (case decrypt_frame dec key nonce index final_frame ciphertext associated_data of
             Inl e \<Rightarrow> (Inl e, out)
           | Inr plaintext \<Rightarrow>
               if \<not> final_frame
               then (case write_all plaintext out of
                       (Inl _, out') \<Rightarrow> (Inl EncryptionIo, out')
                     | (Inr _, out') \<Rightarrow>
                         if index + 1 < 2 ^ 32
                         then decrypt_loop dec key nonce associated_data (index + 1) input' out'
                         else (Inl TooManyChunks, out'))
               else end_of_envelope plaintext input' out))"
  by pat_completeness auto
termination
proof (relation "measure (\<lambda>(_, _, _, _, _, input, _). length (src_bytes input))", goal_cases)
  case 1
  show ?case by simp
next
  case (2 dec key nonce ad i input out x input' y f ct)
  then have "read_frame input = (Inr (f, ct), input')" by simp
  then show ?case by (auto simp: read_frame_ok)
qed

lemmas [simp del] = decrypt_loop.simps

definition decrypt_frames_to ::
  "aead \<Rightarrow> payload_key \<Rightarrow> byte list \<Rightarrow> byte_source \<Rightarrow> byte list \<Rightarrow> (sink, encryption_error, unit) action" where
  "decrypt_frames_to dec key nonce input associated_data =
     do_then (do_lift (cipher key)) (\<lambda>key. decrypt_loop dec key nonce associated_data 0 input)"

definition decrypt_reader_to ::
  "aead \<Rightarrow> payload_key \<Rightarrow> byte_source \<Rightarrow> byte list \<Rightarrow> byte list \<Rightarrow> (sink, encryption_error, unit) action" where
  "decrypt_reader_to dec key input associated_data expected_nonce =
     (case read_header input of
        (Inl e, _) \<Rightarrow> do_fail e
      | (Inr header, input') \<Rightarrow>
          if eh_nonce header \<noteq> expected_nonce then do_fail Failed
          else decrypt_frames_to dec key (eh_nonce header) input' associated_data)"

definition decrypt_self_describing_reader_to ::
  "aead \<Rightarrow> payload_key \<Rightarrow> byte_source \<Rightarrow> byte list \<Rightarrow> (sink, encryption_error, unit) action" where
  "decrypt_self_describing_reader_to dec key input associated_data =
     (case read_header input of
        (Inl e, _) \<Rightarrow> do_fail e
      | (Inr header, input') \<Rightarrow> decrypt_frames_to dec key (eh_nonce header) input' associated_data)"

subsection \<open>Recovery bundles\<close>

record kdf_params =
  m_cost :: u32
  t_cost :: u32
  p_cost :: u32

definition kdf_recommended :: kdf_params where
  "kdf_recommended = \<lparr>m_cost = 65536, t_cost = 3, p_cost = 4\<rparr>"

record wrapped_recovery_key =
  wr_salt :: "byte list"
  wr_ciphertext :: "byte list"

datatype recovery_bundle_error = InvalidKdfParams | BundleEncryption | WrongPassphraseOrCorruptBundle

text \<open>Argon2id with the given parameters on a passphrase and a salt; \<open>None\<close> when the crate rejects
  the parameters or the inputs.\<close>

type_synonym kdf = "kdf_params \<Rightarrow> byte list \<Rightarrow> byte list \<Rightarrow> byte list option"

definition derive_key :: "kdf \<Rightarrow> byte list \<Rightarrow> byte list \<Rightarrow> kdf_params \<Rightarrow> recovery_bundle_error + payload_key" where
  "derive_key argon2id passphrase salt params =
     and_then (ok_or (argon2id params passphrase salt) InvalidKdfParams) (\<lambda>derived.
       map_err (\<lambda>_. InvalidKdfParams) (payload_key_from_bytes derived))"

definition bundle_associated_data :: "string \<Rightarrow> byte list" where
  "bundle_associated_data repository_id = bytes_of (''guardian-recovery-bundle-v1|'' @ repository_id)"

definition wrap_recovery_key ::
  "aead \<Rightarrow> kdf \<Rightarrow> byte list \<Rightarrow> byte list \<Rightarrow> byte list \<Rightarrow> payload_key \<Rightarrow> string \<Rightarrow> kdf_params \<Rightarrow>
   recovery_bundle_error + wrapped_recovery_key" where
  "wrap_recovery_key enc argon2id salt nonce passphrase key repository_id params =
     and_then (derive_key argon2id passphrase salt params) (\<lambda>derived.
       case encrypt_reader_to enc derived nonce \<lparr>ps_pieces = [key], ps_fails = False\<rparr>
              (bundle_associated_data repository_id) vec_sink of
         (Inl _, _) \<Rightarrow> Inl BundleEncryption
       | (Inr _, out) \<Rightarrow> Inr \<lparr>wr_salt = salt, wr_ciphertext = sk_data out\<rparr>)"

definition unwrap_recovery_key ::
  "aead \<Rightarrow> kdf \<Rightarrow> byte list \<Rightarrow> wrapped_recovery_key \<Rightarrow> string \<Rightarrow> kdf_params \<Rightarrow>
   recovery_bundle_error + payload_key" where
  "unwrap_recovery_key dec argon2id passphrase wrapped repository_id params =
     and_then (derive_key argon2id passphrase (wr_salt wrapped) params) (\<lambda>derived.
       case decrypt_self_describing_reader_to dec derived (cursor (wr_ciphertext wrapped))
              (bundle_associated_data repository_id) vec_sink of
         (Inl _, _) \<Rightarrow> Inl WrongPassphraseOrCorruptBundle
       | (Inr _, out) \<Rightarrow>
           map_err (\<lambda>_. WrongPassphraseOrCorruptBundle) (payload_key_from_bytes (sk_data out)))"

subsection \<open>Reference semantics\<close>

text \<open>
  What the development relies on of AES-256-GCM: encryption and decryption are inverse on a fixed
  key, nonce and associated data, the ciphertext is 16 bytes longer than the message, and a message
  of at most one chunk is always encrypted.
\<close>

definition aead_ok :: "aead \<Rightarrow> aead \<Rightarrow> bool" where
  "aead_ok enc dec \<longleftrightarrow>
     (\<forall>k n a m c. enc k n a m = Some c \<longleftrightarrow> dec k n a c = Some m) \<and>
     (\<forall>k n a m c. enc k n a m = Some c \<longrightarrow> length c = length m + TAG_BYTES) \<and>
     (\<forall>k n a m. length k = KEY_BYTES \<and> length n = NONCE_BYTES \<and> length m \<le> CHUNK_BYTES \<longrightarrow> enc k n a m \<noteq> None)"

definition frame_ciphertext ::
  "aead \<Rightarrow> payload_key \<Rightarrow> byte list \<Rightarrow> byte list \<Rightarrow> nat \<Rightarrow> bool \<Rightarrow> byte list \<Rightarrow> byte list" where
  "frame_ciphertext enc key nonce ad i final m = the (enc key (chunk_nonce nonce i) (frame_aad ad i final) m)"

definition frame_bytes ::
  "aead \<Rightarrow> payload_key \<Rightarrow> byte list \<Rightarrow> byte list \<Rightarrow> nat \<Rightarrow> bool \<Rightarrow> byte list \<Rightarrow> byte list" where
  "frame_bytes enc key nonce ad i final m =
     (let c = frame_ciphertext enc key nonce ad i final m
      in (if final then 1 else 0) # be32 (length c) @ c)"

fun frames_bytes ::
  "aead \<Rightarrow> payload_key \<Rightarrow> byte list \<Rightarrow> byte list \<Rightarrow> nat \<Rightarrow> byte list list \<Rightarrow> byte list" where
  "frames_bytes enc key nonce ad i [] = frame_bytes enc key nonce ad i True []"
| "frames_bytes enc key nonce ad i (m # ms) =
     frame_bytes enc key nonce ad i False m @ frames_bytes enc key nonce ad (i + 1) ms"

definition envelope_bytes ::
  "aead \<Rightarrow> payload_key \<Rightarrow> byte list \<Rightarrow> byte list \<Rightarrow> byte list list \<Rightarrow> byte list" where
  "envelope_bytes enc key nonce ad ms =
     MAGIC @ [ENVELOPE_VERSION] @ nonce @ frames_bytes enc key nonce ad 0 ms"

section \<open>Lemmas\<close>

lemma length_MAGIC [simp]: "length MAGIC = 8"
  by (simp add: MAGIC_def)

lemma length_chunk_nonce: "length base = NONCE_BYTES \<Longrightarrow> length (chunk_nonce base i) = NONCE_BYTES"
  by (simp add: chunk_nonce_def NONCE_BYTES_def)

lemma chunk_nonce_inject:
  assumes "length a = NONCE_BYTES" "length b = NONCE_BYTES" "i < 2 ^ 32" "j < 2 ^ 32"
  shows "chunk_nonce a i = chunk_nonce b j \<longleftrightarrow> take 8 a = take 8 b \<and> i = j"
  using assms be32_inject [of i j] by (simp add: chunk_nonce_def NONCE_BYTES_def)

lemma frame_aad_inject:
  assumes "i < 2 ^ 32" "j < 2 ^ 32"
  shows "frame_aad a i f = frame_aad b j g \<longleftrightarrow> a = b \<and> i = j \<and> f = g"
  using assms be32_inject [of i j] by (auto simp: frame_aad_def)

lemma frame_ciphertext_Some:
  assumes "aead_ok enc dec" "length key = KEY_BYTES" "length nonce = NONCE_BYTES" "length m \<le> CHUNK_BYTES"
  shows "enc key (chunk_nonce nonce i) (frame_aad ad i final) m = Some (frame_ciphertext enc key nonce ad i final m)"
    "length (frame_ciphertext enc key nonce ad i final m) = length m + TAG_BYTES"
proof -
  have "enc key (chunk_nonce nonce i) (frame_aad ad i final) m \<noteq> None"
    using assms length_chunk_nonce unfolding aead_ok_def by blast
  then show e: "enc key (chunk_nonce nonce i) (frame_aad ad i final) m = Some (frame_ciphertext enc key nonce ad i final m)"
    by (auto simp: frame_ciphertext_def)
  show "length (frame_ciphertext enc key nonce ad i final m) = length m + TAG_BYTES"
    using assms(1) e unfolding aead_ok_def by blast
qed

lemma write_frame_roomy:
  assumes "aead_ok enc dec" "length key = KEY_BYTES" "length nonce = NONCE_BYTES" "length m \<le> CHUNK_BYTES" "roomy w"
  shows "write_frame enc key nonce i final m ad w =
    (Inr (), w\<lparr>sk_data := sk_data w @ frame_bytes enc key nonce ad i final m\<rparr>)"
proof -
  have "length m + TAG_BYTES < 2 ^ 32"
    using assms(4) by (simp add: CHUNK_BYTES_def TAG_BYTES_def)
  then show ?thesis
    using assms(5) frame_ciphertext_Some [OF assms(1-4), where i = i and ad = ad and final = final]
    by (simp add: write_frame_def do_then_def do_map_err_def ok_if_def ok_or_def write_all_roomy
        frame_bytes_def Let_def)
qed

lemma encrypt_loop_roomy:
  assumes "aead_ok enc dec" "length key = KEY_BYTES" "length nonce = NONCE_BYTES"
    and "\<forall>m\<in>set ms. m \<noteq> [] \<and> length m \<le> CHUNK_BYTES" "roomy w" "i + length ms < 2 ^ 32"
  shows "encrypt_loop enc key nonce ad False i ms w =
    (Inr (), w\<lparr>sk_data := sk_data w @ frames_bytes enc key nonce ad i ms\<rparr>)"
  using assms(4-6)
proof (induction ms arbitrary: i w)
  case Nil
  have "\<not> sk_flush_fails w" using Nil by (simp add: roomy_def)
  with Nil show ?case
    by (simp add: finish_envelope_def do_then_def do_map_err_def write_frame_roomy [OF assms(1-3)] flush_def)
next
  case (Cons m ms)
  then show ?case
    by (simp add: do_then_def write_frame_roomy [OF assms(1-3)])
qed

lemma read_header_ok:
  "read_header s = (Inr h, t) \<longleftrightarrow>
     length (eh_nonce h) = NONCE_BYTES \<and> eh_version h = ENVELOPE_VERSION \<and>
     src_bytes s = MAGIC @ [ENVELOPE_VERSION] @ eh_nonce h @ src_bytes t \<and> src_fails t = src_fails s"
proof
  assume "read_header s = (Inr h, t)"
  then obtain hd where r: "read_exact HEADER_BYTES s = (Inr hd, t)" and m: "take (length MAGIC) hd = MAGIC"
    and v: "hd ! length MAGIC = ENVELOPE_VERSION"
    and h: "h = \<lparr>eh_version = ENVELOPE_VERSION, eh_nonce = drop (length MAGIC + 1) hd\<rparr>"
    by (auto simp: read_header_def do_then_ok split: if_splits)
  have len: "length hd = 21" "HEADER_BYTES = 21"
    using r by (simp_all add: read_exact_ok HEADER_BYTES_def NONCE_BYTES_def)
  have "hd = take 8 hd @ hd ! 8 # drop 9 hd"
    using len id_take_nth_drop [of 8 hd] by simp
  then have "hd = MAGIC @ [ENVELOPE_VERSION] @ eh_nonce h"
    using m v h by simp
  then show "length (eh_nonce h) = NONCE_BYTES \<and> eh_version h = ENVELOPE_VERSION \<and>
     src_bytes s = MAGIC @ [ENVELOPE_VERSION] @ eh_nonce h @ src_bytes t \<and> src_fails t = src_fails s"
    using r h len by (simp add: read_exact_ok NONCE_BYTES_def)
next
  assume a: "length (eh_nonce h) = NONCE_BYTES \<and> eh_version h = ENVELOPE_VERSION \<and>
     src_bytes s = MAGIC @ [ENVELOPE_VERSION] @ eh_nonce h @ src_bytes t \<and> src_fails t = src_fails s"
  then have "read_exact HEADER_BYTES s = (Inr (MAGIC @ [ENVELOPE_VERSION] @ eh_nonce h), t)"
    by (simp add: read_exact_ok HEADER_BYTES_def)
  moreover have "\<lparr>eh_version = ENVELOPE_VERSION, eh_nonce = eh_nonce h\<rparr> = h"
    using a by simp
  ultimately show "read_header s = (Inr h, t)"
    by (simp add: read_header_def do_then_def do_map_err_def nth_append)
qed

text \<open>The decryption loop accepts exactly a sequence of authentic frames ended by the final one.\<close>

fun frame_sequence ::
  "aead \<Rightarrow> payload_key \<Rightarrow> byte list \<Rightarrow> byte list \<Rightarrow> nat \<Rightarrow> byte list list \<Rightarrow> byte list \<Rightarrow> bool" where
  "frame_sequence enc key nonce ad i [] bs \<longleftrightarrow>
     (\<exists>c. enc key (chunk_nonce nonce i) (frame_aad ad i True) [] = Some c \<and> bs = 1 # be32 (length c) @ c)"
| "frame_sequence enc key nonce ad i (m # ms) bs \<longleftrightarrow>
     (\<exists>c rest. enc key (chunk_nonce nonce i) (frame_aad ad i False) m = Some c \<and> length m \<le> CHUNK_BYTES \<and>
        bs = 0 # be32 (length c) @ c @ rest \<and> frame_sequence enc key nonce ad (i + 1) ms rest)"

lemma end_of_envelope_ok:
  "end_of_envelope pt input out = (Inr (), out') \<longleftrightarrow>
     pt = [] \<and> src_bytes input = [] \<and> \<not> src_fails input \<and> \<not> sk_flush_fails out \<and> out' = out"
proof -
  have "fst (read_one input) = Inr 0 \<longleftrightarrow> src_bytes input = [] \<and> \<not> src_fails input"
    by (auto simp: read_one_def split: list.splits)
  then show ?thesis
    by (auto simp: end_of_envelope_def do_then_ok)
qed

lemma decrypt_loop_step:
  "decrypt_loop dec key nonce ad i input out = (Inr (), out') \<longleftrightarrow>
     (\<exists>f ct input' pt. read_frame input = (Inr (f, ct), input') \<and>
        dec key (chunk_nonce nonce i) (frame_aad ad i f) ct = Some pt \<and>
        (if f then end_of_envelope pt input' out = (Inr (), out')
         else \<exists>w. write_all pt out = (Inr (), w) \<and> i + 1 < 2 ^ 32 \<and>
           decrypt_loop dec key nonce ad (i + 1) input' w = (Inr (), out')))"
proof (cases "read_frame input")
  case (Pair r input')
  show ?thesis
  proof (cases r)
    case (Inr p)
    obtain f ct where p: "p = (f, ct)" by (cases p)
    show ?thesis
    proof (cases "dec key (chunk_nonce nonce i) (frame_aad ad i f) ct")
      case (Some pt)
      obtain x w where "write_all pt out = (x, w)" by (cases "write_all pt out")
      with Pair Inr p Some show ?thesis
        by (subst decrypt_loop.simps) (auto simp: decrypt_frame_def ok_or_def split: sum.splits)
    qed (use Pair Inr p in \<open>simp add: decrypt_loop.simps decrypt_frame_def ok_or_def\<close>)
  qed (use Pair in \<open>simp add: decrypt_loop.simps\<close>)
qed

lemma decrypt_loop_sound:
  assumes ok: "aead_ok enc dec"
  shows "decrypt_loop dec key nonce ad i input out = (Inr (), out') \<Longrightarrow> i < 2 ^ 32 \<Longrightarrow>
     \<exists>ms. frame_sequence enc key nonce ad i ms (src_bytes input) \<and> \<not> src_fails input \<and>
        i + length ms < 2 ^ 32 \<and> sk_data out' = sk_data out @ concat ms"
proof (induction "length (src_bytes input)" arbitrary: i input out rule: less_induct)
  case less
  from less.prems obtain f ct input' pt where rf: "read_frame input = (Inr (f, ct), input')"
    and dec: "dec key (chunk_nonce nonce i) (frame_aad ad i f) ct = Some pt"
    and nxt: "if f then end_of_envelope pt input' out = (Inr (), out')
         else \<exists>w. write_all pt out = (Inr (), w) \<and> i + 1 < 2 ^ 32 \<and>
           decrypt_loop dec key nonce ad (i + 1) input' w = (Inr (), out')"
    by (subst (asm) decrypt_loop_step) blast
  note bytes = rf [unfolded read_frame_ok]
  have enc: "enc key (chunk_nonce nonce i) (frame_aad ad i f) pt = Some ct"
    and len: "length ct = length pt + TAG_BYTES"
    using ok dec unfolding aead_ok_def by blast+
  show ?case
  proof (cases f)
    case True
    then have e: "pt = []" "src_bytes input' = []" "\<not> src_fails input'" "out' = out"
      using nxt by (auto simp: end_of_envelope_ok)
    then have "frame_sequence enc key nonce ad i [] (src_bytes input) \<and> \<not> src_fails input"
      using bytes enc True by auto
    with e less.prems(2) show ?thesis by (intro exI [of _ "[]"]) simp
  next
    case False
    then obtain w where w: "write_all pt out = (Inr (), w)" "i + 1 < 2 ^ 32"
      and rest: "decrypt_loop dec key nonce ad (i + 1) input' w = (Inr (), out')"
      using nxt by auto
    have "length (src_bytes input') < length (src_bytes input)" using bytes by simp
    from less.hyps [OF this rest w(2)] obtain ms where ms:
      "frame_sequence enc key nonce ad (i + 1) ms (src_bytes input')" "\<not> src_fails input'"
      "i + 1 + length ms < 2 ^ 32" "sk_data out' = sk_data w @ concat ms" by blast
    have "frame_sequence enc key nonce ad i (pt # ms) (src_bytes input)"
      using bytes enc len ms(1) False by auto
    with ms bytes show ?thesis
      using write_all_ok [OF w(1)] by (intro exI [of _ "pt # ms"]) simp
  qed
qed

lemma decrypt_loop_complete:
  assumes ok: "aead_ok enc dec"
  shows "frame_sequence enc key nonce ad i ms (src_bytes input) \<Longrightarrow> \<not> src_fails input \<Longrightarrow> roomy out \<Longrightarrow>
     i + length ms < 2 ^ 32 \<Longrightarrow>
     decrypt_loop dec key nonce ad i input out = (Inr (), out\<lparr>sk_data := sk_data out @ concat ms\<rparr>)"
proof (induction ms arbitrary: i input out)
  case Nil
  then obtain c where c: "enc key (chunk_nonce nonce i) (frame_aad ad i True) [] = Some c"
    "src_bytes input = 1 # be32 (length c) @ c" by auto
  then have d: "dec key (chunk_nonce nonce i) (frame_aad ad i True) c = Some []" "length c = TAG_BYTES"
    using ok unfolding aead_ok_def by (blast, force)
  then have "read_frame input = (Inr (True, c), input\<lparr>src_bytes := []\<rparr>)"
    using c by (simp add: read_frame_ok)
  with d Nil show ?case
    by (subst decrypt_loop_step) (auto simp: end_of_envelope_ok roomy_def)
next
  case (Cons m ms)
  then obtain c rest where c: "enc key (chunk_nonce nonce i) (frame_aad ad i False) m = Some c"
    and len: "length m \<le> CHUNK_BYTES" and bs: "src_bytes input = 0 # be32 (length c) @ c @ rest"
    and fs: "frame_sequence enc key nonce ad (i + 1) ms rest" by auto
  have d: "dec key (chunk_nonce nonce i) (frame_aad ad i False) c = Some m" "length c = length m + TAG_BYTES"
    using ok c unfolding aead_ok_def by blast+
  let ?input = "input\<lparr>src_bytes := rest\<rparr>" and ?w = "out\<lparr>sk_data := sk_data out @ m\<rparr>"
  have rf: "read_frame input = (Inr (False, c), ?input)"
    using bs d len by (simp add: read_frame_ok)
  have "decrypt_loop dec key nonce ad (i + 1) ?input ?w = (Inr (), ?w\<lparr>sk_data := sk_data ?w @ concat ms\<rparr>)"
    using Cons.prems fs by (intro Cons.IH) auto
  with rf d Cons.prems show ?case
    by (subst decrypt_loop_step) (auto simp: write_all_roomy)
qed

lemma frame_sequence_bytes:
  assumes "aead_ok enc dec" "length key = KEY_BYTES" "length nonce = NONCE_BYTES"
  shows "frame_sequence enc key nonce ad i ms bs \<longleftrightarrow>
    bs = frames_bytes enc key nonce ad i ms \<and> (\<forall>m\<in>set ms. length m \<le> CHUNK_BYTES)"
proof (induction ms arbitrary: i bs)
  case Nil
  show ?case
    using frame_ciphertext_Some [OF assms, where m = "[]" and i = i and ad = ad and final = True]
    by (auto simp: frame_bytes_def Let_def)
next
  case (Cons m ms)
  show ?case
    using frame_ciphertext_Some(1) [OF assms, where m = m and i = i and ad = ad and final = False]
    by (auto simp: frame_bytes_def Let_def Cons)
qed

lemma decrypt_frames_ok:
  assumes ok: "aead_ok enc dec" and key: "length key = KEY_BYTES" and nonce: "length nonce = NONCE_BYTES" and out: "roomy out"
  shows "decrypt_frames_to dec key nonce (cursor bs) ad out = (Inr (), out') \<longleftrightarrow>
     (\<exists>ms. (\<forall>m\<in>set ms. length m \<le> CHUNK_BYTES) \<and> length ms < 2 ^ 32 \<and>
        bs = frames_bytes enc key nonce ad 0 ms \<and> out' = out\<lparr>sk_data := sk_data out @ concat ms\<rparr>)"
    (is "?run \<longleftrightarrow> ?spec")
proof -
  have loop: "?run \<longleftrightarrow> decrypt_loop dec key nonce ad 0 (cursor bs) out = (Inr (), out')"
    using key by (simp add: decrypt_frames_to_def cipher_def ok_if_def do_then_def)
  have complete: "decrypt_loop dec key nonce ad 0 (cursor bs) out = (Inr (), out\<lparr>sk_data := sk_data out @ concat ms\<rparr>)"
    if "frame_sequence enc key nonce ad 0 ms bs" "length ms < 2 ^ 32" for ms
    using that out by (intro decrypt_loop_complete [OF ok]) (simp_all add: cursor_def)
  show ?thesis
  proof
    assume run: ?run
    from decrypt_loop_sound [OF ok run [unfolded loop]] obtain ms where
      ms: "frame_sequence enc key nonce ad 0 ms bs" "length ms < 2 ^ 32"
      by (auto simp: cursor_def)
    then have "out' = out\<lparr>sk_data := sk_data out @ concat ms\<rparr>"
      using complete [OF ms] run loop by simp
    with ms show ?spec using frame_sequence_bytes [OF ok key nonce] by blast
  next
    assume ?spec
    then show ?run using loop complete frame_sequence_bytes [OF ok key nonce] by blast
  qed
qed

lemma read_header_envelope:
  "length nonce = NONCE_BYTES \<Longrightarrow> read_header (cursor (MAGIC @ [ENVELOPE_VERSION] @ nonce @ bs)) =
     (Inr \<lparr>eh_version = ENVELOPE_VERSION, eh_nonce = nonce\<rparr>, cursor bs)"
  by (simp add: read_header_ok cursor_def)

lemma read_header_cursor:
  assumes "read_header (cursor bs) = (Inr h, t)"
  shows "\<exists>rest. t = cursor rest \<and> bs = MAGIC @ [ENVELOPE_VERSION] @ eh_nonce h @ rest \<and> length (eh_nonce h) = NONCE_BYTES"
  using assms by (intro exI [of _ "src_bytes t"]) (simp add: read_header_ok cursor_def)

lemma decrypt_reader_ok:
  assumes ok: "aead_ok enc dec" and key: "length key = KEY_BYTES" and out: "roomy out"
  shows "decrypt_reader_to dec key (cursor bs) ad nonce out = (Inr (), out') \<longleftrightarrow>
     (\<exists>ms. length nonce = NONCE_BYTES \<and> (\<forall>m\<in>set ms. length m \<le> CHUNK_BYTES) \<and> length ms < 2 ^ 32 \<and>
        bs = envelope_bytes enc key nonce ad ms \<and> out' = out\<lparr>sk_data := sk_data out @ concat ms\<rparr>)"
    (is "?run \<longleftrightarrow> ?spec")
proof
  assume ?run
  then obtain h t where h: "read_header (cursor bs) = (Inr h, t)" "eh_nonce h = nonce"
    and run: "decrypt_frames_to dec key nonce t ad out = (Inr (), out')"
    by (auto simp: decrypt_reader_to_def split: prod.splits sum.splits if_splits)
  from read_header_cursor [OF h(1)] obtain rest where
    "t = cursor rest" "bs = MAGIC @ [ENVELOPE_VERSION] @ nonce @ rest" "length nonce = NONCE_BYTES"
    using h(2) by auto
  with run show ?spec
    using decrypt_frames_ok [OF ok key _ out] unfolding envelope_bytes_def by blast
next
  assume ?spec
  then show ?run
    using decrypt_frames_ok [OF ok key _ out]
    by (auto simp: decrypt_reader_to_def read_header_envelope [simplified] envelope_bytes_def) blast
qed

lemma decrypt_self_describing_ok:
  assumes ok: "aead_ok enc dec" and key: "length key = KEY_BYTES" and out: "roomy out"
  shows "decrypt_self_describing_reader_to dec key (cursor bs) ad out = (Inr (), out') \<longleftrightarrow>
     (\<exists>nonce. decrypt_reader_to dec key (cursor bs) ad nonce out = (Inr (), out'))"
  by (auto simp: decrypt_self_describing_reader_to_def decrypt_reader_to_def split: prod.splits sum.splits)

lemma encrypt_reader_roomy:
  assumes "aead_ok enc dec" "length key = KEY_BYTES" "length nonce = NONCE_BYTES"
    and "\<forall>m\<in>set ms. m \<noteq> [] \<and> length m \<le> CHUNK_BYTES" "roomy w" "length ms < 2 ^ 32"
  shows "encrypt_reader_to enc key nonce \<lparr>ps_pieces = ms, ps_fails = False\<rparr> ad w =
    (Inr \<lparr>eh_version = ENVELOPE_VERSION, eh_nonce = nonce\<rparr>,
     w\<lparr>sk_data := sk_data w @ envelope_bytes enc key nonce ad ms\<rparr>)"
  using assms
  by (simp add: encrypt_reader_to_def do_then_def do_map_err_def cipher_def ok_if_def write_all_roomy
      encrypt_loop_roomy [OF assms(1-3)] envelope_bytes_def Let_def)

lemma length_frame_bytes:
  assumes "aead_ok enc dec" "length key = KEY_BYTES" "length nonce = NONCE_BYTES" "length m \<le> CHUNK_BYTES"
  shows "length (frame_bytes enc key nonce ad i f m) = length m + 21"
  using frame_ciphertext_Some(2) [OF assms] by (simp add: frame_bytes_def Let_def TAG_BYTES_def)

text \<open>The frames of an accepted envelope, as the wire format delimits them.\<close>

fun frame_list ::
  "aead \<Rightarrow> payload_key \<Rightarrow> byte list \<Rightarrow> byte list \<Rightarrow> nat \<Rightarrow> byte list list \<Rightarrow> (bool \<times> byte list) list" where
  "frame_list enc key nonce ad i [] = [(True, frame_ciphertext enc key nonce ad i True [])]"
| "frame_list enc key nonce ad i (m # ms) =
     (False, frame_ciphertext enc key nonce ad i False m) # frame_list enc key nonce ad (i + 1) ms"

function frames_of :: "byte_source \<Rightarrow> (bool \<times> byte list) list" where
  "frames_of input =
     (case read_frame input of
        (Inl e, _) \<Rightarrow> []
      | (Inr (f, c), input') \<Rightarrow> (f, c) # (if f then [] else frames_of input'))"
  by pat_completeness auto
termination
proof (relation "measure (\<lambda>input. length (src_bytes input))", goal_cases)
  case 1
  show ?case by simp
next
  case (2 input x input' y f c)
  then have "read_frame input = (Inr (f, c), input')" by simp
  then show ?case by (auto simp: read_frame_ok)
qed

lemmas [simp del] = frames_of.simps

lemma frames_of_bytes:
  assumes "aead_ok enc dec" "length key = KEY_BYTES" "length nonce = NONCE_BYTES" "\<forall>m\<in>set ms. length m \<le> CHUNK_BYTES"
  shows "frames_of (cursor (frames_bytes enc key nonce ad i ms)) = frame_list enc key nonce ad i ms"
  using assms(4)
proof (induction ms arbitrary: i)
  case Nil
  let ?c = "frame_ciphertext enc key nonce ad i True []"
  have "read_frame (cursor (frame_bytes enc key nonce ad i True [])) = (Inr (True, ?c), cursor [])"
    using frame_ciphertext_Some(2) [OF assms(1-3), of "[]"]
    by (simp add: read_frame_ok frame_bytes_def Let_def cursor_def CHUNK_BYTES_def)
  then show ?case by (simp add: frames_of.simps)
next
  case (Cons m ms)
  let ?c = "frame_ciphertext enc key nonce ad i False m"
  have "read_frame (cursor (frames_bytes enc key nonce ad i (m # ms))) =
      (Inr (False, ?c), cursor (frames_bytes enc key nonce ad (i + 1) ms))"
    using frame_ciphertext_Some(2) [OF assms(1-3), of m] Cons.prems
    by (simp add: read_frame_ok frame_bytes_def Let_def cursor_def)
  then show ?case using Cons by (simp add: frames_of.simps [of "cursor _"])
qed

lemma frame_list_nth:
  "length (frame_list enc key nonce ad i ms) = length ms + 1"
  "j < length ms \<Longrightarrow> frame_list enc key nonce ad i ms ! j = (False, frame_ciphertext enc key nonce ad (i + j) False (ms ! j))"
  "frame_list enc key nonce ad i ms ! length ms = (True, frame_ciphertext enc key nonce ad (i + length ms) True [])"
proof (induction ms arbitrary: i j)
  case (Cons m ms)
  {
    case 2
    with Cons show ?case by (cases j) auto
  }
qed (use Cons in auto)

text \<open>A frame an honest encryption under the key has produced: envelopes are listed as base nonce,
  associated data and chunks.\<close>

definition honest_frame ::
  "aead \<Rightarrow> payload_key \<Rightarrow> (byte list \<times> byte list \<times> byte list list) set \<Rightarrow> byte list \<Rightarrow> byte list \<Rightarrow> byte list \<Rightarrow> bool" where
  "honest_frame enc key sealed n a c \<longleftrightarrow>
     (\<exists>(b, ad, ms)\<in>sealed. \<exists>i\<le>length ms.
        n = chunk_nonce b i \<and> a = frame_aad ad i (i = length ms) \<and>
        enc key n a (if i = length ms then [] else ms ! i) = Some c)"

lemma aead_message_unique:
  "aead_ok enc dec \<Longrightarrow> enc k n a m = Some c \<Longrightarrow> enc k n a m' = Some c \<Longrightarrow> m = m'"
  unfolding aead_ok_def by (metis option.inject)

lemma honest_frame_at:
  assumes ok: "aead_ok enc dec"
    and sealed: "\<forall>(b, ad, ms)\<in>sealed. length b = NONCE_BYTES \<and> length ms < 2 ^ 32"
    and nonce: "length nonce = NONCE_BYTES" and j: "j < 2 ^ 32"
    and enc: "enc key (chunk_nonce nonce j) (frame_aad ad j f) m = Some c"
    and honest: "honest_frame enc key sealed (chunk_nonce nonce j) (frame_aad ad j f) c"
  shows "\<exists>b ms. (b, ad, ms) \<in> sealed \<and> take 8 b = take 8 nonce \<and> j \<le> length ms \<and> f = (j = length ms) \<and>
    m = (if j = length ms then [] else ms ! j)"
proof -
  obtain b ad' ms i where e: "(b, ad', ms) \<in> sealed" "i \<le> length ms" "chunk_nonce nonce j = chunk_nonce b i"
    "frame_aad ad j f = frame_aad ad' i (i = length ms)"
    "enc key (chunk_nonce nonce j) (frame_aad ad j f) (if i = length ms then [] else ms ! i) = Some c"
    using honest unfolding honest_frame_def by auto
  have len: "length b = NONCE_BYTES" "length ms < 2 ^ 32" using sealed e(1) by auto
  then have i: "i < 2 ^ 32" using e(2) by simp
  have "take 8 nonce = take 8 b \<and> j = i"
    using e(3) chunk_nonce_inject [OF nonce len(1) j i] by simp
  moreover have "ad = ad' \<and> f = (i = length ms)"
    using e(4) frame_aad_inject [OF j i] by simp
  moreover have "m = (if i = length ms then [] else ms ! i)"
    using aead_message_unique [OF ok enc e(5)] .
  ultimately show ?thesis using e by auto
qed

subsection \<open>Short messages in memory\<close>

text \<open>A message of at most one chunk behind a \<open>Cursor\<close>, sealed into a \<open>Vec\<close>, and opened again: the
  pattern of the vault's secrets and of the wrapped payload keys.\<close>

definition seal_bytes :: "aead \<Rightarrow> payload_key \<Rightarrow> byte list \<Rightarrow> byte list \<Rightarrow> byte list \<Rightarrow> encryption_error + byte list" where
  "seal_bytes enc key nonce message associated_data =
     (case encrypt_reader_to enc key nonce \<lparr>ps_pieces = [message], ps_fails = False\<rparr> associated_data vec_sink of
        (Inl e, _) \<Rightarrow> Inl e
      | (Inr _, ciphertext) \<Rightarrow> Inr (sk_data ciphertext))"

definition open_bytes :: "aead \<Rightarrow> payload_key \<Rightarrow> byte list \<Rightarrow> byte list \<Rightarrow> encryption_error + byte list" where
  "open_bytes dec key bytes associated_data =
     (case decrypt_self_describing_reader_to dec key (cursor bytes) associated_data vec_sink of
        (Inl e, _) \<Rightarrow> Inl e
      | (Inr _, plaintext) \<Rightarrow> Inr (sk_data plaintext))"

lemma seal_bytes_ok:
  assumes ok: "aead_ok enc dec" and key: "length key = KEY_BYTES" and nonce: "length nonce = NONCE_BYTES" and len: "length message \<le> CHUNK_BYTES"
  obtains sealed where "seal_bytes enc key nonce message ad = Inr sealed" "open_bytes dec key sealed ad = Inr message"
    "length sealed \<le> length message + 63"
proof -
  define ms where "ms = (if message = [] then [] else [message])"
  have ms: "\<forall>m\<in>set ms. m \<noteq> [] \<and> length m \<le> CHUNK_BYTES" "length ms < 2 ^ 32" "concat ms = message"
    using len by (auto simp: ms_def)
  have same: "encrypt_reader_to enc key nonce \<lparr>ps_pieces = [message], ps_fails = False\<rparr> ad vec_sink
      = encrypt_reader_to enc key nonce \<lparr>ps_pieces = ms, ps_fails = False\<rparr> ad vec_sink"
    by (cases message) (simp_all add: encrypt_reader_to_def ms_def)
  have sealed: "seal_bytes enc key nonce message ad = Inr (envelope_bytes enc key nonce ad ms)"
    unfolding seal_bytes_def same encrypt_reader_roomy [OF ok key nonce ms(1) roomy_vec ms(2)] by (simp add: vec_sink_def)
  have "decrypt_reader_to dec key (cursor (envelope_bytes enc key nonce ad ms)) ad nonce vec_sink = (Inr (), vec_sink\<lparr>sk_data := sk_data vec_sink @ concat ms\<rparr>)"
    unfolding decrypt_reader_ok [OF ok key roomy_vec] using ms(1,2) nonce by blast
  then have "decrypt_self_describing_reader_to dec key (cursor (envelope_bytes enc key nonce ad ms)) ad vec_sink = (Inr (), vec_sink\<lparr>sk_data := message\<rparr>)"
    unfolding decrypt_self_describing_ok [OF ok key roomy_vec] by (intro exI [of _ nonce]) (simp add: ms(3) vec_sink_def)
  then have opened: "open_bytes dec key (envelope_bytes enc key nonce ad ms) ad = Inr message" by (simp add: open_bytes_def)
  have "length (envelope_bytes enc key nonce ad ms) \<le> length message + 63"
    using len nonce by (simp add: ms_def envelope_bytes_def length_frame_bytes [OF ok key nonce] NONCE_BYTES_def)
  then show thesis by (rule that [OF sealed opened])
qed

section \<open>Properties\<close>

text \<open>C9: round trip. However the operating system splits the input into reads, what the envelope
  encryption writes decrypts, under the same key, associated data and recorded nonce, to exactly
  the bytes that were read.\<close>

theorem envelope_roundtrip:
  assumes "aead_ok enc dec" "length key = KEY_BYTES" "length nonce = NONCE_BYTES"
    and "\<forall>m\<in>set pieces. m \<noteq> [] \<and> length m \<le> CHUNK_BYTES" "length pieces < 2 ^ 32"
  shows "\<exists>header out plain.
    encrypt_reader_to enc key nonce \<lparr>ps_pieces = pieces, ps_fails = False\<rparr> ad vec_sink = (Inr header, out) \<and>
    decrypt_reader_to dec key (cursor (sk_data out)) ad (eh_nonce header) vec_sink = (Inr (), plain) \<and>
    sk_data plain = concat pieces"
proof -
  let ?h = "\<lparr>eh_version = ENVELOPE_VERSION, eh_nonce = nonce\<rparr>"
  let ?out = "vec_sink\<lparr>sk_data := envelope_bytes enc key nonce ad pieces\<rparr>"
  have "encrypt_reader_to enc key nonce \<lparr>ps_pieces = pieces, ps_fails = False\<rparr> ad vec_sink = (Inr ?h, ?out)"
    using encrypt_reader_roomy [OF assms(1-4) roomy_vec assms(5)] by (simp add: vec_sink_def)
  moreover have "decrypt_reader_to dec key (cursor (sk_data ?out)) ad nonce vec_sink =
      (Inr (), vec_sink\<lparr>sk_data := concat pieces\<rparr>)"
    unfolding decrypt_reader_ok [OF assms(1,2) roomy_vec]
    using assms(3-5) by (intro exI [of _ pieces]) (simp add: vec_sink_def)
  ultimately show ?thesis by fastforce
qed

definition toy_tag :: "byte list" where
  "toy_tag = replicate TAG_BYTES 0"

definition toy_enc :: aead where
  "toy_enc k n a m = Some (m @ toy_tag)"

definition toy_dec :: aead where
  "toy_dec k n a c =
     (if TAG_BYTES \<le> length c \<and> drop (length c - TAG_BYTES) c = toy_tag
      then Some (take (length c - TAG_BYTES) c) else None)"

lemma length_toy_tag [simp]: "length toy_tag = TAG_BYTES"
  by (simp add: toy_tag_def)

lemma toy_inverse: "toy_enc k n a m = Some c \<longleftrightarrow> toy_dec k n a c = Some m"
proof
  assume "toy_dec k n a c = Some m"
  then have "m = take (length c - TAG_BYTES) c" "drop (length c - TAG_BYTES) c = toy_tag"
    by (simp_all add: toy_dec_def split: if_splits)
  then have "m @ toy_tag = c" by (metis append_take_drop_id)
  then show "toy_enc k n a m = Some c" by (simp add: toy_enc_def)
next
  assume "toy_enc k n a m = Some c"
  then have "c = m @ toy_tag" by (simp add: toy_enc_def)
  then show "toy_dec k n a c = Some m" by (simp add: toy_dec_def)
qed

lemma toy_aead_ok: "aead_ok toy_enc toy_dec"
  unfolding aead_ok_def toy_inverse [symmetric] by (auto simp: toy_enc_def)

theorem envelope_roundtrip_witness:
  "\<exists>header out plain.
    encrypt_reader_to toy_enc (replicate 32 5) (replicate 12 7) \<lparr>ps_pieces = [[1, 2], [3]], ps_fails = False\<rparr> [9] vec_sink
      = (Inr header, out) \<and>
    decrypt_reader_to toy_dec (replicate 32 5) (cursor (sk_data out)) [9] (eh_nonce header) vec_sink = (Inr (), plain) \<and>
    sk_data plain = [1, 2, 3]"
  using envelope_roundtrip [OF toy_aead_ok, of "replicate 32 5" "replicate 12 7" "[[1, 2], [3]]" "[9]"]
  by (simp add: KEY_BYTES_def NONCE_BYTES_def CHUNK_BYTES_def)

text \<open>C10: accepted envelopes are canonical. Decryption into memory succeeds exactly on the byte string
  the encryption of some chunk sequence produces under the expected nonce, and then outputs those
  chunks: nothing may be missing, added, or out of place anywhere in the input, and the frame
  counter cannot wrap.\<close>

theorem decrypt_accepts_canonical:
  assumes "aead_ok enc dec" "length key = KEY_BYTES"
  shows "(\<exists>out. decrypt_reader_to dec key (cursor bs) ad nonce vec_sink = (Inr (), out) \<and> sk_data out = plain) \<longleftrightarrow>
    (\<exists>ms. length nonce = NONCE_BYTES \<and> (\<forall>m\<in>set ms. length m \<le> CHUNK_BYTES) \<and> length ms < 2 ^ 32 \<and>
       bs = envelope_bytes enc key nonce ad ms \<and> plain = concat ms)"
    (is "_ \<longleftrightarrow> (\<exists>ms. ?R ms)")
proof
  assume "\<exists>ms. ?R ms"
  then obtain ms where "?R ms" by blast
  then show "\<exists>out. decrypt_reader_to dec key (cursor bs) ad nonce vec_sink = (Inr (), out) \<and> sk_data out = plain"
    unfolding decrypt_reader_ok [OF assms roomy_vec]
    by (intro exI [of _ "vec_sink\<lparr>sk_data := sk_data vec_sink @ concat ms\<rparr>"]) auto
qed (auto simp: decrypt_reader_ok [OF assms roomy_vec])

theorem decrypt_accepts_canonical_witness:
  "\<exists>out. decrypt_reader_to toy_dec (replicate 32 5)
      (cursor (envelope_bytes toy_enc (replicate 32 5) (replicate 12 7) [9] [[1]])) [9] (replicate 12 7) vec_sink
      = (Inr (), out) \<and> sk_data out = [1]"
  by (subst decrypt_accepts_canonical [OF toy_aead_ok])
    (auto simp: KEY_BYTES_def NONCE_BYTES_def CHUNK_BYTES_def intro!: exI [of _ "[[1]]"])

text \<open>C11: no splicing. Suppose every frame of an accepted envelope that decrypts at its position was
  produced by one of the envelopes sealed under the key (unforgeability of the AEAD on this input)
  and the sealed envelopes' base nonces differ in their first eight bytes. Then the plaintext is
  that of one sealed envelope with the same associated data, complete and in order: truncating,
  extending, reordering and mixing envelopes are all rejected.\<close>

theorem accepted_envelope_is_sealed_one:
  assumes ok: "aead_ok enc dec" and key: "length key = KEY_BYTES"
    and sealed: "\<forall>(b, ad, ms)\<in>sealed. length b = NONCE_BYTES \<and> length ms < 2 ^ 32"
    and fresh: "\<forall>x\<in>sealed. \<forall>y\<in>sealed. take 8 (fst x) = take 8 (fst y) \<longrightarrow> x = y"
    and bs: "bs = MAGIC @ [ENVELOPE_VERSION] @ nonce @ rest"
    and authentic: "\<forall>j<length (frames_of (cursor rest)). case frames_of (cursor rest) ! j of (f, c) \<Rightarrow>
      dec key (chunk_nonce nonce j) (frame_aad ad j f) c \<noteq> None \<longrightarrow>
      honest_frame enc key sealed (chunk_nonce nonce j) (frame_aad ad j f) c"
    and run: "decrypt_reader_to dec key (cursor bs) ad nonce vec_sink = (Inr (), out)"
  shows "\<exists>(b, ad', ms)\<in>sealed. ad' = ad \<and> take 8 b = take 8 nonce \<and> sk_data out = concat ms"
proof -
  obtain ms where nonce: "length nonce = NONCE_BYTES" and len: "\<forall>m\<in>set ms. length m \<le> CHUNK_BYTES" "length ms < 2 ^ 32"
    and env: "bs = envelope_bytes enc key nonce ad ms" and out: "sk_data out = concat ms"
    using run unfolding decrypt_reader_ok [OF ok key roomy_vec] by (auto simp: vec_sink_def)
  have "rest = frames_bytes enc key nonce ad 0 ms" using bs env by (simp add: envelope_bytes_def)
  then have frames: "frames_of (cursor rest) = frame_list enc key nonce ad 0 ms"
    using frames_of_bytes [OF ok key nonce len(1)] by simp
  have origin: "\<exists>b ms'. (b, ad, ms') \<in> sealed \<and> take 8 b = take 8 nonce \<and> j \<le> length ms' \<and>
      (j = length ms) = (j = length ms') \<and> (if j = length ms then [] else ms ! j) = (if j = length ms' then [] else ms' ! j)"
    if j: "j \<le> length ms" for j
  proof -
    let ?f = "j = length ms" and ?m = "if j = length ms then [] else ms ! j"
    let ?c = "frame_ciphertext enc key nonce ad j ?f ?m"
    have m: "length ?m \<le> CHUNK_BYTES" using len(1) j by auto
    note e = frame_ciphertext_Some(1) [OF ok key nonce m, where i = j and ad = ad and final = ?f]
    have decrypts: "dec key (chunk_nonce nonce j) (frame_aad ad j ?f) ?c = Some ?m"
      using ok e unfolding aead_ok_def by blast
    have "frame_list enc key nonce ad 0 ms ! j = (?f, ?c)"
      using j frame_list_nth(2) [of j ms enc key nonce ad 0] frame_list_nth(3) [of enc key nonce ad 0 ms]
      by (cases "j = length ms") auto
    then have "honest_frame enc key sealed (chunk_nonce nonce j) (frame_aad ad j ?f) ?c"
      using authentic [unfolded frames frame_list_nth(1), rule_format, of j] j decrypts by simp
    then show ?thesis
      using honest_frame_at [OF ok sealed nonce _ e] j len(2) by auto
  qed
  obtain b ms' where b: "(b, ad, ms') \<in> sealed" "take 8 b = take 8 nonce" "length ms' = length ms"
    using origin [of "length ms"] by auto
  have "ms' ! j = ms ! j" if j: "j < length ms" for j
  proof -
    obtain b2 ms2 where "(b2, ad, ms2) \<in> sealed" "take 8 b2 = take 8 nonce"
      "(if j = length ms then [] else ms ! j) = (if j = length ms2 then [] else ms2 ! j)" "j \<noteq> length ms2"
      using origin [of j] j by auto
    moreover from this b fresh have "ms2 = ms'" by fastforce
    ultimately show ?thesis using j by simp
  qed
  then have "ms' = ms" using b(3) by (simp add: list_eq_iff_nth_eq)
  with b out show ?thesis by (intro bexI [of _ "(b, ad, ms')"]) auto
qed

theorem accepted_envelope_is_sealed_one_witness:
  "let key = replicate 32 5; nonce = replicate 12 7; sealed = {(nonce, [9], [[1, 2]])};
       rest = frames_bytes toy_enc key nonce [9] 0 [[1, 2]]
   in \<exists>out. decrypt_reader_to toy_dec key (cursor (MAGIC @ [ENVELOPE_VERSION] @ nonce @ rest)) [9] nonce vec_sink = (Inr (), out) \<and>
        (\<exists>(b, ad', ms)\<in>sealed. ad' = [9] \<and> take 8 b = take 8 nonce \<and> sk_data out = concat ms)"
proof -
  define key :: "byte list" where "key = replicate 32 5"
  define nonce :: "byte list" where "nonce = replicate 12 7"
  define rest where "rest = frames_bytes toy_enc key nonce [9] 0 [[1, 2]]"
  let ?sealed = "{(nonce, [9 :: byte], [[1, 2 :: byte]])}"
  have key: "length key = KEY_BYTES" and nonce: "length nonce = NONCE_BYTES"
    by (simp_all add: KEY_BYTES_def NONCE_BYTES_def key_def nonce_def)
  have run: "decrypt_reader_to toy_dec key (cursor (MAGIC @ [ENVELOPE_VERSION] @ nonce @ rest)) [9] nonce vec_sink
      = (Inr (), vec_sink\<lparr>sk_data := sk_data vec_sink @ concat [[1, 2]]\<rparr>)" (is "_ = (Inr (), ?out)")
    unfolding decrypt_reader_ok [OF toy_aead_ok key roomy_vec]
    by (intro exI [of _ "[[1, 2]]"]) (simp add: nonce envelope_bytes_def rest_def CHUNK_BYTES_def)
  have frames: "frames_of (cursor rest) = [(False, [1, 2] @ toy_tag), (True, toy_tag)]"
    unfolding rest_def by (subst frames_of_bytes [OF toy_aead_ok key nonce])
      (simp_all add: CHUNK_BYTES_def frame_ciphertext_def toy_enc_def)
  have h: "honest_frame toy_enc key ?sealed (chunk_nonce nonce 0) (frame_aad [9] 0 False) ([1, 2] @ toy_tag)"
    "honest_frame toy_enc key ?sealed (chunk_nonce nonce 1) (frame_aad [9] 1 True) toy_tag"
    unfolding honest_frame_def toy_enc_def
    by (simp, rule exI [of _ 0], simp) (simp, rule exI [of _ 1], simp)
  have authentic: "\<forall>j<length (frames_of (cursor rest)). case frames_of (cursor rest) ! j of (f, c) \<Rightarrow>
      toy_dec key (chunk_nonce nonce j) (frame_aad [9] j f) c \<noteq> None \<longrightarrow>
      honest_frame toy_enc key ?sealed (chunk_nonce nonce j) (frame_aad [9] j f) c"
  proof (intro allI impI)
    fix j assume "j < length (frames_of (cursor rest))"
    then have "j = 0 \<or> j = 1" by (auto simp: frames)
    then show "case frames_of (cursor rest) ! j of (f, c) \<Rightarrow>
        toy_dec key (chunk_nonce nonce j) (frame_aad [9] j f) c \<noteq> None \<longrightarrow>
        honest_frame toy_enc key ?sealed (chunk_nonce nonce j) (frame_aad [9] j f) c"
      using h by (auto simp: frames)
  qed
  have "\<exists>(b, ad', ms)\<in>?sealed. ad' = [9] \<and> take 8 b = take 8 nonce \<and> sk_data ?out = concat ms"
    by (rule accepted_envelope_is_sealed_one [OF toy_aead_ok key _ _ refl authentic run])
      (simp_all add: nonce)
  with run show ?thesis unfolding Let_def key_def nonce_def rest_def by blast
qed

text \<open>C12: a recovery bundle opens with the passphrase and repository it was made for and returns the
  wrapped key, and its ciphertext is always 95 bytes long.\<close>

theorem recovery_bundle_roundtrip:
  assumes ok: "aead_ok enc dec" and nonce: "length nonce = NONCE_BYTES" and key: "length key = KEY_BYTES"
    and wrapped: "wrap_recovery_key enc argon2id salt nonce passphrase key repository_id params = Inr w"
  shows "unwrap_recovery_key dec argon2id passphrase w repository_id params = Inr key
    \<and> wr_salt w = salt \<and> length (wr_ciphertext w) = 95"
proof -
  let ?ad = "bundle_associated_data repository_id"
  obtain derived where d: "derive_key argon2id passphrase salt params = Inr derived"
    using wrapped by (auto simp: wrap_recovery_key_def)
  then have dk: "length derived = KEY_BYTES"
    by (auto simp: derive_key_def payload_key_from_bytes_def)
  have len: "\<forall>m\<in>set [key]. m \<noteq> [] \<and> length m \<le> CHUNK_BYTES"
    using key by (auto simp: KEY_BYTES_def CHUNK_BYTES_def)
  have w: "w = \<lparr>wr_salt = salt, wr_ciphertext = envelope_bytes enc derived nonce ?ad [key]\<rparr>"
    using wrapped d encrypt_reader_roomy [OF ok dk nonce len roomy_vec, of ?ad]
    by (simp add: wrap_recovery_key_def)
  have "decrypt_reader_to dec derived (cursor (wr_ciphertext w)) ?ad nonce vec_sink =
      (Inr (), vec_sink\<lparr>sk_data := sk_data vec_sink @ concat [key]\<rparr>)"
    unfolding decrypt_reader_ok [OF ok dk roomy_vec] using len nonce w by (intro exI [of _ "[key]"]) simp
  then have "decrypt_self_describing_reader_to dec derived (cursor (wr_ciphertext w)) ?ad vec_sink =
      (Inr (), vec_sink\<lparr>sk_data := key\<rparr>)"
    unfolding decrypt_self_describing_ok [OF ok dk roomy_vec] by auto
  moreover have "length (wr_ciphertext w) = 95"
    using len key nonce
    by (simp add: w envelope_bytes_def length_frame_bytes [OF ok dk nonce] KEY_BYTES_def NONCE_BYTES_def)
  ultimately show ?thesis
    using d key by (simp add: unwrap_recovery_key_def w payload_key_from_bytes_def ok_if_def)
qed

theorem recovery_bundle_roundtrip_witness:
  "\<exists>w. wrap_recovery_key toy_enc (\<lambda>_ p s. Some (take 32 (p @ s @ replicate 32 0))) [3] (replicate 12 7) [1, 2]
      (replicate 32 5) ''repo-001'' kdf_recommended = Inr w \<and>
    unwrap_recovery_key toy_dec (\<lambda>_ p s. Some (take 32 (p @ s @ replicate 32 0))) [1, 2] w ''repo-001'' kdf_recommended
      = Inr (replicate 32 5)"
proof -
  let ?kdf = "\<lambda>_ p s. Some (take 32 (p @ s @ replicate 32 0))"
  have key: "length (replicate 32 (5 :: byte)) = KEY_BYTES" and nonce: "length (replicate 12 (7 :: byte)) = NONCE_BYTES"
    by (simp_all add: KEY_BYTES_def NONCE_BYTES_def)
  have len: "\<forall>m\<in>set [replicate 32 (5 :: byte)]. m \<noteq> [] \<and> length m \<le> CHUNK_BYTES"
    by (simp add: CHUNK_BYTES_def)
  have d: "derive_key ?kdf [1, 2] [3] kdf_recommended = Inr (take 32 ([1, 2] @ [3] @ replicate 32 0))"
    by (simp add: derive_key_def payload_key_from_bytes_def KEY_BYTES_def ok_or_def ok_if_def)
  have dk: "length (take 32 ([1, 2] @ [3] @ replicate 32 (0 :: byte))) = KEY_BYTES"
    by (simp add: KEY_BYTES_def)
  have "\<exists>w. wrap_recovery_key toy_enc ?kdf [3] (replicate 12 7) [1, 2] (replicate 32 5) ''repo-001'' kdf_recommended = Inr w"
    unfolding wrap_recovery_key_def d and_then_Inr
    using encrypt_reader_roomy [OF toy_aead_ok dk nonce len roomy_vec] by simp
  then show ?thesis
    using recovery_bundle_roundtrip [OF toy_aead_ok nonce key] by blast
qed

text \<open>C13: frame nonces. Two frames under one key use the same AES-GCM nonce exactly when their indices
  agree and their base nonces agree in the first eight bytes: within an envelope no nonce is ever
  reused, and only eight of the twelve random nonce bytes separate two envelopes.\<close>

theorem chunk_nonce_reuse_iff:
  assumes "length a = NONCE_BYTES" "length b = NONCE_BYTES" "i < 2 ^ 32" "j < 2 ^ 32"
  shows "chunk_nonce a i = chunk_nonce b j \<longleftrightarrow> take 8 a = take 8 b \<and> i = j"
  using assms by (rule chunk_nonce_inject)

theorem chunk_nonce_reuse_iff_witness:
  "chunk_nonce (replicate 8 1 @ [0, 0, 0, 1]) 3 = chunk_nonce (replicate 8 1 @ [0, 0, 0, 2]) 3"
  by (subst chunk_nonce_reuse_iff) (simp_all add: NONCE_BYTES_def)

end
