(* ===== verification/Repository.thy ===== *)
theory Repository
  imports Repository_Inventory Retention_Reconcile Envelope
begin

text \<open>
  \<^verbatim>\<open>crates/guardian-local-repository/src/{repository,process_lock}.rs\<close>, \<^verbatim>\<open>repository/{recovery,credential,audit}.rs\<close>
  and the entry points of \<^verbatim>\<open>retention.rs\<close>: opening a repository, its lock, metadata and recovery key,
  abandoned runs, audit records, and the retention of sealed backups. The root is the canonical root of the
  disk; the locks other processes hold, the age of an entry, random bytes and JSON are arguments.
\<close>

section \<open>Definitions\<close>

definition REPOSITORY_FORMAT_VERSION :: u32 where "REPOSITORY_FORMAT_VERSION = 1"

definition RESTORE_SCRATCH_DIR_NAME :: string where "RESTORE_SCRATCH_DIR_NAME = ''restore''"

record repository_verification_key =
  vk_algorithm :: string
  vk_key_id :: string
  vk_public_key_base64 :: string

record repository_metadata =
  md_format_version :: u32
  md_repository_id :: repository_id
  md_recovery_credential_id :: "credential_id option"
  md_trusted_verification_key :: "repository_verification_key option"

text \<open>The records of the audit directory.\<close>

datatype operation_audit =
    CaptureAuditRecord string run_id "backup_id option"
  | DeployAuditRecord string run_id backup_id profile_id
  | ReplacementAuditRecord string run_id backup_id backup_id profile_id

text \<open>A repository with the code it calls: the codecs, what the locks of other writers answer and how
  old (in nanoseconds) the operating system says an entry is.\<close>

record local_repository =
  lr_id :: repository_id
  lr_env :: repository_env
  lr_metadata_codec :: "repository_metadata json_codec"
  lr_journal_codec :: journal_codec
  lr_plan_to_json :: "plan_digest \<Rightarrow> byte list option"
  lr_quarantine_to_json :: "string \<Rightarrow> byte list option"
  lr_audit_to_json :: "operation_audit \<Rightarrow> byte list option"
  lr_held :: bool
  lr_contended :: bool
  lr_age :: "path \<Rightarrow> nat option"

record secret_store =
  ss_load :: "credential_id \<Rightarrow> (world, secret_store_error, byte list option) action"
  ss_store :: "credential_id \<Rightarrow> byte list \<Rightarrow> (world, secret_store_error, unit) action"
  ss_delete :: "credential_id \<Rightarrow> (world, secret_store_error, unit) action"

definition staging_root :: path where
  "staging_root = [''staging'']"

definition restore_scratch_root :: path where
  "restore_scratch_root = staging_root @ [RESTORE_SCRATCH_DIR_NAME]"

subsection \<open>The lock\<close>

definition repository_process_lock :: "local_repository \<Rightarrow> repository_error + unit" where
  "repository_process_lock self = ok_if (\<not> lr_held self) () Busy"

definition repository_lock :: "local_repository \<Rightarrow> unit repo" where
  "repository_lock self =
     do_then (do_lift (repository_process_lock self)) (\<lambda>_.
     do_then (do_map_err (Io ''open repository lock'') (open_or_create [''repository.lock''])) (\<lambda>_.
       if lr_contended self then do_fail Busy
       else do_map_err (Io ''lock repository'') lock_exclusive))"

subsection \<open>Layout and metadata\<close>

definition create_or_verify_directory :: "path \<Rightarrow> unit repo" where
  "create_or_verify_directory path =
     do_match (create_dir path) (\<lambda>r.
       case r of
         Inr _ \<Rightarrow> do_return ()
       | Inl AlreadyExists \<Rightarrow> ensure_directory path
       | Inl err \<Rightarrow> do_fail (Io ''create repository directory'' err))"

definition ensure_layout :: "unit repo" where
  "ensure_layout =
     do_then (ensure_directory []) (\<lambda>_.
     do_then (do_each (\<lambda>name. create_or_verify_directory [name]) [''staging'', ''backups'', ''quarantine'', ''audit'']) (\<lambda>_.
     create_or_verify_directory restore_scratch_root))"

definition read_metadata :: "local_repository \<Rightarrow> repository_metadata repo" where
  "read_metadata self =
     do_then (do_map_err (Io ''inspect repository metadata'') (stat [''repository.json''])) (\<lambda>file_type.
       case file_type of
         FsFile _ \<Rightarrow>
           do_then (do_map_err (Io ''read repository metadata'') (read_file [''repository.json''])) (\<lambda>bytes.
           do_lift (ok_or (from_json (lr_metadata_codec self) bytes) IncompatibleMetadata))
       | _ \<Rightarrow> do_fail UnsafeFilesystemEntry)"

definition write_metadata :: "local_repository \<Rightarrow> repository_metadata \<Rightarrow> unit repo" where
  "write_metadata self metadata =
     do_then (do_lift (ok_or (to_json (lr_metadata_codec self) metadata) RepoSerialization)) (\<lambda>bytes.
     atomic_write [''repository.json''] bytes)"

definition ensure_metadata :: "local_repository \<Rightarrow> unit repo" where
  "ensure_metadata self =
     do_then (path_exists [''repository.json'']) (\<lambda>present.
       if present then
         do_then (read_metadata self) (\<lambda>metadata.
           if md_format_version metadata \<noteq> REPOSITORY_FORMAT_VERSION \<or> md_repository_id metadata \<noteq> lr_id self
           then do_fail IncompatibleMetadata else do_return ())
       else
         write_metadata self \<lparr>md_format_version = REPOSITORY_FORMAT_VERSION, md_repository_id = lr_id self,
           md_recovery_credential_id = None, md_trusted_verification_key = None\<rparr>)"

definition repository_open :: "local_repository \<Rightarrow> unit repo" where
  "repository_open self =
     do_then (do_map_err (Io ''create repository root'') (create_dir_all [])) (\<lambda>_.
     do_then (do_map_err (Io ''canonicalize repository root'') (open_path [])) (\<lambda>_.
     do_then ensure_layout (\<lambda>_.
     do_then (repository_lock self) (\<lambda>_.
     do_then (ensure_metadata self) (\<lambda>_.
     reconcile_retention_locked (lr_journal_codec self) (lr_id self))))))"

subsection \<open>Abandoned runs\<close>

definition is_old_enough :: "local_repository \<Rightarrow> path \<Rightarrow> nat \<Rightarrow> repository_error + bool" where
  "is_old_enough self path minimum_age =
     and_then (ok_or (lr_age self path) (Io ''read staging modification time'' OtherIo)) (\<lambda>age. Inr (age \<ge> minimum_age))"

definition quarantine :: "local_repository \<Rightarrow> run_id \<Rightarrow> string \<Rightarrow> path repo" where
  "quarantine self run_id reason =
     (let staging = staging_root @ [run_id] in
      do_then (ensure_directory staging) (\<lambda>_.
      do_then (do_lift (ok_or (lr_quarantine_to_json self reason) RepoSerialization)) (\<lambda>bytes.
      do_then (atomic_write (staging @ [''quarantine.json'']) bytes) (\<lambda>_.
      let destination = quarantine_root @ [run_id] in
      do_then (do_map_err (Io ''quarantine staging run'') (rename staging destination)) (\<lambda>_.
      do_then (sync_parent destination) (\<lambda>_.
      do_return destination))))))"

definition recover_abandoned_staging :: "local_repository \<Rightarrow> nat \<Rightarrow> nat repo" where
  "recover_abandoned_staging self minimum_age =
     do_then (repository_lock self) (\<lambda>_.
     do_then (do_map_err (Io ''list staging runs'') (read_dir staging_root)) (\<lambda>names.
     do_fold (\<lambda>name recovered.
       do_then (do_map_err (Io ''inspect staging entry'') (stat (staging_root @ [name]))) (\<lambda>metadata.
         if name = RESTORE_SCRATCH_DIR_NAME then do_return recovered
         else
           do_then (if metadata = FsDir then do_lift (is_old_enough self (staging_root @ [name]) minimum_age) else do_return False) (\<lambda>old.
             if old then
               do_then (do_lift (map_err (\<lambda>_. UnsafeFilesystemEntry) (run_id_parse name))) (\<lambda>run_id.
               do_then (quarantine self run_id ''abandoned'') (\<lambda>_.
               do_return (recovered + 1)))
             else do_return recovered))) names 0))"

definition recover_abandoned_restores :: "local_repository \<Rightarrow> nat \<Rightarrow> nat repo" where
  "recover_abandoned_restores self minimum_age =
     do_then (repository_lock self) (\<lambda>_.
     do_then (do_map_err (Io ''list restore scratch files'') (read_dir restore_scratch_root)) (\<lambda>names.
     do_fold (\<lambda>name recovered.
       let path = restore_scratch_root @ [name] in
       do_then (do_map_err (Io ''inspect restore scratch entry'') (stat path)) (\<lambda>metadata.
       do_then (case metadata of FsFile _ \<Rightarrow> do_lift (is_old_enough self path minimum_age) | _ \<Rightarrow> do_return False) (\<lambda>old.
         if old then
           do_then (do_map_err (Io ''remove abandoned restore scratch file'') (remove_file path)) (\<lambda>_. do_return (recovered + 1))
         else do_return recovered))) names 0))"

subsection \<open>Recovery key and verification key\<close>

text \<open>The sixteen bytes of the random number generator are an argument.\<close>

definition random_credential_id :: "string \<Rightarrow> byte list \<Rightarrow> repository_error + credential_id" where
  "random_credential_id prefix_name bytes =
     map_err (\<lambda>_. IntegrityFailure) (credential_id_parse (prefix_name @ ''-'' @ hex bytes))"

definition install_new_recovery_key ::
  "local_repository \<Rightarrow> repository_metadata \<Rightarrow> secret_store \<Rightarrow> byte list \<Rightarrow> payload_key \<Rightarrow> credential_id repo" where
  "install_new_recovery_key self metadata secrets bytes key =
     do_then (do_lift (random_credential_id ''recovery'' bytes)) (\<lambda>i.
     do_then (do_map_err (\<lambda>_. RepoCredential) (ss_store secrets i key)) (\<lambda>_.
     do_match (write_metadata self (metadata\<lparr>md_recovery_credential_id := Some i\<rparr>)) (\<lambda>r.
       case r of
         Inl err \<Rightarrow> do_match (ss_delete secrets i) (\<lambda>_. do_fail err)
       | Inr _ \<Rightarrow> do_return i)))"

definition configure_recovery_key :: "local_repository \<Rightarrow> secret_store \<Rightarrow> byte list \<Rightarrow> payload_key \<Rightarrow> credential_id repo" where
  "configure_recovery_key self secrets bytes generated =
     do_then (repository_lock self) (\<lambda>_.
     do_then (read_metadata self) (\<lambda>metadata.
       if md_recovery_credential_id metadata \<noteq> None then do_fail RecoveryKeyAlreadyConfigured
       else install_new_recovery_key self metadata secrets bytes generated))"

definition import_recovery_key :: "local_repository \<Rightarrow> secret_store \<Rightarrow> byte list \<Rightarrow> payload_key \<Rightarrow> credential_id repo" where
  "import_recovery_key self secrets bytes key =
     do_then (repository_lock self) (\<lambda>_.
     do_then (read_metadata self) (\<lambda>metadata.
       case md_recovery_credential_id metadata of
         Some i \<Rightarrow>
           do_then (do_map_err (\<lambda>_. RepoCredential) (ss_load secrets i)) (\<lambda>existing.
           do_then (case existing of
               Some k \<Rightarrow> if k = key then do_return () else do_fail RecoveryKeyMismatch
             | None \<Rightarrow> do_map_err (\<lambda>_. RepoCredential) (ss_store secrets i key)) (\<lambda>_.
           do_return i))
       | None \<Rightarrow> install_new_recovery_key self metadata secrets bytes key))"

definition pin_verification_key :: "local_repository \<Rightarrow> repository_verification_key \<Rightarrow> unit repo" where
  "pin_verification_key self key =
     do_then (repository_lock self) (\<lambda>_.
     do_then (read_metadata self) (\<lambda>metadata.
       case md_trusted_verification_key metadata of
         Some existing \<Rightarrow> if existing = key then do_return () else do_fail TrustedSigningKeyMismatch
       | None \<Rightarrow> write_metadata self (metadata\<lparr>md_trusted_verification_key := Some key\<rparr>)))"

definition trusted_verification_key :: "local_repository \<Rightarrow> repository_verification_key option repo" where
  "trusted_verification_key self =
     do_then (repository_lock self) (\<lambda>_.
     do_then (read_metadata self) (\<lambda>metadata. do_return (md_trusted_verification_key metadata)))"

definition recovery_credential_id_locked :: "local_repository \<Rightarrow> credential_id option repo" where
  "recovery_credential_id_locked self =
     do_then (read_metadata self) (\<lambda>metadata. do_return (md_recovery_credential_id metadata))"

definition recovery_credential_id :: "local_repository \<Rightarrow> credential_id option repo" where
  "recovery_credential_id self = do_then (repository_lock self) (\<lambda>_. recovery_credential_id_locked self)"

definition load_recovery_key :: "local_repository \<Rightarrow> secret_store \<Rightarrow> payload_key option repo" where
  "load_recovery_key self secrets =
     do_then (recovery_credential_id_locked self) (\<lambda>found.
       case found of
         None \<Rightarrow> do_return None
       | Some i \<Rightarrow>
           do_then (do_map_err (\<lambda>_. RepoCredential) (ss_load secrets i)) (\<lambda>loaded.
           do_then (do_lift (ok_or loaded RepoCredential)) (\<lambda>secret.
           do_then (do_lift (map_err (\<lambda>_. RepoEncryption) (payload_key_from_bytes secret))) (\<lambda>key.
           do_return (Some key)))))"

definition require_recovery_key :: "local_repository \<Rightarrow> secret_store \<Rightarrow> unit repo" where
  "require_recovery_key self secrets =
     do_then (repository_lock self) (\<lambda>_.
     do_then (load_recovery_key self secrets) (\<lambda>key.
     do_then (do_lift (ok_or key RecoveryKeyNotConfigured)) (\<lambda>_. do_return ())))"

definition export_recovery_key :: "local_repository \<Rightarrow> secret_store \<Rightarrow> payload_key option repo" where
  "export_recovery_key self secrets = load_recovery_key self secrets"

subsection \<open>Audit records\<close>

definition write_operation_audit :: "local_repository \<Rightarrow> string \<Rightarrow> operation_audit \<Rightarrow> unit repo" where
  "write_operation_audit self file record =
     do_then (ensure_directory audit_root) (\<lambda>_.
     do_then (do_lift (ok_or (lr_audit_to_json self record) RepoSerialization)) (\<lambda>bytes.
     do_then (write_new (audit_root @ [file]) bytes) (\<lambda>_.
     sync_parent (audit_root @ [file]))))"

definition write_capture_audit :: "local_repository \<Rightarrow> run_id \<Rightarrow> string \<Rightarrow> backup_id option \<Rightarrow> unit repo" where
  "write_capture_audit self run_id state backup_id =
     write_operation_audit self (''capture-'' @ run_id @ ''-'' @ state @ ''.json'') (CaptureAuditRecord state run_id backup_id)"

definition write_deploy_audit :: "local_repository \<Rightarrow> run_id \<Rightarrow> string \<Rightarrow> backup_id \<Rightarrow> profile_id \<Rightarrow> unit repo" where
  "write_deploy_audit self run_id state backup_id target_profile_id =
     write_operation_audit self (''deploy-'' @ run_id @ ''-'' @ state @ ''.json'') (DeployAuditRecord state run_id backup_id target_profile_id)"

definition write_replacement_audit :: "local_repository \<Rightarrow> run_id \<Rightarrow> string \<Rightarrow> backup_id \<Rightarrow> backup_id \<Rightarrow> profile_id \<Rightarrow> unit repo" where
  "write_replacement_audit self run_id state backup_id safety_backup_id target_profile_id =
     write_operation_audit self (''replacement-'' @ run_id @ ''-'' @ state @ ''.json'')
       (ReplacementAuditRecord state run_id backup_id safety_backup_id target_profile_id)"

subsection \<open>Retention of the sealed backups\<close>

definition list_sealed_backups :: "local_repository \<Rightarrow> manifest_verifier \<Rightarrow> trusted_backup list repo" where
  "list_sealed_backups self verifier =
     do_then (repository_lock self) (\<lambda>_. trusted_inventory (lr_env self) backups_root verifier)"

definition repository_load_verified_manifest :: "local_repository \<Rightarrow> backup_id \<Rightarrow> manifest_verifier \<Rightarrow> manifest repo" where
  "repository_load_verified_manifest self backup_id verifier =
     do_then (repository_lock self) (\<lambda>_. load_verified_manifest (lr_env self) verifier (backups_root @ [backup_id]))"

definition build_plan :: "local_repository \<Rightarrow> retention_policy \<Rightarrow> trusted_backup list \<Rightarrow> repository_error + retention_plan" where
  "build_plan self policy inventory =
     (let snapshot = map (\<lambda>backup. \<lparr>rs_backup_id = tb_backup_id backup, rs_sealed_at = tb_sealed_at backup\<rparr>) inventory in
      map_err (\<lambda>_. IntegrityFailure) (build_retention_plan (lr_plan_to_json self) (re_sha256 (lr_env self)) (lr_id self) policy snapshot))"

definition plan_retention :: "local_repository \<Rightarrow> retention_policy \<Rightarrow> manifest_verifier \<Rightarrow> retention_plan repo" where
  "plan_retention self policy verifier =
     do_then (repository_lock self) (\<lambda>_.
     do_then (trusted_inventory (lr_env self) backups_root verifier) (\<lambda>inventory.
     do_lift (build_plan self policy inventory)))"

definition execute_retention :: "local_repository \<Rightarrow> retention_plan \<Rightarrow> string \<Rightarrow> manifest_verifier \<Rightarrow> retention_outcome repo" where
  "execute_retention self plan confirmation verifier =
     do_then (repository_lock self) (\<lambda>_.
       if rp_repository_id plan \<noteq> lr_id self then do_fail RepositoryMismatch
       else
         do_then (trusted_inventory (lr_env self) backups_root verifier) (\<lambda>inventory.
         do_then (do_lift (build_plan self (rp_policy plan) inventory)) (\<lambda>current.
           if current \<noteq> plan then do_fail SnapshotChanged
           else if rp_delete_backup_ids plan = [] then do_return \<lparr>deleted_backups = 0, retained_backups = length inventory\<rparr>
           else if confirmation \<noteq> retention_confirmation_phrase plan then do_fail ConfirmationMismatch
           else
             do_then (execute_moves (lr_journal_codec self) plan) (\<lambda>_.
             do_return \<lparr>deleted_backups = length (rp_delete_backup_ids plan),
               retained_backups = length inventory - length (rp_delete_backup_ids plan)\<rparr>))))"

end
