(* ===== verification/Staging.thy ===== *)
theory Staging
  imports Repository
begin

text \<open>
  \<^verbatim>\<open>crates/guardian-local-repository/src/{staging,core_adapter}.rs\<close>: a staged backup, its payloads and
  their encryption, sealing, and the adapter that implements \<open>BackupStoragePort\<close>. The credentials
  registered for a run are part of the state; random keys, identifiers and nonces are arguments, and
  so is the way the operating system cuts a file into reads.
\<close>

section \<open>Definitions\<close>

definition ALGORITHM :: string where "ALGORITHM = ''AES-256-GCM-CHUNKED''"

definition SIGNATURE_ALGORITHM :: string where "SIGNATURE_ALGORITHM = ''Ed25519''"

record staging_backup =
  sb_run_id :: run_id
  sb_path :: path

record sealed_result =
  sl_backup_id :: backup_id
  sl_path :: path

record verification_report =
  vr_state :: verification_state
  vr_payload_count :: nat

record staging_env =
  sg_repository :: local_repository
  sg_report_to_json :: "verification_report \<Rightarrow> byte list option"
  sg_b64_encode :: b64_encoder
  sg_encrypt :: aead
  sg_pieces :: "byte list \<Rightarrow> byte list list"

text \<open>The values the random number generator returns for one payload.\<close>

record payload_randomness =
  pr_data_key :: payload_key
  pr_id_bytes :: "byte list"
  pr_data_nonce :: "byte list"
  pr_wrap_nonce :: "byte list"

text \<open>The world, the credentials of the open run and the run the adapter holds.\<close>

record run_state =
  sa_world :: world
  sa_pending :: "(credential_id \<times> secret_store) list"
  sa_staging :: "staging_backup option"

type_synonym 'a run_action = "(run_state, repository_error, 'a) action"

definition on_disk :: "(world, 'e, 'a) action \<Rightarrow> (run_state, 'e, 'a) action" where
  "on_disk m s = (case m (sa_world s) of (r, w) \<Rightarrow> (r, s\<lparr>sa_world := w\<rparr>))"

subsection \<open>A run\<close>

definition begin_staging :: "staging_env \<Rightarrow> run_id \<Rightarrow> staging_backup run_action" where
  "begin_staging env run_id =
     (let path = staging_root @ [run_id] in
      do_then (on_disk (
        do_then (repository_lock (sg_repository env)) (\<lambda>_.
        do_then (do_match (create_dir path) (\<lambda>r.
          case r of
            Inr _ \<Rightarrow> do_return ()
          | Inl AlreadyExists \<Rightarrow> do_fail StagingExists
          | Inl err \<Rightarrow> do_fail (Io ''create staging run'' err))) (\<lambda>_.
        do_then (do_map_err (Io ''create staging payload directory'') (create_dir (path @ [''payload'']))) (\<lambda>_.
        do_then (do_map_err (Io ''create staging reports directory'') (create_dir (path @ [''reports'']))) (\<lambda>_.
        sync_parent path)))))) (\<lambda>_ s.
      (Inr \<lparr>sb_run_id = run_id, sb_path = path\<rparr>, s\<lparr>sa_pending := []\<rparr>)))"

text \<open>Best effort: the errors of the credential store are dropped.\<close>

primrec delete_credentials :: "(credential_id \<times> secret_store) list \<Rightarrow> world \<Rightarrow> world" where
  "delete_credentials [] w = w"
| "delete_credentials (p # ps) w = delete_credentials ps (snd (ss_delete (snd p) (fst p) w))"

definition delete_pending_credentials :: "(run_state, 'e, unit) action" where
  "delete_pending_credentials s = (Inr (), s\<lparr>sa_world := delete_credentials (sa_pending s) (sa_world s)\<rparr>)"

definition staging_discard :: "staging_env \<Rightarrow> staging_backup \<Rightarrow> unit run_action" where
  "staging_discard env self =
     (let payload_root = sb_path self @ [''payload''] in
      do_then (on_disk (do_then (path_exists payload_root) (\<lambda>present.
        if present then do_map_err (Io ''remove unsealed payloads'') (remove_dir_all payload_root) else do_return ()))) (\<lambda>_.
      do_then delete_pending_credentials (\<lambda>_.
      do_then (on_disk (quarantine (sg_repository env) (sb_run_id self) ''capture_failed'')) (\<lambda>_.
      do_return ()))))"

subsection \<open>Payloads\<close>

definition reserve_payload_destination :: "staging_backup \<Rightarrow> payload_path \<Rightarrow> path repo" where
  "reserve_payload_destination self relative_path =
     (if \<not> prefix ''payload/'' relative_path then do_fail UnsafeFilesystemEntry
      else
        do_then (create_safe_parent (sb_path self) relative_path) (\<lambda>target.
        do_then (path_exists target) (\<lambda>present.
          if present then do_fail PayloadExists else do_return target)))"

definition register_payload_file :: "staging_env \<Rightarrow> staging_backup \<Rightarrow> string \<Rightarrow> payload_path \<Rightarrow> string \<Rightarrow> payload_entry repo" where
  "register_payload_file env self logical_role relative_path media_type =
     (let target = payload_file (sb_path self) relative_path; renv = lr_env (sg_repository env) in
      do_then (do_map_err (Io ''inspect staged payload'') (stat target)) (\<lambda>metadata.
        case metadata of
          FsFile bytes \<Rightarrow>
            do_then (hash_file (re_sha256 renv) target) (\<lambda>hash.
            do_lift (map_err RepoManifest (payload_entry_new (re_b64 renv) logical_role relative_path (word_of_nat (length bytes)) hash media_type)))
        | _ \<Rightarrow> do_fail UnsafeFilesystemEntry))"

definition write_payload :: "staging_env \<Rightarrow> staging_backup \<Rightarrow> string \<Rightarrow> payload_path \<Rightarrow> string \<Rightarrow> byte list \<Rightarrow> payload_entry repo" where
  "write_payload env self logical_role relative_path media_type bytes =
     do_then (reserve_payload_destination self relative_path) (\<lambda>target.
     do_then (write_new target bytes) (\<lambda>_.
     register_payload_file env self logical_role relative_path media_type))"

definition associated_data :: "backup_id \<Rightarrow> payload_path \<Rightarrow> byte list" where
  "associated_data backup_id path = bytes_of (backup_id @ ''|'' @ path @ ''|'' @ show_nat (unat ENVELOPE_VERSION))"

definition recovery_wrap_associated_data :: "backup_id \<Rightarrow> payload_path \<Rightarrow> byte list" where
  "recovery_wrap_associated_data backup_id path = bytes_of (''guardian-recovery-wrap-v1|'' @ backup_id @ ''|'' @ path)"

definition encrypt_payload :: "staging_env \<Rightarrow> path \<Rightarrow> path \<Rightarrow> payload_key \<Rightarrow> byte list \<Rightarrow> backup_id \<Rightarrow> payload_path \<Rightarrow> envelope_header repo" where
  "encrypt_payload env source destination key nonce backup_id path =
     do_then (do_map_err (Io ''open plaintext staged payload'') (open_path source)) (\<lambda>_.
     do_then (do_map_err (Io ''create encrypted staged payload'') (create_new destination)) (\<lambda>_.
     do_then (do_map_err (\<lambda>_. RepoEncryption) (read_file source)) (\<lambda>bytes.
       case encrypt_reader_to (sg_encrypt env) key nonce \<lparr>ps_pieces = sg_pieces env bytes, ps_fails = False\<rparr> (associated_data backup_id path) vec_sink of
         (r, out) \<Rightarrow>
           do_then (do_map_err (\<lambda>_. RepoEncryption) (write_file destination (sk_data out))) (\<lambda>_.
           do_then (do_lift (map_err (\<lambda>_. RepoEncryption) r)) (\<lambda>header.
           do_then (do_map_err (Io ''sync encrypted staged payload'') sync) (\<lambda>_.
           do_return header))))))"

definition wrap_payload_key :: "staging_env \<Rightarrow> payload_key \<Rightarrow> byte list \<Rightarrow> payload_key \<Rightarrow> backup_id \<Rightarrow> payload_path \<Rightarrow> repository_error + byte list" where
  "wrap_payload_key env recovery_key nonce payload_key backup_id path =
     map_err (\<lambda>_. RepoEncryption) (seal_bytes (sg_encrypt env) recovery_key nonce payload_key (recovery_wrap_associated_data backup_id path))"

definition encrypt_and_register_payload_file ::
  "staging_env \<Rightarrow> staging_backup \<Rightarrow> string \<Rightarrow> payload_path \<Rightarrow> string \<Rightarrow> backup_id \<Rightarrow> secret_store \<Rightarrow> payload_randomness \<Rightarrow> payload_entry run_action" where
  "encrypt_and_register_payload_file env self logical_role relative_path media_type backup_id secrets random =
     (let target = payload_file (sb_path self) relative_path; temporary = with_extension target ''encrypting'';
          repository = sg_repository env; b64 = re_b64 (lr_env repository); key = pr_data_key random in
      do_then (on_disk (do_map_err (Io ''inspect plaintext staged payload'') (stat target))) (\<lambda>metadata.
      do_then (case metadata of FsFile _ \<Rightarrow> do_return () | _ \<Rightarrow> do_fail UnsafeFilesystemEntry) (\<lambda>_.
      do_then (on_disk (load_recovery_key repository secrets)) (\<lambda>configured.
      do_then (do_lift (ok_or configured RecoveryKeyNotConfigured)) (\<lambda>recovery_key.
      do_then (do_lift (random_credential_id ''payload'' (pr_id_bytes random))) (\<lambda>credential_id.
      do_then (on_disk (do_map_err (\<lambda>_. RepoCredential) (ss_store secrets credential_id key))) (\<lambda>_.
      do_then (\<lambda>s. (Inr (), s\<lparr>sa_pending := sa_pending s @ [(credential_id, secrets)]\<rparr>)) (\<lambda>_.
      do_then (on_disk (do_match (encrypt_payload env target temporary key (pr_data_nonce random) backup_id relative_path) (\<lambda>r.
        case r of
          Inr header \<Rightarrow> do_return header
        | Inl err \<Rightarrow> do_match (remove_file temporary) (\<lambda>_. do_fail err)))) (\<lambda>header.
      do_then (on_disk (do_map_err (Io ''remove plaintext staged payload'') (remove_file target))) (\<lambda>_.
      do_then (on_disk (do_map_err (Io ''publish encrypted staged payload'') (rename temporary target))) (\<lambda>_.
      do_then (do_lift (wrap_payload_key env recovery_key (pr_wrap_nonce random) key backup_id relative_path)) (\<lambda>wrapped_key.
      do_then (do_lift (map_err RepoManifest (and_then (payload_encryption_new (sg_b64_encode env) b64 ENVELOPE_VERSION ALGORITHM credential_id (eh_nonce header)) (\<lambda>encryption.
        with_recovery_wrapped_key (sg_b64_encode env) b64 encryption wrapped_key)))) (\<lambda>encryption.
      do_then (on_disk (register_payload_file env self logical_role relative_path media_type)) (\<lambda>entry.
      do_lift (map_err RepoManifest (payload_entry_encrypted b64 entry encryption))))))))))))))))"

subsection \<open>Sealing\<close>

definition publish_metadata :: "staging_env \<Rightarrow> staging_backup \<Rightarrow> manifest \<Rightarrow> byte list \<Rightarrow> byte list \<Rightarrow> unit repo" where
  "publish_metadata env self manifest canonical signature =
     do_then (do_lift (ok_or (mf_signature manifest) IntegrityFailure)) (\<lambda>metadata.
       let envelope = disk_signature_new SIGNATURE_ALGORITHM (sm_key_id metadata) signature;
           report = \<lparr>vr_state = Verified, vr_payload_count = length (mf_payloads manifest)\<rparr> in
       do_then (atomic_write (sb_path self @ [''manifest.json'']) canonical) (\<lambda>_.
       do_then (do_lift (ok_or (to_json (re_signature_codec (lr_env (sg_repository env))) envelope) RepoSerialization)) (\<lambda>sig.
       do_then (atomic_write (sb_path self @ [''manifest.sig'']) sig) (\<lambda>_.
       do_then (do_lift (ok_or (sg_report_to_json env report) RepoSerialization)) (\<lambda>bytes.
       atomic_write (sb_path self @ [''reports'', ''verification.json'']) bytes)))))"

definition publish_backup :: "staging_backup \<Rightarrow> backup_id \<Rightarrow> sealed_result repo" where
  "publish_backup self backup_id =
     (let destination = backups_root @ [backup_id] in
      do_then (path_exists destination) (\<lambda>present.
        if present then do_fail BackupExists
        else
          do_then (do_map_err (Io ''atomically seal backup'') (rename (sb_path self) destination)) (\<lambda>_.
          do_then (sync_parent destination) (\<lambda>_.
          do_return \<lparr>sl_backup_id = backup_id, sl_path = destination\<rparr>))))"

definition seal_inner :: "staging_env \<Rightarrow> staging_backup \<Rightarrow> manifest \<Rightarrow> timestamp \<Rightarrow> manifest_signer \<Rightarrow> sealed_result repo" where
  "seal_inner env self manifest sealed_at signer =
     (let renv = lr_env (sg_repository env) in
      if mf_run_id manifest \<noteq> sb_run_id self then do_fail RunMismatch
      else if signer_algorithm signer \<noteq> SIGNATURE_ALGORITHM then do_fail UnsupportedSigner
      else
        do_then (verify_staged_payloads (re_b64 renv) (re_sha256 renv) (sb_path self) manifest) (\<lambda>_.
        do_then (do_lift (map_err RepoManifest (prepare_for_seal (re_b64 renv) manifest sealed_at (signer_algorithm signer) (signer_key_id signer)))) (\<lambda>manifest.
        do_then (do_lift (map_err RepoManifest (canonical_bytes (to_json (re_manifest_codec renv)) manifest))) (\<lambda>canonical.
        do_then (do_lift (map_err RepoSigning (signer_sign signer canonical))) (\<lambda>signature.
        do_then (do_lift (map_err RepoSigning (signer_verify signer canonical signature))) (\<lambda>_.
        do_then (publish_metadata env self manifest canonical signature) (\<lambda>_.
        publish_backup self (mf_backup_id manifest))))))))"

definition seal :: "staging_env \<Rightarrow> staging_backup \<Rightarrow> manifest \<Rightarrow> timestamp \<Rightarrow> manifest_signer \<Rightarrow> sealed_result run_action" where
  "seal env self manifest sealed_at signer =
     do_match (on_disk (seal_inner env self manifest sealed_at signer)) (\<lambda>r.
       case r of
         Inr sealed \<Rightarrow> do_return sealed
       | Inl err \<Rightarrow>
           do_then delete_pending_credentials (\<lambda>_.
           do_then (on_disk (quarantine (sg_repository env) (sb_run_id self) ''seal_failed'')) (\<lambda>_.
           do_fail err)))"

subsection \<open>The storage port\<close>

datatype storage_port_error = StorageUnavailable | StorageRejected

record encryption_context =
  ec_backup_id :: backup_id
  ec_secrets :: secret_store

definition map_error :: "repository_error \<Rightarrow> storage_port_error" where
  "map_error _ = StorageRejected"

definition current_staging :: "(run_state, storage_port_error, staging_backup) action" where
  "current_staging s = (ok_or (sa_staging s) StorageRejected, s)"

definition take_staging :: "(run_state, storage_port_error, staging_backup option) action" where
  "take_staging s = (Inr (sa_staging s), s\<lparr>sa_staging := None\<rparr>)"

definition adapter_begin :: "staging_env \<Rightarrow> run_id \<Rightarrow> (run_state, storage_port_error, unit) action" where
  "adapter_begin env run_id s =
     (if sa_staging s \<noteq> None then (Inl StorageRejected, s)
      else do_then (do_map_err map_error (begin_staging env run_id)) (\<lambda>staging s. (Inr (), s\<lparr>sa_staging := Some staging\<rparr>)) s)"

definition adapter_reserve :: "payload_path \<Rightarrow> (run_state, storage_port_error, path) action" where
  "adapter_reserve path =
     do_then current_staging (\<lambda>staging. on_disk (do_map_err map_error (reserve_payload_destination staging path)))"

definition adapter_register_payload_path ::
  "staging_env \<Rightarrow> encryption_context option \<Rightarrow> string \<Rightarrow> payload_path \<Rightarrow> string \<Rightarrow> payload_randomness \<Rightarrow>
   (run_state, storage_port_error, payload_entry) action" where
  "adapter_register_payload_path env encryption role path media_type random =
     do_then current_staging (\<lambda>staging.
       case encryption of
         Some context \<Rightarrow>
           do_map_err map_error (encrypt_and_register_payload_file env staging role path media_type (ec_backup_id context) (ec_secrets context) random)
       | None \<Rightarrow> do_map_err map_error (on_disk (register_payload_file env staging role path media_type)))"

definition adapter_seal :: "staging_env \<Rightarrow> manifest \<Rightarrow> timestamp \<Rightarrow> manifest_signer \<Rightarrow> (run_state, storage_port_error, backup_id) action" where
  "adapter_seal env manifest sealed_at signer =
     do_then take_staging (\<lambda>taken.
     do_then (do_lift (ok_or taken StorageRejected)) (\<lambda>staging.
     do_then (do_map_err map_error (seal env staging manifest sealed_at signer)) (\<lambda>sealed.
     do_return (sl_backup_id sealed))))"

definition adapter_discard :: "staging_env \<Rightarrow> (run_state, storage_port_error, unit) action" where
  "adapter_discard env =
     do_then take_staging (\<lambda>taken.
       case taken of
         Some staging \<Rightarrow> do_map_err map_error (staging_discard env staging)
       | None \<Rightarrow> do_return ())"

section \<open>Moving a verified tree\<close>

lemma strict_prefix_cancel [simp]: "strict_prefix (xs @ ys) (xs @ zs) \<longleftrightarrow> strict_prefix ys zs"
  by (auto simp: strict_prefix_def)

lemma visible_relative:
  "visible d (p @ a) (p @ b) \<longleftrightarrow> strict_prefix a b \<and> entry_at d (p @ b) \<noteq> None \<and> (\<forall>t. strict_prefix (a @ t) b \<longrightarrow> entry_at d (p @ a @ t) = Some FsDir)"
proof -
  have "(\<forall>r. prefix (p @ a) r \<and> strict_prefix r (p @ b) \<longrightarrow> entry_at d r = Some FsDir) \<longleftrightarrow>
      (\<forall>t. strict_prefix (a @ t) b \<longrightarrow> entry_at d (p @ a @ t) = Some FsDir)"
    by (auto simp: prefix_def)
  then show ?thesis by (simp add: visible_def)
qed

lemma visible_below: "visible d (p @ a) q \<Longrightarrow> \<exists>b. q = p @ b"
  by (auto simp: visible_def strict_prefix_def prefix_def)

lemma files_below_iff: "b \<in> files_below p d (p @ a) \<longleftrightarrow> visible d (p @ a) (p @ b) \<and> is_file d (p @ b)"
proof
  assume "b \<in> files_below p d (p @ a)"
  then obtain x where x: "b = drop (length p) x" "visible d (p @ a) x" "is_file d x" by (auto simp: files_below_def)
  then obtain c where "x = p @ c" using visible_below by blast
  then show "visible d (p @ a) (p @ b) \<and> is_file d (p @ b)" using x by simp
next
  assume "visible d (p @ a) (p @ b) \<and> is_file d (p @ b)"
  then show "b \<in> files_below p d (p @ a)" unfolding files_below_def by (auto intro!: exI [of _ "p @ b"])
qed

lemma payloads_match_moved:
  assumes m: "payloads_match sha256 p m d" and root: "entry_at d' q = entry_at d p"
    and tree: "\<And>s. entry_at d' (q @ ''payload'' # s) = entry_at d (p @ ''payload'' # s)"
  shows "payloads_match sha256 q m d'"
proof -
  let ?dir = "[''payload''] :: string list"
  have same: "entry_at d' (q @ b) = entry_at d (p @ b)" if "strict_prefix ?dir b \<or> prefix ?dir b" for b
    using that tree by (auto simp: strict_prefix_def prefix_def)
  have vis: "visible d' (q @ ?dir) (q @ b) \<longleftrightarrow> visible d (p @ ?dir) (p @ b)" for b
    unfolding visible_relative using same tree by (auto simp: prefix_def)
  have below: "visible d (p @ ?dir) (p @ b) \<Longrightarrow> strict_prefix ?dir b" for b by (simp add: visible_relative)
  have regular: "is_file d' (q @ b) \<longleftrightarrow> is_file d (p @ b)" if "strict_prefix ?dir b" for b
    using same [of b] that by (simp add: is_file_def)
  have d': "visible d' (q @ ?dir) x \<Longrightarrow> \<exists>b. x = q @ b \<and> visible d (p @ ?dir) (p @ b)" for x
    using visible_below [of d' q ?dir x] vis by auto
  have plain: "plain_tree n d' (q @ ?dir)" if n: "plain_tree n d (p @ ?dir)" for n
    unfolding plain_tree_def
  proof (intro conjI allI impI)
    show "entry_at d' (q @ ?dir) = Some FsDir" using n same [of ?dir] by (simp add: plain_tree_def)
    fix x assume "visible d' (q @ ?dir) x"
    then obtain b where b: "x = q @ b" "visible d (p @ ?dir) (p @ b)" using d' by blast
    then show "is_file d' x \<or> entry_at d' x = Some FsDir \<and> length x - length (q @ ?dir) \<le> n"
      using n regular [OF below [OF b(2)]] same [of b] below [OF b(2)] by (force simp: plain_tree_def)
  qed
  have files: "files_below q d' (q @ ?dir) = files_below p d (p @ ?dir)"
    using vis regular below by (auto simp: files_below_iff)
  have listed: "payload_matches sha256 q d' e" if e: "e \<in> set (mf_payloads m)" for e
  proof -
    have "split_on slash (py_path e) \<in> files_below p d (p @ ?dir)" using m e by (simp add: payloads_match_def)
    then obtain x where x: "split_on slash (py_path e) = drop (length p) x" "visible d (p @ ?dir) x" by (auto simp: files_below_def)
    then obtain b where "x = p @ b" using visible_below by blast
    then have "strict_prefix ?dir (split_on slash (py_path e))" using x below by simp
    then have "entry_at d' (payload_file q (py_path e)) = entry_at d (payload_file p (py_path e))"
      using same by (simp add: payload_file_def)
    then show ?thesis using m e by (simp add: payloads_match_def payload_matches_def)
  qed
  show ?thesis using m root plain files listed by (simp add: payloads_match_def)
qed

section \<open>Sealing\<close>

text \<open>The files a seal writes beside the payloads, and what it leaves alone.\<close>

definition metadata_written :: "path \<Rightarrow> byte list \<Rightarrow> byte list \<Rightarrow> disk \<Rightarrow> disk \<Rightarrow> bool" where
  "metadata_written p canonical sig d d' \<longleftrightarrow>
     entry_at d' (p @ [''manifest.json'']) = Some (FsFile canonical) \<and> entry_at d' (p @ [''manifest.sig'']) = Some (FsFile sig) \<and>
     entry_at d' p = entry_at d p \<and> (\<forall>s. entry_at d' (p @ ''payload'' # s) = entry_at d (p @ ''payload'' # s)) \<and>
     (\<forall>q. \<not> prefix p q \<longrightarrow> entry_at d' q = entry_at d q)"

lemma published_below:
  assumes "published (p @ r) bs d d'" "r \<noteq> []"
  shows "entry_at d' p = entry_at d p" "\<not> prefix p q \<Longrightarrow> entry_at d' q = entry_at d q"
    "hd s \<noteq> hd r \<Longrightarrow> hd s \<noteq> hd (temporary_path r) \<Longrightarrow> s \<noteq> [] \<Longrightarrow> entry_at d' (p @ s) = entry_at d (p @ s)"
    "entry_at d' (p @ r) = Some (FsFile bs)"
proof -
  have t: "temporary_path (p @ r) = p @ temporary_path r" "temporary_path r \<noteq> []"
    using assms(2) by (simp_all add: temporary_path_def butlast_append)
  have h: "hd a = hd b" if "prefix a b" "a \<noteq> []" for a b :: path using that by (cases a; cases b) auto
  have same: "entry_at d' q = entry_at d q" if "\<not> prefix (p @ r) q" "\<not> prefix (p @ temporary_path r) q" for q
    using assms(1) that by (simp add: published_def t(1))
  show "entry_at d' p = entry_at d p" by (rule same) (use assms(2) t(2) in \<open>auto dest: prefix_length_le\<close>)
  show "\<not> prefix p q \<Longrightarrow> entry_at d' q = entry_at d q" by (rule same) (auto dest: append_prefixD)
  show "hd s \<noteq> hd r \<Longrightarrow> hd s \<noteq> hd (temporary_path r) \<Longrightarrow> s \<noteq> [] \<Longrightarrow> entry_at d' (p @ s) = entry_at d (p @ s)"
    by (rule same) (use h assms(2) t(2) in auto)
  show "entry_at d' (p @ r) = Some (FsFile bs)" using assms(1) by (simp add: published_def)
qed

lemma atomic_write_ok: "p \<noteq> [] \<Longrightarrow> atomic_write p bs w = (Inr u, w') \<Longrightarrow> published p bs (disk w) (disk w')"
  by (rule triple_ok [OF atomic_write_triple refl])

lemma publish_metadata_ok:
  assumes run: "publish_metadata env self m canonical signature w = (Inr u, w')"
  obtains metadata sig where "mf_signature m = Some metadata"
    "to_json (re_signature_codec (lr_env (sg_repository env))) (disk_signature_new SIGNATURE_ALGORITHM (sm_key_id metadata) signature) = Some sig"
    "metadata_written (sb_path self) canonical sig (disk w) (disk w')"
proof -
  let ?p = "sb_path self"
  obtain metadata sig bytes w1 w2 where m: "mf_signature m = Some metadata"
    and sig: "to_json (re_signature_codec (lr_env (sg_repository env))) (disk_signature_new SIGNATURE_ALGORITHM (sm_key_id metadata) signature) = Some sig"
    and run1: "atomic_write (?p @ [''manifest.json'']) canonical w = (Inr (), w1)"
    and run2: "atomic_write (?p @ [''manifest.sig'']) sig w1 = (Inr (), w2)"
    and run3: "atomic_write (?p @ [''reports'', ''verification.json'']) bytes w2 = (Inr u, w')"
    using run by (auto simp: publish_metadata_def do_then_ok Let_def)
  have t: "temporary_path [''manifest.json''] = [''manifest.json.tmp'']" "temporary_path [''manifest.sig''] = [''manifest.sig.tmp'']"
    "temporary_path [''reports'', ''verification.json''] = [''reports'', ''verification.json.tmp'']"
    by (simp_all add: temporary_path_def)
  note p1 = published_below [OF atomic_write_ok [OF _ run1], simplified, unfolded t, simplified]
  note p2 = published_below [OF atomic_write_ok [OF _ run2], simplified, unfolded t, simplified]
  note p3 = published_below [OF atomic_write_ok [OF _ run3], simplified, unfolded t, simplified]
  have "metadata_written ?p canonical sig (disk w) (disk w')"
    unfolding metadata_written_def
  proof (intro conjI allI impI)
    show "entry_at (disk w') (?p @ [''manifest.json'']) = Some (FsFile canonical)" using p1(4) p2(3) [of "[''manifest.json'']"] p3(3) [of "[''manifest.json'']"] by simp
    show "entry_at (disk w') (?p @ [''manifest.sig'']) = Some (FsFile sig)" using p2(4) p3(3) [of "[''manifest.sig'']"] by simp
    show "entry_at (disk w') ?p = entry_at (disk w) ?p" using p1(1) p2(1) p3(1) by simp
    show "entry_at (disk w') (?p @ ''payload'' # s) = entry_at (disk w) (?p @ ''payload'' # s)" for s
      using p1(3) [of "''payload'' # s"] p2(3) [of "''payload'' # s"] p3(3) [of "''payload'' # s"] by simp
    show "entry_at (disk w') q = entry_at (disk w) q" if "\<not> prefix ?p q" for q
      using p1(2) p2(2) p3(2) that by simp
  qed
  then show thesis using that m sig by blast
qed

lemma rename_ok:
  assumes "rename p q w = (Inr u, w')"
  shows "disk w' = move_tree p q (disk w)" "entry_at (disk w) p \<noteq> None" "\<not> prefix p q"
proof -
  have "disk w' = move_tree p q (disk w) \<and> entry_at (disk w) p \<noteq> None \<and> \<not> prefix p q"
    using assms unfolding rename_def by (rule io_cases) (auto split: if_splits)
  then show "disk w' = move_tree p q (disk w)" "entry_at (disk w) p \<noteq> None" "\<not> prefix p q" by auto
qed

lemma publish_backup_ok:
  assumes run: "publish_backup self i w = (Inr sealed, w')" and p: "sb_path self = staging_root @ [r]"
  shows "sealed = \<lparr>sl_backup_id = i, sl_path = backups_root @ [i]\<rparr>"
    "entry_at (disk w') (backups_root @ i # t) = entry_at (disk w) (sb_path self @ t)"
    "\<not> prefix (sb_path self) q \<Longrightarrow> \<not> prefix (backups_root @ [i]) q \<Longrightarrow> entry_at (disk w') q = entry_at (disk w) q"
    "prefix (sb_path self) q \<Longrightarrow> entry_at (disk w') q = None"
proof -
  let ?q = "backups_root @ [i]"
  obtain w1 w2 where ex: "(path_exists ?q :: bool repo) w = (Inr False, w1)" and mv: "rename (sb_path self) ?q w1 = (Inr (), w2)"
    and sy: "sync_parent ?q w2 = (Inr (), w')" and s: "sealed = \<lparr>sl_backup_id = i, sl_path = ?q\<rparr>"
    using run by (auto simp: publish_backup_def do_then_ok Let_def split: if_splits)
  have d1: "disk w1 = disk w" by (rule triple_ok [OF path_exists_triple [of "\<lambda>d. d = disk w"] _ ex]) simp
  have d2: "disk w' = disk w2" by (rule triple_ok [OF sync_parent_triple [of "\<lambda>d. d = disk w2"] _ sy]) simp
  have np: "\<not> prefix (sb_path self) ?q" "\<not> prefix ?q (sb_path self)" "sb_path self \<noteq> []" "?q \<noteq> []"
    by (auto simp: p staging_root_def backups_root_def)
  have d: "entry_at (disk w') x = (if prefix ?q x then entry_at (disk w) (sb_path self @ drop (length ?q) x)
      else if prefix (sb_path self) x then None else entry_at (disk w) x)" for x
    unfolding d2 rename_ok(1) [OF mv] d1 by (rule entry_at_move_tree [OF np])
  show "sealed = \<lparr>sl_backup_id = i, sl_path = ?q\<rparr>" by (fact s)
  show "entry_at (disk w') (backups_root @ i # t) = entry_at (disk w) (sb_path self @ t)"
    unfolding d by (simp add: backups_root_def)
  show "\<not> prefix (sb_path self) q \<Longrightarrow> \<not> prefix ?q q \<Longrightarrow> entry_at (disk w') q = entry_at (disk w) q"
    by (simp add: d)
  show "prefix (sb_path self) q \<Longrightarrow> entry_at (disk w') q = None"
    unfolding d by (cases q) (auto simp: p staging_root_def backups_root_def)
qed

lemma seal_inner_ok:
  assumes run: "seal_inner env self manifest sealed_at signer w = (Inr sealed, w')" and p: "sb_path self = staging_root @ [r]"
  defines "renv \<equiv> lr_env (sg_repository env)"
  obtains m canonical signature metadata sig d1 where
    "prepare_for_seal (re_b64 renv) manifest sealed_at (signer_algorithm signer) (signer_key_id signer) = Inr m"
    "to_json (re_manifest_codec renv) m = Some canonical" "signer_verify signer canonical signature = Inr ()"
    "signer_algorithm signer = SIGNATURE_ALGORITHM" "payloads_match (re_sha256 renv) (sb_path self) manifest (disk w)"
    "mf_signature m = Some metadata" "to_json (re_signature_codec renv) (disk_signature_new SIGNATURE_ALGORITHM (sm_key_id metadata) signature) = Some sig"
    "metadata_written (sb_path self) canonical sig (disk w) d1"
    "sealed = \<lparr>sl_backup_id = mf_backup_id m, sl_path = backups_root @ [mf_backup_id m]\<rparr>"
    "\<And>t. entry_at (disk w') (backups_root @ mf_backup_id m # t) = entry_at d1 (sb_path self @ t)"
    "\<And>q. \<not> prefix (sb_path self) q \<Longrightarrow> \<not> prefix (backups_root @ [mf_backup_id m]) q \<Longrightarrow> entry_at (disk w') q = entry_at d1 q"
    "\<And>q. prefix (sb_path self) q \<Longrightarrow> entry_at (disk w') q = None"
proof -
  obtain u w1 m canonical signature u2 w2 where alg: "signer_algorithm signer = SIGNATURE_ALGORITHM"
    and ver: "verify_staged_payloads (re_b64 renv) (re_sha256 renv) (sb_path self) manifest w = (Inr u, w1)"
    and prep: "prepare_for_seal (re_b64 renv) manifest sealed_at (signer_algorithm signer) (signer_key_id signer) = Inr m"
    and can: "to_json (re_manifest_codec renv) m = Some canonical" and sg: "signer_verify signer canonical signature = Inr ()"
    and pub: "publish_metadata env self m canonical signature w1 = (Inr u2, w2)"
    and fin: "publish_backup self (mf_backup_id m) w2 = (Inr sealed, w')"
    using run by (auto simp: seal_inner_def Let_def renv_def do_then_ok canonical_bytes_def split: if_splits)
  have "triple (\<lambda>s. disk s = disk w) (verify_staged_payloads (re_b64 renv) (re_sha256 renv) (sb_path self) manifest)
      (\<lambda>_ s. disk s = disk w \<and> payloads_match (re_sha256 renv) (sb_path self) manifest (disk w)) (\<lambda>_ s. disk s = disk w)"
    unfolding verify_staged_payloads_def by (rule triple_check) (rule verify_payload_tree_triple)
  from triple_ok [OF this refl ver] have d1: "disk w1 = disk w" "payloads_match (re_sha256 renv) (sb_path self) manifest (disk w)" by auto
  obtain metadata sig where md: "mf_signature m = Some metadata"
    "to_json (re_signature_codec renv) (disk_signature_new SIGNATURE_ALGORITHM (sm_key_id metadata) signature) = Some sig"
    "metadata_written (sb_path self) canonical sig (disk w) (disk w2)"
    using publish_metadata_ok [OF pub] unfolding d1(1) renv_def by blast
  note pb = publish_backup_ok [OF fin p]
  show thesis by (rule that [OF prep can sg alg d1(2) md pb(1) pb(2) pb(3) pb(4)])
qed

subsection \<open>Sealing without faults\<close>

lemma atomic_write_succeeds:
  assumes p: "p \<noteq> []" "entry_at d (temporary_path p) = None" "entry_at d (butlast p) = Some FsDir" "entry_at d p = None"
  shows "\<exists>d'. atomic_write p bs (quiet d) = (Inr (), quiet d') \<and> published p bs d d'"
proof -
  note t = temporary_path_unrelated [OF p(1)]
  have b1: "butlast (temporary_path p) = butlast p" by (simp add: temporary_path_def)
  then have b2: "butlast p \<noteq> temporary_path p" using butlast_neq [OF t(1)] by metis
  note b = b1 b2
  obtain d1 where w: "runs (write_new (temporary_path p) bs) d d1" and d1: "entry_set (temporary_path p) (Some (FsFile bs)) d d1"
    using runs_write_new [OF t(1) p(2)] p(3) b by auto
  have "rename_allowed d1 (temporary_path p) p" using d1 p b t(2) by (auto simp: rename_allowed_def entry_set_def)
  moreover have e: "entry_at d1 (temporary_path p) = Some (FsFile bs)" using d1 by (simp add: entry_set_def)
  ultimately have m: "runs (do_map_err (Io ''publish atomic file'') (rename (temporary_path p) p)) d1 (move_tree (temporary_path p) p d1)"
    using t by (simp add: runs_def quiet_simps do_defs)
  have "entry_at (move_tree (temporary_path p) p d1) (butlast p) = Some FsDir"
  proof -
    have shorter: "\<not> prefix q (butlast q)" if "q \<noteq> []" for q :: path
      using that prefix_length_le [of q "butlast q"] by (cases q) auto
    have "entry_at d1 (butlast p) = Some FsDir" using d1 p(3) b2 by (simp add: entry_set_def)
    then show ?thesis
      using shorter [OF p(1)] shorter [OF t(1)] unfolding entry_at_move_tree [OF t(2,3,1) p(1)] b1 by simp
  qed
  then have s: "runs (sync_parent p) (move_tree (temporary_path p) p d1) (move_tree (temporary_path p) p d1)"
    using p(1) by (intro runs_sync_parent) simp_all
  have "runs (do_then (write_new (temporary_path p) bs) (\<lambda>_. do_then (do_map_err (Io ''publish atomic file'') (rename (temporary_path p) p)) (\<lambda>_. sync_parent p)))
      d (move_tree (temporary_path p) p d1)"
    by (intro runs_then [OF w] runs_then [OF m] s)
  then have run: "atomic_write p bs (quiet d) = (Inr (), quiet (move_tree (temporary_path p) p d1))"
    using p(1) by (simp add: atomic_write_def runs_def)
  then show ?thesis using atomic_write_ok [OF p(1) run] by (auto simp: quiet_simps)
qed

lemma publish_metadata_quiet:
  assumes fresh: "\<And>x. x \<in> {''manifest.json'', ''manifest.json.tmp'', ''manifest.sig'', ''manifest.sig.tmp''} \<Longrightarrow> entry_at d (sb_path self @ [x]) = None"
    "entry_at d (sb_path self @ [''reports'', ''verification.json'']) = None" "entry_at d (sb_path self @ [''reports'', ''verification.json.tmp'']) = None"
    and dirs: "entry_at d (sb_path self) = Some FsDir" "entry_at d (sb_path self @ [''reports'']) = Some FsDir"
    and md: "mf_signature m = Some metadata"
    and sig: "to_json (re_signature_codec (lr_env (sg_repository env))) (disk_signature_new SIGNATURE_ALGORITHM (sm_key_id metadata) signature) = Some sig"
    and report: "sg_report_to_json env \<lparr>vr_state = Verified, vr_payload_count = length (mf_payloads m)\<rparr> = Some bytes"
  shows "\<exists>d'. publish_metadata env self m canonical signature (quiet d) = (Inr (), quiet d')"
proof -
  let ?p = "sb_path self"
  have t: "temporary_path [''manifest.json''] = [''manifest.json.tmp'']" "temporary_path [''manifest.sig''] = [''manifest.sig.tmp'']"
    "temporary_path [''reports'', ''verification.json''] = [''reports'', ''verification.json.tmp'']"
    "temporary_path (?p @ [''manifest.json'']) = ?p @ [''manifest.json.tmp'']" "temporary_path (?p @ [''manifest.sig'']) = ?p @ [''manifest.sig.tmp'']"
    "temporary_path (?p @ [''reports'', ''verification.json'']) = ?p @ [''reports'', ''verification.json.tmp'']"
    by (simp_all add: temporary_path_def butlast_append)
  obtain d1 where r1: "atomic_write (?p @ [''manifest.json'']) canonical (quiet d) = (Inr (), quiet d1)" and p1: "published (?p @ [''manifest.json'']) canonical d d1"
    using atomic_write_succeeds [of "?p @ [''manifest.json'']" d canonical] fresh(1) dirs(1) by (auto simp: t butlast_append)
  note q1 = published_below [OF p1, simplified, unfolded t, simplified]
  obtain d2 where r2: "atomic_write (?p @ [''manifest.sig'']) sig (quiet d1) = (Inr (), quiet d2)" and p2: "published (?p @ [''manifest.sig'']) sig d1 d2"
    using atomic_write_succeeds [of "?p @ [''manifest.sig'']" d1 sig] fresh(1) dirs(1) q1(1) q1(3) [of "[''manifest.sig'']"] q1(3) [of "[''manifest.sig.tmp'']"]
    by (auto simp: t butlast_append)
  note q2 = published_below [OF p2, simplified, unfolded t, simplified]
  have keep: "entry_at d2 (?p @ ''reports'' # s) = entry_at d (?p @ ''reports'' # s)" for s
    using q1(3) [of "''reports'' # s"] q2(3) [of "''reports'' # s"] by simp
  obtain d3 where r3: "atomic_write (?p @ [''reports'', ''verification.json'']) bytes (quiet d2) = (Inr (), quiet d3)"
    using atomic_write_succeeds [of "?p @ [''reports'', ''verification.json'']" d2 bytes] fresh(2,3) dirs(2) keep by (auto simp: t butlast_append)
  show ?thesis using md sig report r1 r2 r3 by (simp add: publish_metadata_def do_then_def Let_def ok_or_def) blast
qed

lemma publish_backup_quiet:
  assumes p: "sb_path self = staging_root @ [r]" and d: "entry_at d (sb_path self) = Some FsDir" "entry_at d backups_root = Some FsDir" "entry_at d (backups_root @ [i]) = None"
  shows "\<exists>sealed d'. publish_backup self i (quiet d) = (Inr sealed, quiet d')"
proof -
  let ?q = "backups_root @ [i]"
  have np: "\<not> prefix (sb_path self) ?q" "\<not> prefix ?q (sb_path self)" "sb_path self \<noteq> []" "?q \<noteq> []" "\<not> prefix ?q backups_root" "\<not> prefix (sb_path self) backups_root"
    by (auto simp: p staging_root_def backups_root_def)
  have "rename_allowed d (sb_path self) ?q" using d by (simp add: rename_allowed_def)
  then have mv: "rename (sb_path self) ?q (quiet d) = (Inr (), quiet (move_tree (sb_path self) ?q d))" using d(1) np by (simp add: quiet_simps)
  have "entry_at (move_tree (sb_path self) ?q d) backups_root = Some FsDir" using d(2) np by (simp add: entry_at_move_tree)
  then have sy: "sync_parent ?q (quiet (move_tree (sb_path self) ?q d)) = (Inr (), quiet (move_tree (sb_path self) ?q d))"
    using runs_sync_parent [of ?q] by (simp add: runs_def)
  show ?thesis using d(3) mv sy by (simp add: publish_backup_def Let_def do_then_def do_map_err_def path_exists_quiet) blast
qed

lemma seal_published:
  assumes p: "sb_path self = staging_root @ [sb_run_id self]"
    and codecs: "codec_ok (re_manifest_codec (lr_env (sg_repository env)))" "codec_ok (re_signature_codec (lr_env (sg_repository env)))"
    and i: "backup_id_parse (mf_backup_id manifest) = Inr (mf_backup_id manifest)"
    and trust: "\<And>message signature. signer_verify signer message signature = Inr () \<Longrightarrow>
      verifier (signer_algorithm signer) (signer_key_id signer) message signature = Inr ()"
    and run: "seal env self manifest sealed_at signer s = (Inr sealed, s')"
  shows "\<exists>m. prepare_for_seal (re_b64 (lr_env (sg_repository env))) manifest sealed_at (signer_algorithm signer) (signer_key_id signer) = Inr m \<and>
    sealed = \<lparr>sl_backup_id = mf_backup_id manifest, sl_path = backups_root @ [mf_backup_id manifest]\<rparr> \<and>
    load_verified_manifest (lr_env (sg_repository env)) verifier (sl_path sealed) (quiet (disk (sa_world s'))) = (Inr m, quiet (disk (sa_world s'))) \<and>
    (\<forall>t. entry_at (disk (sa_world s')) (sl_path sealed @ ''payload'' # t) = entry_at (disk (sa_world s)) (sb_path self @ ''payload'' # t)) \<and>
    (\<forall>q. prefix (sb_path self) q \<longrightarrow> entry_at (disk (sa_world s')) q = None) \<and>
    (\<forall>q. \<not> prefix (sb_path self) q \<and> \<not> prefix (sl_path sealed) q \<longrightarrow> entry_at (disk (sa_world s')) q = entry_at (disk (sa_world s)) q)"
proof -
  let ?renv = "lr_env (sg_repository env)" and ?d = "disk (sa_world s)" and ?d' = "disk (sa_world s')" and ?q = "backups_root @ [mf_backup_id manifest]"
  have inner: "seal_inner env self manifest sealed_at signer (sa_world s) = (Inr sealed, sa_world s')"
    using run by (auto simp: seal_def do_match_def on_disk_def do_then_def delete_pending_credentials_def split: prod.splits sum.splits)
  obtain m canonical signature metadata sig d1 where
    prep: "prepare_for_seal (re_b64 ?renv) manifest sealed_at (signer_algorithm signer) (signer_key_id signer) = Inr m"
    and can: "to_json (re_manifest_codec ?renv) m = Some canonical" and ver: "signer_verify signer canonical signature = Inr ()"
    and alg: "signer_algorithm signer = SIGNATURE_ALGORITHM" and tree: "payloads_match (re_sha256 ?renv) (sb_path self) manifest ?d"
    and md: "mf_signature m = Some metadata" and sg: "to_json (re_signature_codec ?renv) (disk_signature_new SIGNATURE_ALGORITHM (sm_key_id metadata) signature) = Some sig"
    and written: "metadata_written (sb_path self) canonical sig ?d d1"
    and sealed: "sealed = \<lparr>sl_backup_id = mf_backup_id m, sl_path = backups_root @ [mf_backup_id m]\<rparr>"
    and moved: "\<And>t. entry_at ?d' (backups_root @ mf_backup_id m # t) = entry_at d1 (sb_path self @ t)"
    and rest: "\<And>q. \<not> prefix (sb_path self) q \<Longrightarrow> \<not> prefix (backups_root @ [mf_backup_id m]) q \<Longrightarrow> entry_at ?d' q = entry_at d1 q"
    and gone: "\<And>q. prefix (sb_path self) q \<Longrightarrow> entry_at ?d' q = None"
    using seal_inner_ok [OF inner p] by metis
  have m: "mf_backup_id m = mf_backup_id manifest" "mf_payloads m = mf_payloads manifest" "metadata = \<lparr>sm_algorithm = signer_algorithm signer, sm_key_id = signer_key_id signer\<rparr>"
    using prep md by (auto simp: prepare_for_seal_ok)
  note moved = moved [unfolded m(1)] and rest = rest [unfolded m(1)]
  have root: "entry_at ?d' ?q = entry_at ?d (sb_path self)"
    using moved [of "[]"] written by (simp add: metadata_written_def)
  have payload: "entry_at ?d' (?q @ ''payload'' # t) = entry_at ?d (sb_path self @ ''payload'' # t)" for t
    using moved [of "''payload'' # t"] written by (simp add: metadata_written_def)
  have files: "entry_at ?d' (?q @ [''manifest.json'']) = Some (FsFile canonical)" "entry_at ?d' (?q @ [''manifest.sig'']) = Some (FsFile sig)"
    using moved [of "[''manifest.json'']"] moved [of "[''manifest.sig'']"] written by (simp_all add: metadata_written_def)
  have "payloads_match (re_sha256 ?renv) ?q m ?d'"
    using payloads_match_moved [OF tree root payload] m(2) by (simp add: payloads_match_def)
  moreover have "signature_checks ?renv verifier m canonical sig"
    using codecs(2) sg md m(3) alg disk_signature_roundtrip [of SIGNATURE_ALGORITHM "signer_key_id signer" signature] trust [OF ver]
    by (auto simp: signature_checks_def codec_ok_def disk_signature_new_def)
  moreover have "validate_sealed (re_b64 ?renv) m = Inr ()" using prep by (rule prepare_for_seal_sealed)
  ultimately have "sealed_backup ?renv verifier ?q m ?d'"
    using files can codecs(1) i m(1) by (auto simp: sealed_backup_def codec_ok_def)
  then show ?thesis
    using load_verified_manifest_quiet prep sealed payload gone rest written by (auto simp: m(1) metadata_written_def)
qed

section \<open>Properties\<close>

text \<open>C36: what is sealed verifies. Whatever calls failed before, a seal that succeeds has moved the run
  to its final place as a whole, with its payload files untouched, left everything else alone, and a
  later verification of the published backup accepts it and returns exactly the sealed manifest.\<close>

theorem sealed_backup_verifies:
  assumes p: "sb_path self = staging_root @ [sb_run_id self]"
    and codecs: "codec_ok (re_manifest_codec (lr_env (sg_repository env)))" "codec_ok (re_signature_codec (lr_env (sg_repository env)))"
    and i: "backup_id_parse (mf_backup_id manifest) = Inr (mf_backup_id manifest)"
    and trust: "\<And>message signature. signer_verify signer message signature = Inr () \<Longrightarrow>
      verifier (signer_algorithm signer) (signer_key_id signer) message signature = Inr ()"
    and run: "seal env self manifest sealed_at signer s = (Inr sealed, s')"
  shows "\<exists>m. prepare_for_seal (re_b64 (lr_env (sg_repository env))) manifest sealed_at (signer_algorithm signer) (signer_key_id signer) = Inr m \<and>
    sealed = \<lparr>sl_backup_id = mf_backup_id manifest, sl_path = backups_root @ [mf_backup_id manifest]\<rparr> \<and>
    load_verified_manifest (lr_env (sg_repository env)) verifier (sl_path sealed) (quiet (disk (sa_world s'))) = (Inr m, quiet (disk (sa_world s'))) \<and>
    (\<forall>t. entry_at (disk (sa_world s')) (sl_path sealed @ ''payload'' # t) = entry_at (disk (sa_world s)) (sb_path self @ ''payload'' # t)) \<and>
    (\<forall>q. prefix (sb_path self) q \<longrightarrow> entry_at (disk (sa_world s')) q = None) \<and>
    (\<forall>q. \<not> prefix (sb_path self) q \<and> \<not> prefix (sl_path sealed) q \<longrightarrow> entry_at (disk (sa_world s')) q = entry_at (disk (sa_world s)) q)"
  using assms by (rule seal_published)

definition sample_unsealed :: manifest where
  "sample_unsealed = sample_manifest\<lparr>mf_sealed_at := None, mf_verification_state := Pending, mf_signature := None\<rparr>"

definition sample_resealed :: manifest where
  "sample_resealed = sample_manifest\<lparr>mf_signature := Some \<lparr>sm_algorithm = ''Ed25519'', sm_key_id = ''key-1''\<rparr>\<rparr>"

definition sample_signer :: manifest_signer where
  "sample_signer = \<lparr>signer_algorithm = ''Ed25519'', signer_key_id = ''key-1'', signer_sign = \<lambda>_. Inr [7],
     signer_verify = \<lambda>_ sg. if sg = [7] then Inr () else Inl VerificationFailed\<rparr>"

definition sample_local_repository :: local_repository where
  "sample_local_repository =
     \<lparr>lr_id = ''repo'',
      lr_env = \<lparr>re_b64 = \<lambda>_. None, re_sha256 = \<lambda>_. replicate 32 170, re_manifest_codec = two_documents sample_resealed sample_resealed,
        re_signature_codec = two_documents (disk_signature_new ''Ed25519'' ''key-1'' [7]) (disk_signature_new ''Ed25519'' ''key-1'' [7])\<rparr>,
      lr_metadata_codec = \<lparr>to_json = \<lambda>_. Some [1], from_json = \<lambda>_. None\<rparr>,
      lr_journal_codec = \<lparr>intent_to_json = \<lambda>_. None, intent_from_json = \<lambda>_. None, audit_to_json = \<lambda>_. None\<rparr>,
      lr_plan_to_json = \<lambda>_. None, lr_quarantine_to_json = \<lambda>_. None, lr_audit_to_json = \<lambda>_. None,
      lr_held = False, lr_contended = False, lr_age = \<lambda>_. None\<rparr>"

definition sample_staging_env :: staging_env where
  "sample_staging_env = \<lparr>sg_repository = sample_local_repository, sg_report_to_json = \<lambda>_. Some [3], sg_b64_encode = \<lambda>_. [], sg_encrypt = toy_enc,
     sg_pieces = \<lambda>bs. if bs = [] then [] else [bs]\<rparr>"

definition sample_staged :: disk where
  "sample_staged = [([''staging''], FsDir), ([''staging'', ''r1''], FsDir), ([''staging'', ''r1'', ''payload''], FsDir),
     ([''staging'', ''r1'', ''payload'', ''fs.tar.zst''], FsFile (replicate 10 0)), ([''staging'', ''r1'', ''reports''], FsDir), ([''backups''], FsDir)]"

text \<open>The sample run seals from every disk that holds it.\<close>

lemma sample_seal:
  assumes tree: "verify_payload_tree (re_sha256 (lr_env sample_local_repository)) [''staging'', ''r1''] sample_unsealed (quiet d) = (Inr (), quiet d)"
    and st: "\<And>x. x \<in> {''manifest.json'', ''manifest.json.tmp'', ''manifest.sig'', ''manifest.sig.tmp''} \<Longrightarrow> entry_at d [''staging'', ''r1'', x] = None"
    and e: "entry_at d [''staging'', ''r1''] = Some FsDir" "entry_at d [''staging'', ''r1'', ''reports''] = Some FsDir"
      "entry_at d [''backups''] = Some FsDir" "entry_at d [''backups'', ''b1''] = None"
      "entry_at d [''staging'', ''r1'', ''reports'', ''verification.json''] = None" "entry_at d [''staging'', ''r1'', ''reports'', ''verification.json.tmp''] = None"
  shows "\<exists>sealed w2. seal sample_staging_env \<lparr>sb_run_id = ''r1'', sb_path = [''staging'', ''r1'']\<rparr> sample_unsealed ''2024-01-02T03:04:05Z'' sample_signer
      \<lparr>sa_world = quiet d, sa_pending = ps, sa_staging = x\<rparr> = (Inr sealed, \<lparr>sa_world = quiet w2, sa_pending = ps, sa_staging = x\<rparr>)"
proof -
  let ?self = "\<lparr>sb_run_id = ''r1'', sb_path = [''staging'', ''r1'']\<rparr>" and ?renv = "lr_env sample_local_repository"
  have valid: "validate_for_verification (re_b64 ?renv) sample_unsealed = Inr ()" by code_simp
  have prep: "prepare_for_seal (re_b64 ?renv) sample_unsealed ''2024-01-02T03:04:05Z'' ''Ed25519'' ''key-1'' = Inr sample_resealed" by code_simp
  have can: "to_json (re_manifest_codec ?renv) sample_resealed = Some [1]" by (simp add: sample_local_repository_def two_documents_def)
  have sig: "to_json (re_signature_codec (lr_env (sg_repository sample_staging_env))) (disk_signature_new SIGNATURE_ALGORITHM ''key-1'' [7]) = Some [1]"
    "sg_report_to_json sample_staging_env report = Some [3]" for report
    by (simp_all add: sample_staging_env_def sample_local_repository_def two_documents_def SIGNATURE_ALGORITHM_def)
  have md: "mf_signature sample_resealed = Some \<lparr>sm_algorithm = ''Ed25519'', sm_key_id = ''key-1''\<rparr>" "mf_backup_id sample_resealed = ''b1''"
    by (simp_all add: sample_resealed_def sample_manifest_def manifest_new_def)
  have "\<exists>w1. publish_metadata sample_staging_env ?self sample_resealed [1] [7] (quiet d) = (Inr (), quiet w1)"
  proof (rule publish_metadata_quiet [where sig = "[1]" and bytes = "[3]", OF _ _ _ _ _ md(1)])
    fix x assume "x \<in> {''manifest.json'', ''manifest.json.tmp'', ''manifest.sig'', ''manifest.sig.tmp''}"
    then show "entry_at d (sb_path ?self @ [x]) = None" using st by simp
  qed (use e sig in simp_all)
  then obtain w1 where w1: "publish_metadata sample_staging_env ?self sample_resealed [1] [7] (quiet d) = (Inr (), quiet w1)" by blast
  have "metadata_written [''staging'', ''r1''] [1] [1] d w1"
    by (rule publish_metadata_ok [OF w1]) (use md sig(1) in \<open>clarsimp simp: quiet_simps\<close>)
  then have "entry_at w1 [''staging'', ''r1''] = Some FsDir" "entry_at w1 [''backups''] = Some FsDir" "entry_at w1 [''backups'', ''b1''] = None"
    using e by (simp_all add: metadata_written_def)
  then obtain sealed w2 where w2: "publish_backup ?self (mf_backup_id sample_resealed) (quiet w1) = (Inr sealed, quiet w2)"
    using publish_backup_quiet [of ?self "''r1''" w1 "''b1''"] md by (auto simp: staging_root_def backups_root_def)
  note run = w1 w2
  have "seal_inner sample_staging_env ?self sample_unsealed ''2024-01-02T03:04:05Z'' sample_signer (quiet d) = (Inr sealed, quiet w2)"
    using valid prep can run tree
    by (simp add: seal_inner_def Let_def do_then_def verify_staged_payloads_def sample_staging_env_def sample_signer_def SIGNATURE_ALGORITHM_def canonical_bytes_def ok_or_def)
      (simp add: sample_unsealed_def sample_manifest_def manifest_new_def)
  then have s: "seal sample_staging_env ?self sample_unsealed ''2024-01-02T03:04:05Z'' sample_signer \<lparr>sa_world = quiet d, sa_pending = ps, sa_staging = x\<rparr>
      = (Inr sealed, \<lparr>sa_world = quiet w2, sa_pending = ps, sa_staging = x\<rparr>)"
    by (simp add: seal_def do_match_def on_disk_def)
  then show ?thesis by blast
qed

lemma sealed_backup_verifies_witness:
  "\<exists>sealed s' m. seal sample_staging_env \<lparr>sb_run_id = ''r1'', sb_path = [''staging'', ''r1'']\<rparr> sample_unsealed ''2024-01-02T03:04:05Z'' sample_signer
       \<lparr>sa_world = quiet sample_staged, sa_pending = [], sa_staging = None\<rparr> = (Inr sealed, s') \<and>
     load_verified_manifest (lr_env sample_local_repository) (verify_manifest sample_signer) (sl_path sealed) (quiet (disk (sa_world s'))) = (Inr m, quiet (disk (sa_world s')))"
proof -
  let ?self = "\<lparr>sb_run_id = ''r1'', sb_path = [''staging'', ''r1'']\<rparr>" and ?renv = "lr_env sample_local_repository"
  have hash: "hex (replicate 32 170) = replicate 64 (ascii_lower CHR ''a'')" by code_simp
  have tree: "verify_payload_tree (re_sha256 ?renv) [''staging'', ''r1''] sample_unsealed (quiet sample_staged) = (Inr (), quiet sample_staged)"
    by (simp add: hash verify_payload_tree_def collect_payload_files_def Let_def do_then_def do_map_err_def ensure_directory_def quiet_simps walk_payload.simps
      sample_local_repository_def sample_staged_def sample_unsealed_def sample_manifest_def manifest_new_def entry_at_def children_def map_filter_simps ok_or_def strip_root_def
      hash_file_def verify_payload_entry_def payload_file_def MAX_PAYLOAD_DEPTH_def MAX_PAYLOAD_FILES_def)
  have st: "entry_at sample_staged [''staging'', ''r1'', x] = None" if "x \<in> {''manifest.json'', ''manifest.json.tmp'', ''manifest.sig'', ''manifest.sig.tmp''}" for x
    using that by (auto simp: sample_staged_def entry_at_def)
  have e: "entry_at sample_staged [''staging'', ''r1''] = Some FsDir" "entry_at sample_staged [''staging'', ''r1'', ''reports''] = Some FsDir"
    "entry_at sample_staged [''backups''] = Some FsDir" "entry_at sample_staged [''backups'', ''b1''] = None"
    "entry_at sample_staged [''staging'', ''r1'', ''reports'', ''verification.json''] = None" "entry_at sample_staged [''staging'', ''r1'', ''reports'', ''verification.json.tmp''] = None"
    by (simp_all add: sample_staged_def entry_at_def)
  obtain sealed w2 where s: "seal sample_staging_env ?self sample_unsealed ''2024-01-02T03:04:05Z'' sample_signer \<lparr>sa_world = quiet sample_staged, sa_pending = [], sa_staging = None\<rparr>
      = (Inr sealed, \<lparr>sa_world = quiet w2, sa_pending = [], sa_staging = None\<rparr>)"
    using sample_seal [OF tree st e, of "[]" None] by blast
  have i: "backup_id_parse (mf_backup_id sample_unsealed) = Inr (mf_backup_id sample_unsealed)" by code_simp
  have "\<exists>m. load_verified_manifest ?renv (verify_manifest sample_signer) (sl_path sealed) (quiet w2) = (Inr m, quiet w2)"
    using sealed_backup_verifies [OF _ _ _ i _ s, of "verify_manifest sample_signer"]
    by (force simp: staging_root_def sample_staging_env_def sample_local_repository_def two_documents_ok verify_manifest_def quiet_simps)
  then show ?thesis using s by (auto simp: quiet_simps)
qed

end
