(* ===== verification/Capture.thy ===== *)
theory Capture
  imports Staging Plans
begin

text \<open>
  \<^verbatim>\<open>crates/guardian-core/src/{capture,embedded_database,storage,archive,audit}.rs\<close>: the use cases that
  capture a directory tree or an embedded database through the storage, transport, inspection and
  audit ports and seal the result. The locale \<open>storage_run\<close> is what the use cases need of the storage
  port; it is interpreted on the adapter of the local repository, so that the last section follows a
  capture down to the sealed backup on disk.
\<close>

section \<open>Definitions\<close>

datatype capture_request_error =
    CaptureInvalidRoots | CaptureProfileMismatch | CaptureInvalidProfile | PreflightFailed
  | CaptureInvalidPayloadPath | InvalidDatabasePath | DatabaseRequestMismatch

datatype capture_port_error = CaptureTransport | CaptureCredential

datatype capture_use_case_error =
    RequestError capture_request_error
  | CaptureError capture_port_error
  | StorageError storage_port_error
  | InsufficientRepositorySpace u64 u64
  | ArchiveRejected
  | ManifestFailed manifest_error
  | RecoveryKeyRequired

datatype capture_audit_code = AuditTransport | AuditArchivePolicy | AuditDatabasePolicy | AuditStorage

datatype archive_inspection_port_error = InspectionRejected

record filesystem_capture_request =
  cr_run_id :: run_id
  cr_profile_id :: profile_id
  cr_roots :: "string list"
  cr_payload_path :: payload_path

record filesystem_backup_request =
  br_capture :: filesystem_capture_request
  br_manifest :: manifest
  br_sealed_at :: timestamp

record embedded_database_capture_request =
  dr_run_id :: run_id
  dr_profile_id :: profile_id
  dr_database_path :: string
  dr_payload_path :: payload_path

record embedded_database_backup_request =
  db_capture :: embedded_database_capture_request
  db_manifest :: manifest
  db_sealed_at :: timestamp

text \<open>\<open>BackupStoragePort\<close>; a sealed backup is named by its id.\<close>

record 's storage_port =
  st_begin :: "run_id \<Rightarrow> ('s, storage_port_error, unit) action"
  st_reserve :: "payload_path \<Rightarrow> ('s, storage_port_error, path) action"
  st_register :: "string \<Rightarrow> payload_path \<Rightarrow> string \<Rightarrow> ('s, storage_port_error, payload_entry) action"
  st_seal :: "manifest \<Rightarrow> timestamp \<Rightarrow> manifest_signer \<Rightarrow> ('s, storage_port_error, backup_id) action"
  st_discard :: "run_id \<Rightarrow> ('s, storage_port_error, unit) action"

text \<open>The ports of a use case over requests \<open>'r\<close>.\<close>

record ('s, 'r) capture_use_case =
  uc_capture :: "'r \<Rightarrow> path \<Rightarrow> ('s, capture_port_error, unit) action"
  uc_storage :: "'s storage_port"
  uc_inspect :: "path \<Rightarrow> ('s, archive_inspection_port_error, unit) action"
  uc_audit :: "run_id \<Rightarrow> capture_audit_code \<Rightarrow> 's \<Rightarrow> 's"

type_synonym ('s, 'a) capturing = "('s, capture_use_case_error, 'a) action"

definition filesystem_capture_request_validate :: "filesystem_capture_request \<Rightarrow> capture_request_error + unit" where
  "filesystem_capture_request_validate self =
     ok_if (cr_roots self \<noteq> [] \<and> length (cr_roots self) \<le> 32 \<and> list_all valid_remote_root (cr_roots self)) () CaptureInvalidRoots"

definition database_capture_request_validate :: "embedded_database_capture_request \<Rightarrow> capture_request_error + unit" where
  "database_capture_request_validate self =
     ok_if (dr_database_path self \<noteq> ''/'' \<and> valid_remote_root (dr_database_path self)) () InvalidDatabasePath"

text \<open>The \<open>fail\<close> methods: audit, discard the run, then the error (or the one of the discard).\<close>

definition capture_fail :: "('s, 'r) capture_use_case \<Rightarrow> run_id \<Rightarrow> capture_audit_code \<Rightarrow> capture_use_case_error \<Rightarrow> ('s, 'a) capturing" where
  "capture_fail self run_id audit_code err s =
     do_then (do_map_err StorageError (st_discard (uc_storage self) run_id)) (\<lambda>_. do_fail err) (uc_audit self run_id audit_code s)"

definition filesystem_capture_execute :: "('s, filesystem_capture_request) capture_use_case \<Rightarrow> filesystem_capture_request \<Rightarrow> ('s, payload_entry) capturing" where
  "filesystem_capture_execute self request =
     do_then (do_lift (map_err RequestError (filesystem_capture_request_validate request))) (\<lambda>_.
     do_then (do_map_err StorageError (st_begin (uc_storage self) (cr_run_id request))) (\<lambda>_.
     do_match (st_reserve (uc_storage self) (cr_payload_path request)) (\<lambda>r.
     case r of
       Inl err \<Rightarrow> capture_fail self (cr_run_id request) AuditStorage (StorageError err)
     | Inr destination \<Rightarrow>
         do_match (uc_capture self request destination) (\<lambda>r.
         case r of
           Inl err \<Rightarrow> capture_fail self (cr_run_id request) AuditTransport (CaptureError err)
         | Inr _ \<Rightarrow>
             do_match (uc_inspect self destination) (\<lambda>r.
             case r of
               Inl _ \<Rightarrow> capture_fail self (cr_run_id request) AuditArchivePolicy ArchiveRejected
             | Inr _ \<Rightarrow>
                 do_match (st_register (uc_storage self) ''filesystem'' (cr_payload_path request) ''application/zstd'') (\<lambda>r.
                 case r of
                   Inr payload \<Rightarrow> do_return payload
                 | Inl err \<Rightarrow> capture_fail self (cr_run_id request) AuditStorage (StorageError err)))))))"

definition filesystem_backup_execute ::
  "('s, filesystem_capture_request) capture_use_case \<Rightarrow> manifest_signer \<Rightarrow> filesystem_backup_request \<Rightarrow> ('s, backup_id) capturing" where
  "filesystem_backup_execute self signer request =
     do_then (filesystem_capture_execute self (br_capture request)) (\<lambda>payload.
       let run_id = cr_run_id (br_capture request); manifest = br_manifest request in
       if mf_run_id manifest \<noteq> run_id then capture_fail self run_id AuditStorage (ManifestFailed NotSealed)
       else
         case add_payload manifest payload of
           Inl err \<Rightarrow> capture_fail self run_id AuditStorage (ManifestFailed err)
         | Inr manifest \<Rightarrow>
             do_match (st_seal (uc_storage self) manifest (br_sealed_at request) signer) (\<lambda>r.
             case r of
               Inr sealed \<Rightarrow> do_return sealed
             | Inl err \<Rightarrow> \<lambda>s.
                 do_match (st_discard (uc_storage self) run_id) (\<lambda>_. do_fail (StorageError err)) (uc_audit self run_id AuditStorage s)))"

definition database_capture_within_staging ::
  "('s, embedded_database_capture_request) capture_use_case \<Rightarrow> embedded_database_capture_request \<Rightarrow> ('s, payload_entry) capturing" where
  "database_capture_within_staging self request =
     do_then (do_lift (map_err RequestError (database_capture_request_validate request))) (\<lambda>_.
     do_match (st_reserve (uc_storage self) (dr_payload_path request)) (\<lambda>r.
     case r of
       Inl err \<Rightarrow> capture_fail self (dr_run_id request) AuditStorage (StorageError err)
     | Inr destination \<Rightarrow>
         do_match (uc_capture self request destination) (\<lambda>r.
         case r of
           Inl err \<Rightarrow> capture_fail self (dr_run_id request) AuditTransport (CaptureError err)
         | Inr _ \<Rightarrow>
             do_match (uc_inspect self destination) (\<lambda>r.
             case r of
               Inl _ \<Rightarrow> capture_fail self (dr_run_id request) AuditDatabasePolicy ArchiveRejected
             | Inr _ \<Rightarrow>
                 do_match (st_register (uc_storage self) ''database'' (dr_payload_path request) ''application/vnd.sqlite3+zstd'') (\<lambda>r.
                 case r of
                   Inr payload \<Rightarrow> do_return payload
                 | Inl err \<Rightarrow> capture_fail self (dr_run_id request) AuditStorage (StorageError err))))))"

definition database_capture_execute ::
  "('s, embedded_database_capture_request) capture_use_case \<Rightarrow> embedded_database_capture_request \<Rightarrow> ('s, payload_entry) capturing" where
  "database_capture_execute self request =
     do_then (do_lift (map_err RequestError (database_capture_request_validate request))) (\<lambda>_.
     do_then (do_map_err StorageError (st_begin (uc_storage self) (dr_run_id request))) (\<lambda>_.
     database_capture_within_staging self request))"

definition database_backup_execute ::
  "('s, embedded_database_capture_request) capture_use_case \<Rightarrow> manifest_signer \<Rightarrow> embedded_database_backup_request \<Rightarrow> ('s, backup_id) capturing" where
  "database_backup_execute self signer request =
     do_then (database_capture_execute self (db_capture request)) (\<lambda>payload.
       let run_id = dr_run_id (db_capture request); manifest = db_manifest request in
       if mf_run_id manifest \<noteq> run_id then capture_fail self run_id AuditStorage (ManifestFailed NotSealed)
       else
         case add_payload manifest payload of
           Inl err \<Rightarrow> capture_fail self run_id AuditStorage (ManifestFailed err)
         | Inr manifest \<Rightarrow>
             do_match (st_seal (uc_storage self) manifest (db_sealed_at request) signer) (\<lambda>r.
             case r of
               Inr sealed \<Rightarrow> do_return sealed
             | Inl err \<Rightarrow> \<lambda>s.
                 do_match (st_discard (uc_storage self) run_id) (\<lambda>_. do_fail (StorageError err)) (uc_audit self run_id AuditStorage s)))"

subsection \<open>The use cases on the local repository\<close>

text \<open>The state of the storage adapter and the records the audit port has received.\<close>

type_synonym session = "run_state \<times> (run_id \<times> capture_audit_code) list"

definition with_storage :: "(run_state, 'e, 'a) action \<Rightarrow> (session, 'e, 'a) action" where
  "with_storage m s = (case m (fst s) of (r, t) \<Rightarrow> (r, (t, snd s)))"

definition local_storage_port :: "staging_env \<Rightarrow> encryption_context option \<Rightarrow> (string \<Rightarrow> payload_randomness) \<Rightarrow> session storage_port" where
  "local_storage_port env encryption random =
     \<lparr>st_begin = \<lambda>run_id. with_storage (adapter_begin env run_id),
      st_reserve = \<lambda>path. with_storage (adapter_reserve path),
      st_register = \<lambda>role path media_type. with_storage (adapter_register_payload_path env encryption role path media_type (random role)),
      st_seal = \<lambda>manifest sealed_at signer. with_storage (adapter_seal env manifest sealed_at signer),
      st_discard = \<lambda>_. with_storage (adapter_discard env)\<rparr>"

definition local_use_case ::
  "staging_env \<Rightarrow> encryption_context option \<Rightarrow> (string \<Rightarrow> payload_randomness) \<Rightarrow>
   ('r \<Rightarrow> path \<Rightarrow> (world, capture_port_error, unit) action) \<Rightarrow> (path \<Rightarrow> (world, archive_inspection_port_error, unit) action) \<Rightarrow>
   (session, 'r) capture_use_case" where
  "local_use_case env encryption random capture inspect =
     \<lparr>uc_capture = \<lambda>request destination. with_storage (on_disk (capture request destination)),
      uc_storage = local_storage_port env encryption random,
      uc_inspect = \<lambda>destination. with_storage (on_disk (inspect destination)),
      uc_audit = \<lambda>run_id audit_code s. (fst s, snd s @ [(run_id, audit_code)])\<rparr>"

section \<open>What the use cases need of the storage port\<close>

text \<open>The record a failure leaves: exactly one, with the code of the stage that failed; none when the
  request was refused or the run could not be opened.\<close>

definition failure_recorded :: "run_id \<Rightarrow> capture_use_case_error \<Rightarrow> (run_id \<times> capture_audit_code) list \<Rightarrow> bool" where
  "failure_recorded run_id err added \<longleftrightarrow>
     (case err of
        RequestError _ \<Rightarrow> added = []
      | CaptureError _ \<Rightarrow> added = [(run_id, AuditTransport)]
      | ArchiveRejected \<Rightarrow> added = [(run_id, AuditArchivePolicy)] \<or> added = [(run_id, AuditDatabasePolicy)]
      | ManifestFailed _ \<Rightarrow> added = [(run_id, AuditStorage)]
      | _ \<Rightarrow> added = [] \<or> (\<exists>audit_code. added = [(run_id, audit_code)]))"

text \<open>The other ports leave the run and the trail alone, and an audit is appended.\<close>

definition run_ports :: "'s storage_port \<Rightarrow> ('s \<Rightarrow> run_id option) \<Rightarrow> ('s \<Rightarrow> (run_id \<times> capture_audit_code) list) \<Rightarrow> ('s, 'r) capture_use_case \<Rightarrow> bool" where
  "run_ports port open_run trail uc \<longleftrightarrow> uc_storage uc = port \<and>
     (\<forall>request destination x l. triple (\<lambda>s. open_run s = x \<and> trail s = l) (uc_capture uc request destination)
        (\<lambda>_ s. open_run s = x \<and> trail s = l) (\<lambda>_ s. open_run s = x \<and> trail s = l)) \<and>
     (\<forall>destination x l. triple (\<lambda>s. open_run s = x \<and> trail s = l) (uc_inspect uc destination)
        (\<lambda>_ s. open_run s = x \<and> trail s = l) (\<lambda>_ s. open_run s = x \<and> trail s = l)) \<and>
     (\<forall>run_id audit_code s. open_run (uc_audit uc run_id audit_code s) = open_run s \<and> trail (uc_audit uc run_id audit_code s) = trail s @ [(run_id, audit_code)])"

definition run_failed ::
  "('s \<Rightarrow> run_id option) \<Rightarrow> ('s \<Rightarrow> (run_id \<times> capture_audit_code) list) \<Rightarrow> (run_id \<times> capture_audit_code) list \<Rightarrow> run_id \<Rightarrow> capture_use_case_error \<Rightarrow> 's \<Rightarrow> bool" where
  "run_failed open_run trail l run_id err s \<longleftrightarrow>
     open_run s = None \<and> (\<exists>added. trail s = l @ added \<and> failure_recorded run_id err added)"

locale storage_run =
  fixes port :: "'s storage_port" and open_run :: "'s \<Rightarrow> run_id option" and trail :: "'s \<Rightarrow> (run_id \<times> capture_audit_code) list"
  assumes begin_run: "triple (\<lambda>s. open_run s = None \<and> trail s = l) (st_begin port run_id)
      (\<lambda>_ s. open_run s = Some run_id \<and> trail s = l) (\<lambda>_ s. open_run s = None \<and> trail s = l)"
    and reserve_run: "triple (\<lambda>s. open_run s = x \<and> trail s = l) (st_reserve port path)
      (\<lambda>_ s. open_run s = x \<and> trail s = l) (\<lambda>_ s. open_run s = x \<and> trail s = l)"
    and register_run: "triple (\<lambda>s. open_run s = x \<and> trail s = l) (st_register port role path media_type)
      (\<lambda>_ s. open_run s = x \<and> trail s = l) (\<lambda>_ s. open_run s = x \<and> trail s = l)"
    and seal_run: "triple (\<lambda>s. open_run s = x \<and> trail s = l) (st_seal port manifest sealed_at signer)
      (\<lambda>_ s. open_run s = None \<and> trail s = l) (\<lambda>_ s. open_run s = None \<and> trail s = l)"
    and discard_run: "triple (\<lambda>s. open_run s = x \<and> trail s = l) (st_discard port run_id)
      (\<lambda>_ s. open_run s = None \<and> trail s = l) (\<lambda>_ s. open_run s = None \<and> trail s = l)"
begin

lemma fail_run:
  assumes "run_ports port open_run trail uc" "failure_recorded run_id err [(run_id, audit_code)]"
  shows "triple (\<lambda>s. open_run s = x \<and> trail s = l) (capture_fail uc run_id audit_code err) Q (run_failed open_run trail l run_id)"
proof -
  have "triple (\<lambda>s. open_run s = x \<and> trail s = l @ [(run_id, audit_code)])
      (do_then (do_map_err StorageError (st_discard port run_id)) (\<lambda>_. do_fail err)) Q (run_failed open_run trail l run_id)"
  proof (rule triple_then)
    show "triple (\<lambda>s. open_run s = x \<and> trail s = l @ [(run_id, audit_code)]) (do_map_err StorageError (st_discard port run_id))
        (\<lambda>_ s. open_run s = None \<and> trail s = l @ [(run_id, audit_code)]) (run_failed open_run trail l run_id)"
      by (rule triple_map_err, rule triple_weaken [OF discard_run]) (auto simp: run_failed_def failure_recorded_def)
    show "triple (\<lambda>s. open_run s = None \<and> trail s = l @ [(run_id, audit_code)]) (do_fail err) Q (run_failed open_run trail l run_id)"
      using assms(2) by (auto simp: triple_def run_failed_def)
  qed
  then show ?thesis
    using assms(1) unfolding triple_def run_ports_def capture_fail_def by auto
qed

lemma refused_request:
  "open_run s = None \<and> trail s = l \<Longrightarrow> run_failed open_run trail l run_id (RequestError e) s"
  "open_run s = None \<and> trail s = l \<Longrightarrow> run_failed open_run trail l run_id (StorageError f) s"
  by (auto simp: run_failed_def failure_recorded_def)

text \<open>The part both captures share: from the reserved destination to the registered payload.\<close>

lemma payload_run:
  assumes uc: "run_ports port open_run trail uc" and c: "policy = AuditArchivePolicy \<or> policy = AuditDatabasePolicy"
  shows "triple (\<lambda>s. open_run s = Some run_id \<and> trail s = l)
    (do_match (st_reserve (uc_storage uc) payload_path) (\<lambda>r.
     case r of
       Inl err \<Rightarrow> capture_fail uc run_id AuditStorage (StorageError err)
     | Inr destination \<Rightarrow>
         do_match (uc_capture uc request destination) (\<lambda>r.
         case r of
           Inl err \<Rightarrow> capture_fail uc run_id AuditTransport (CaptureError err)
         | Inr _ \<Rightarrow>
             do_match (uc_inspect uc destination) (\<lambda>r.
             case r of
               Inl _ \<Rightarrow> capture_fail uc run_id policy ArchiveRejected
             | Inr _ \<Rightarrow>
                 do_match (st_register (uc_storage uc) role payload_path media_type) (\<lambda>r.
                 case r of
                   Inr payload \<Rightarrow> do_return payload
                 | Inl err \<Rightarrow> capture_fail uc run_id AuditStorage (StorageError err))))))
    (\<lambda>_ s. open_run s = Some run_id \<and> trail s = l) (run_failed open_run trail l run_id)"
    (is "triple ?P _ ?Q ?E")
proof -
  note step = triple_match [where E = "run_failed open_run trail l run_id"]
  have port: "uc_storage uc = port" using uc by (simp add: run_ports_def)
  have cap: "triple ?P (uc_capture uc request destination) (\<lambda>_. ?P) (\<lambda>_. ?P)"
    and ins: "triple ?P (uc_inspect uc destination) (\<lambda>_. ?P) (\<lambda>_. ?P)" for destination
    using uc by (simp_all add: run_ports_def)
  note fail = fail_run [OF uc, of run_id _ _ "Some run_id" l, unfolded failure_recorded_def, simplified]
  have f3: "triple ?P (capture_fail uc run_id policy ArchiveRejected) ?Q ?E"
    by (rule fail_run [OF uc]) (use c in \<open>auto simp: failure_recorded_def\<close>)
  have reg: "triple ?P (do_match (st_register (uc_storage uc) role payload_path media_type) (\<lambda>r.
        case r of Inr payload \<Rightarrow> do_return payload | Inl err \<Rightarrow> capture_fail uc run_id AuditStorage (StorageError err))) ?Q ?E"
    unfolding port by (rule step [OF register_run]) (simp_all add: fail triple_done)
  show ?thesis
    unfolding port [symmetric]
    by (rule step [OF reserve_run [folded port]], simp_all add: fail,
      rule step [OF cap], simp_all add: fail, rule step [OF ins], simp_all add: f3 reg)
qed

lemma filesystem_capture_run:
  assumes uc: "run_ports port open_run trail uc"
  shows "triple (\<lambda>s. open_run s = None \<and> trail s = l) (filesystem_capture_execute uc request)
    (\<lambda>_ s. open_run s = Some (cr_run_id request) \<and> trail s = l) (run_failed open_run trail l (cr_run_id request))"
proof -
  have port: "uc_storage uc = port" using uc by (simp add: run_ports_def)
  show ?thesis
    unfolding filesystem_capture_execute_def
    by (rule triple_lift, rule triple_then, unfold port, rule triple_map_err, rule triple_weaken [OF begin_run], assumption, assumption, rule refused_request, assumption,
      fold port, rule payload_run [OF uc], simp) (auto intro: refused_request)
qed

lemma database_capture_run:
  assumes uc: "run_ports port open_run trail uc" and v: "database_capture_request_validate request = Inr ()" and run: "run_id = dr_run_id request"
  shows "triple (\<lambda>s. open_run s = Some run_id \<and> trail s = l) (database_capture_within_staging uc request)
    (\<lambda>_ s. open_run s = Some run_id \<and> trail s = l) (run_failed open_run trail l run_id)"
  unfolding database_capture_within_staging_def run
  by (rule triple_lift, rule payload_run [OF uc], simp) (simp add: v)

lemma database_run:
  assumes uc: "run_ports port open_run trail uc"
  shows "triple (\<lambda>s. open_run s = None \<and> trail s = l) (database_capture_execute uc request)
    (\<lambda>_ s. open_run s = Some (dr_run_id request) \<and> trail s = l) (run_failed open_run trail l (dr_run_id request))"
proof -
  have port: "uc_storage uc = port" using uc by (simp add: run_ports_def)
  show ?thesis
    unfolding database_capture_execute_def
    by (rule triple_lift, rule triple_then, unfold port, rule triple_map_err, rule triple_weaken [OF begin_run], assumption, assumption, rule refused_request, assumption,
      rule database_capture_run [OF uc _ refl], simp) (auto intro: refused_request)
qed

text \<open>The part the backups share: the payload joins the manifest, which is sealed.\<close>

lemma seal_run_tail:
  assumes uc: "run_ports port open_run trail uc"
  shows "triple (\<lambda>s. open_run s = Some run_id \<and> trail s = l)
    (if mf_run_id manifest \<noteq> run_id then capture_fail uc run_id AuditStorage (ManifestFailed NotSealed)
     else
       case add_payload manifest payload of
         Inl err \<Rightarrow> capture_fail uc run_id AuditStorage (ManifestFailed err)
       | Inr manifest \<Rightarrow>
           do_match (st_seal (uc_storage uc) manifest sealed_at signer) (\<lambda>r.
           case r of
             Inr sealed \<Rightarrow> do_return sealed
           | Inl err \<Rightarrow> \<lambda>s.
               do_match (st_discard (uc_storage uc) run_id) (\<lambda>_. do_fail (StorageError err)) (uc_audit uc run_id AuditStorage s)))
    (\<lambda>_ s. open_run s = None \<and> trail s = l) (run_failed open_run trail l run_id)"
    (is "triple ?P _ ?Q ?E")
proof -
  have port: "uc_storage uc = port" using uc by (simp add: run_ports_def)
  have audit: "open_run (uc_audit uc r c s) = open_run s" "trail (uc_audit uc r c s) = trail s @ [(r, c)]" for r c s
    using uc by (simp_all add: run_ports_def)
  have fail: "triple ?P (capture_fail uc run_id AuditStorage (ManifestFailed e)) ?Q ?E" for e
    by (rule fail_run [OF uc]) (simp add: failure_recorded_def)
  have "triple (\<lambda>s. open_run s = None \<and> trail s = l @ [(run_id, AuditStorage)])
      (do_match (st_discard port run_id) (\<lambda>_. do_fail (StorageError err))) ?Q ?E" for err
    by (rule triple_match [OF discard_run]) (auto simp: triple_def run_failed_def failure_recorded_def)
  then have err: "triple (\<lambda>s. open_run s = None \<and> trail s = l)
      (\<lambda>s. do_match (st_discard port run_id) (\<lambda>_. do_fail (StorageError err)) (uc_audit uc run_id AuditStorage s)) ?Q ?E" for err
    unfolding triple_def using audit by simp
  have "triple ?P (do_match (st_seal port m sealed_at signer) (\<lambda>r. case r of Inr sealed \<Rightarrow> do_return sealed
      | Inl err \<Rightarrow> \<lambda>s. do_match (st_discard port run_id) (\<lambda>_. do_fail (StorageError err)) (uc_audit uc run_id AuditStorage s))) ?Q ?E" for m
    by (rule triple_match [OF seal_run]) (simp_all add: err triple_done)
  then show ?thesis
    using fail unfolding port by (auto split: sum.split)
qed

lemma filesystem_backup_run:
  assumes "run_ports port open_run trail uc"
  shows "triple (\<lambda>s. open_run s = None \<and> trail s = l) (filesystem_backup_execute uc signer request)
    (\<lambda>_ s. open_run s = None \<and> trail s = l) (run_failed open_run trail l (cr_run_id (br_capture request)))"
  unfolding filesystem_backup_execute_def Let_def
  by (rule triple_then [OF filesystem_capture_run [OF assms]], rule seal_run_tail [OF assms])

lemma database_backup_run:
  assumes "run_ports port open_run trail uc"
  shows "triple (\<lambda>s. open_run s = None \<and> trail s = l) (database_backup_execute uc signer request)
    (\<lambda>_ s. open_run s = None \<and> trail s = l) (run_failed open_run trail l (dr_run_id (db_capture request)))"
  unfolding database_backup_execute_def Let_def
  by (rule triple_then [OF database_run [OF assms]], rule seal_run_tail [OF assms])

end

section \<open>The adapter of the local repository\<close>

definition open_session :: "session \<Rightarrow> run_id option" where
  "open_session s = map_option sb_run_id (sa_staging (fst s))"

lemma triple_with_storage:
  assumes "triple (\<lambda>t. P t) m (\<lambda>x t. Q x t) (\<lambda>e t. E e t)"
  shows "triple (\<lambda>s. P (fst s) \<and> snd s = l) (with_storage m) (\<lambda>x s. Q x (fst s) \<and> snd s = l) (\<lambda>e s. E e (fst s) \<and> snd s = l)"
  using assms unfolding triple_def with_storage_def by (fastforce split: prod.splits sum.splits)

lemma on_disk_staging: "triple (\<lambda>t. sa_staging t = x) (on_disk m) (\<lambda>_ t. sa_staging t = x) (\<lambda>_ t. sa_staging t = x)"
  by (auto simp: triple_def on_disk_def split: prod.splits sum.splits)

lemma delete_pending_staging: "triple (\<lambda>t. sa_staging t = x) delete_pending_credentials (\<lambda>_ t. sa_staging t = x) (\<lambda>_ t. sa_staging t = x)"
  by (simp add: triple_def delete_pending_credentials_def)

text \<open>An operation that keeps the held run keeps it through every sequence and choice.\<close>

definition keeps_staging :: "(run_state, 'e, 'a) action \<Rightarrow> bool" where
  "keeps_staging m \<longleftrightarrow> (\<forall>s. sa_staging (snd (m s)) = sa_staging s)"

named_theorems keeps \<open>actions that keep the held run\<close>

lemma keeps_basic [keeps]:
  "keeps_staging (on_disk m)" "keeps_staging delete_pending_credentials" "keeps_staging (do_return x)"
  "keeps_staging (do_fail e)" "keeps_staging (do_lift r)"
  by (simp_all add: keeps_staging_def on_disk_def delete_pending_credentials_def split: prod.splits)

lemma keeps_then [keeps]: "keeps_staging m \<Longrightarrow> (\<And>x. keeps_staging (f x)) \<Longrightarrow> keeps_staging (do_then m f)"
  unfolding keeps_staging_def do_then_def by (metis (mono_tags, lifting) case_prod_unfold old.sum.exhaust old.sum.simps(5) old.sum.simps(6) snd_conv)

lemma keeps_match [keeps]: "keeps_staging m \<Longrightarrow> (\<And>r. keeps_staging (f r)) \<Longrightarrow> keeps_staging (do_match m f)"
  unfolding keeps_staging_def do_match_def by (metis (mono_tags, lifting) case_prod_unfold)

lemma keeps_map_err [keeps]: "keeps_staging m \<Longrightarrow> keeps_staging (do_map_err g m)"
  unfolding keeps_staging_def do_map_err_def by (metis (mono_tags, lifting) case_prod_unfold snd_conv)

lemma keeps_staging_ops [keeps]:
  "keeps_staging (begin_staging env run_id)" "keeps_staging (staging_discard env self)" "keeps_staging (seal env self manifest sealed_at signer)"
  "keeps_staging (encrypt_and_register_payload_file env self role path media_type backup_id secrets random)"
proof -
  show "keeps_staging (begin_staging env run_id)"
    unfolding begin_staging_def Let_def by (intro keeps) (simp add: keeps_staging_def)
  show "keeps_staging (staging_discard env self)"
    unfolding staging_discard_def Let_def by (intro keeps)
  show "keeps_staging (seal env self manifest sealed_at signer)"
    unfolding seal_def by (intro keeps) (auto intro!: keeps split: sum.split)
  have "keeps_staging (case m of FsFile b \<Rightarrow> do_return () | _ \<Rightarrow> do_fail e)" for m e
    by (cases m) (simp_all add: keeps)
  moreover have "keeps_staging (\<lambda>s. (Inr (), s\<lparr>sa_pending := f s\<rparr>))" for f by (simp add: keeps_staging_def)
  ultimately show "keeps_staging (encrypt_and_register_payload_file env self role path media_type backup_id secrets random)"
    unfolding encrypt_and_register_payload_file_def Let_def by (intro keeps) simp_all
qed

lemma keeps_triple: "keeps_staging m \<Longrightarrow> triple (\<lambda>t. map_option sb_run_id (sa_staging t) = x) m (\<lambda>_ t. map_option sb_run_id (sa_staging t) = x) (\<lambda>_ t. map_option sb_run_id (sa_staging t) = x)"
  by (rule tripleI) (metis keeps_staging_def snd_conv)+

lemma with_storage_run:
  assumes "triple (\<lambda>t. map_option sb_run_id (sa_staging t) = x) m (\<lambda>_ t. map_option sb_run_id (sa_staging t) = y) (\<lambda>_ t. map_option sb_run_id (sa_staging t) = z)"
  shows "triple (\<lambda>s. open_session s = x \<and> snd s = l) (with_storage m) (\<lambda>_ s. open_session s = y \<and> snd s = l) (\<lambda>_ s. open_session s = z \<and> snd s = l)"
  using triple_with_storage [OF assms, of l] by (simp add: open_session_def)

lemma with_storage_keeps:
  "keeps_staging m \<Longrightarrow> triple (\<lambda>s. open_session s = x \<and> snd s = l) (with_storage m) (\<lambda>_ s. open_session s = x \<and> snd s = l) (\<lambda>_ s. open_session s = x \<and> snd s = l)"
  by (rule with_storage_run [OF keeps_triple])

lemma seal_id: "Staging.seal env self manifest sealed_at signer s = (Inr sealed, t) \<Longrightarrow> sl_backup_id sealed = mf_backup_id manifest"
  by (auto simp: seal_def do_match_def on_disk_def seal_inner_def Let_def do_then_ok prepare_for_seal_ok publish_backup_def
    split: prod.splits sum.splits if_splits)

lemma begin_staging_ok:
  assumes "begin_staging env run_id s = (Inr staging, t)"
  shows "staging = \<lparr>sb_run_id = run_id, sb_path = staging_root @ [run_id]\<rparr>" "sa_staging t = sa_staging s"
  using assms by (auto simp: begin_staging_def Let_def do_then_ok on_disk_def split: prod.splits)

lemma keeps_current_staging [keeps]: "keeps_staging current_staging"
  by (simp add: keeps_staging_def current_staging_def)

lemma adapter_begin_run:
  "triple (\<lambda>t. map_option sb_run_id (sa_staging t) = None) (adapter_begin env run_id)
     (\<lambda>_ t. map_option sb_run_id (sa_staging t) = Some run_id) (\<lambda>_ t. map_option sb_run_id (sa_staging t) = None)"
proof (rule tripleI)
  fix s x t assume s: "map_option sb_run_id (sa_staging s) = None" and run: "adapter_begin env run_id s = (Inr x, t)"
  then show "map_option sb_run_id (sa_staging t) = Some run_id"
    using begin_staging_ok(1) by (fastforce simp: adapter_begin_def do_then_ok)
next
  fix s e t assume s: "map_option sb_run_id (sa_staging s) = None" and run: "adapter_begin env run_id s = (Inl e, t)"
  then obtain f where "begin_staging env run_id s = (Inl f, t)"
    by (auto simp: adapter_begin_def do_then_err do_map_err_err split: if_splits)
  then show "map_option sb_run_id (sa_staging t) = None"
    using s keeps_staging_ops(1) [of env run_id, unfolded keeps_staging_def, rule_format, of s] by simp
qed

lemma take_staging_none: "triple P take_staging (\<lambda>_ t. sa_staging t = None) (\<lambda>_ t. sa_staging t = None)"
  by (simp add: triple_def take_staging_def)

lemma keeps_none: "keeps_staging m \<Longrightarrow> triple (\<lambda>t. sa_staging t = None) m (\<lambda>_ t. sa_staging t = None) (\<lambda>_ t. sa_staging t = None)"
  using keeps_triple [of m None] by simp

lemma adapter_seal_run: "triple P (adapter_seal env manifest sealed_at signer) (\<lambda>_ t. sa_staging t = None) (\<lambda>_ t. sa_staging t = None)"
  unfolding adapter_seal_def by (rule triple_then [OF take_staging_none keeps_none]) (intro keeps)

lemma adapter_discard_run: "triple P (adapter_discard env) (\<lambda>_ t. sa_staging t = None) (\<lambda>_ t. sa_staging t = None)"
  unfolding adapter_discard_def
  by (rule triple_then [OF take_staging_none keeps_none]) (auto intro!: keeps split: option.split)

lemma adapter_reserve_keeps: "keeps_staging (adapter_reserve path)"
  unfolding adapter_reserve_def by (intro keeps)

lemma local_register_keeps: "keeps_staging (adapter_register_payload_path env encryption role path media_type random)"
  unfolding adapter_register_payload_path_def by (intro keeps) (auto intro!: keeps split: option.split)

interpretation local_storage: storage_run "local_storage_port env encryption random" open_session snd for env encryption random
proof
  fix run_id :: run_id and l :: "(run_id \<times> capture_audit_code) list" and x :: "run_id option"
    and path :: payload_path and role media_type :: string and manifest :: manifest and sealed_at :: timestamp and signer :: manifest_signer
  let ?port = "local_storage_port env encryption random"
  show "triple (\<lambda>s. open_session s = None \<and> snd s = l) (st_begin ?port run_id)
      (\<lambda>_ s. open_session s = Some run_id \<and> snd s = l) (\<lambda>_ s. open_session s = None \<and> snd s = l)"
    unfolding local_storage_port_def storage_port.simps by (rule with_storage_run [OF adapter_begin_run])
  show "triple (\<lambda>s. open_session s = x \<and> snd s = l) (st_reserve ?port path) (\<lambda>_ s. open_session s = x \<and> snd s = l) (\<lambda>_ s. open_session s = x \<and> snd s = l)"
    unfolding local_storage_port_def storage_port.simps by (intro with_storage_keeps adapter_reserve_keeps)
  show "triple (\<lambda>s. open_session s = x \<and> snd s = l) (st_register ?port role path media_type) (\<lambda>_ s. open_session s = x \<and> snd s = l) (\<lambda>_ s. open_session s = x \<and> snd s = l)"
    unfolding local_storage_port_def storage_port.simps by (intro with_storage_keeps local_register_keeps)
  show "triple (\<lambda>s. open_session s = x \<and> snd s = l) (st_seal ?port manifest sealed_at signer) (\<lambda>_ s. open_session s = None \<and> snd s = l) (\<lambda>_ s. open_session s = None \<and> snd s = l)"
    unfolding local_storage_port_def storage_port.simps by (rule with_storage_run) (use adapter_seal_run in simp)
  show "triple (\<lambda>s. open_session s = x \<and> snd s = l) (st_discard ?port run_id) (\<lambda>_ s. open_session s = None \<and> snd s = l) (\<lambda>_ s. open_session s = None \<and> snd s = l)"
    unfolding local_storage_port_def storage_port.simps by (rule with_storage_run) (use adapter_discard_run in simp)
qed

lemma local_use_case_ports: "run_ports (local_storage_port env encryption random) open_session snd (local_use_case env encryption random capture inspect)"
  unfolding run_ports_def local_use_case_def
  by (simp add: open_session_def) (intro conjI allI with_storage_keeps [unfolded open_session_def] keeps)

section \<open>A successful capture\<close>

lemma capture_fail_never_ok: "capture_fail uc run_id audit_code err s \<noteq> (Inr x, t)"
  by (auto simp: capture_fail_def do_then_ok)

lemma match_value:
  "do_match m (\<lambda>r. case r of Inl e \<Rightarrow> f e | Inr x \<Rightarrow> g x) s = (Inr y, t) \<longleftrightarrow>
     (\<exists>x u. m s = (Inr x, u) \<and> g x u = (Inr y, t)) \<or> (\<exists>e u. m s = (Inl e, u) \<and> f e u = (Inr y, t))"
  by (cases "m s"; cases "fst (m s)") (auto simp: do_match_def)

lemma filesystem_capture_ok:
  assumes "filesystem_capture_execute uc request s = (Inr payload, t)"
  obtains destination u1 u2 u3 u4 where "filesystem_capture_request_validate request = Inr ()"
    "st_begin (uc_storage uc) (cr_run_id request) s = (Inr (), u1)" "st_reserve (uc_storage uc) (cr_payload_path request) u1 = (Inr destination, u2)"
    "uc_capture uc request destination u2 = (Inr (), u3)" "uc_inspect uc destination u3 = (Inr (), u4)"
    "st_register (uc_storage uc) ''filesystem'' (cr_payload_path request) ''application/zstd'' u4 = (Inr payload, t)"
  using assms
  by (auto simp: filesystem_capture_execute_def do_then_ok match_value capture_fail_never_ok)

lemma filesystem_backup_ok:
  assumes "filesystem_backup_execute uc signer request s = (Inr sealed, t)"
  obtains payload manifest u where "filesystem_capture_execute uc (br_capture request) s = (Inr payload, u)"
    "mf_run_id (br_manifest request) = cr_run_id (br_capture request)" "add_payload (br_manifest request) payload = Inr manifest"
    "st_seal (uc_storage uc) manifest (br_sealed_at request) signer u = (Inr sealed, t)"
proof -
  obtain payload u where cap: "filesystem_capture_execute uc (br_capture request) s = (Inr payload, u)"
    using assms by (auto simp: filesystem_backup_execute_def do_then_ok)
  have fail: "do_match m (\<lambda>_. do_fail e) w \<noteq> (Inr x, w')" for m :: "('a, storage_port_error, unit) action" and e :: capture_use_case_error and w x w'
    by (simp add: do_match_def split: prod.split)
  obtain manifest where m: "mf_run_id (br_manifest request) = cr_run_id (br_capture request)" "add_payload (br_manifest request) payload = Inr manifest"
    using assms cap by (auto simp: filesystem_backup_execute_def do_then_def Let_def capture_fail_never_ok split: if_splits sum.splits)
  have "st_seal (uc_storage uc) manifest (br_sealed_at request) signer u = (Inr sealed, t)"
    using assms cap m by (simp add: filesystem_backup_execute_def do_then_def Let_def match_value fail)
  with cap m show thesis by (rule that)
qed

lemma with_storage_ok: "with_storage m s = (r, t) \<longleftrightarrow> m (fst s) = (r, fst t) \<and> snd t = snd s"
  by (cases t) (auto simp: with_storage_def split: prod.splits)

lemma keeps_staging_ok: "keeps_staging m \<Longrightarrow> m s = (r, t) \<Longrightarrow> sa_staging t = sa_staging s"
  by (metis keeps_staging_def snd_conv)

lemma adapter_begin_ok:
  "adapter_begin env run_id s = (Inr (), t) \<Longrightarrow> sa_staging t = Some \<lparr>sb_run_id = run_id, sb_path = staging_root @ [run_id]\<rparr>"
  by (auto simp: adapter_begin_def do_then_ok dest: begin_staging_ok(1) split: if_splits)

lemma on_disk_ok: "on_disk m s = (Inr x, t) \<longleftrightarrow> (\<exists>w. m (sa_world s) = (Inr x, w) \<and> t = s\<lparr>sa_world := w\<rparr>)"
  by (auto simp: on_disk_def split: prod.splits)

lemma register_entry_facts:
  assumes "adapter_register_payload_path env encryption role path media_type random s = (Inr entry, t)"
  shows "py_path entry = path" "py_logical_role entry = role" "py_media_type entry = media_type"
proof -
  let ?F = "\<lambda>e. py_path e = path \<and> py_logical_role e = role \<and> py_media_type e = media_type"
  have plain: "?F e" if run: "register_payload_file env self role path media_type w = (Inr e, w')" for self e w w'
  proof -
    obtain m u where "(case m of FsFile bytes \<Rightarrow> do_then (hash_file (re_sha256 (lr_env (sg_repository env))) (payload_file (sb_path self) path)) (\<lambda>hash.
        do_lift (map_err RepoManifest (payload_entry_new (re_b64 (lr_env (sg_repository env))) role path (word_of_nat (length bytes)) hash media_type)))
      | _ \<Rightarrow> do_fail UnsafeFilesystemEntry) u = (Inr e, w')"
      using run by (auto simp: register_payload_file_def Let_def do_then_ok)
    then show ?thesis by (cases m) (auto simp: do_then_ok payload_entry_new_def Let_def)
  qed
  have enc: "?F e" if run: "encrypt_and_register_payload_file env self role path media_type backup_id secrets random w = (Inr e, w')" for self backup_id secrets e w w'
  proof -
    obtain e' u u' b where "register_payload_file env self role path media_type u = (Inr e', u')" "e = e'\<lparr>py_encryption := b\<rparr>"
      using run by (auto simp: encrypt_and_register_payload_file_def Let_def do_then_ok on_disk_ok payload_entry_encrypted_def)
    then show ?thesis using plain by auto
  qed
  have "?F entry"
  proof (cases encryption)
    fix ctx assume "encryption = Some ctx"
    with assms enc show ?thesis by (auto simp: adapter_register_payload_path_def do_then_ok)
  next
    assume "encryption = None"
    with assms plain show ?thesis by (auto simp: adapter_register_payload_path_def do_then_ok on_disk_ok)
  qed
  then show "py_path entry = path" "py_logical_role entry = role" "py_media_type entry = media_type" by simp_all
qed

section \<open>Properties\<close>


text \<open>C38: a backup that succeeds on the local repository is, under \<open>backups/\<close>, a backup that a later
  verification accepts: the given manifest sealed, with exactly one more payload, the captured file;
  nothing of the run is left in the staging area.\<close>

theorem captured_backup_verifies:
  assumes idle: "sa_staging (fst s) = None"
    and codecs: "codec_ok (re_manifest_codec (lr_env (sg_repository env)))" "codec_ok (re_signature_codec (lr_env (sg_repository env)))"
    and i: "backup_id_parse (mf_backup_id (br_manifest request)) = Inr (mf_backup_id (br_manifest request))"
    and trust: "\<And>message signature. signer_verify signer message signature = Inr () \<Longrightarrow>
      verifier (signer_algorithm signer) (signer_key_id signer) message signature = Inr ()"
    and run: "filesystem_backup_execute (local_use_case env encryption random capture inspect) signer request s = (Inr sealed, t)"
  shows "\<exists>m entry. sealed = mf_backup_id (br_manifest request) \<and>
    load_verified_manifest (lr_env (sg_repository env)) verifier (backups_root @ [sealed]) (quiet (disk (sa_world (fst t)))) =
      (Inr m, quiet (disk (sa_world (fst t)))) \<and>
    mf_payloads m = mf_payloads (br_manifest request) @ [entry] \<and> mf_run_id m = cr_run_id (br_capture request) \<and>
    py_path entry = cr_payload_path (br_capture request) \<and> py_logical_role entry = ''filesystem'' \<and>
    (\<forall>q. prefix (staging_root @ [cr_run_id (br_capture request)]) q \<longrightarrow> entry_at (disk (sa_world (fst t))) q = None)"
proof -
  let ?uc = "local_use_case env encryption random capture inspect" and ?run = "cr_run_id (br_capture request)"
  obtain payload manifest u where cap: "filesystem_capture_execute ?uc (br_capture request) s = (Inr payload, u)"
    and id: "mf_run_id (br_manifest request) = ?run" and add: "add_payload (br_manifest request) payload = Inr manifest"
    and seal: "st_seal (uc_storage ?uc) manifest (br_sealed_at request) signer u = (Inr sealed, t)"
    using filesystem_backup_ok [OF run] .
  obtain destination u1 u2 u3 u4 where raw: "st_begin (uc_storage ?uc) ?run s = (Inr (), u1)"
    "st_reserve (uc_storage ?uc) (cr_payload_path (br_capture request)) u1 = (Inr destination, u2)"
    "uc_capture ?uc (br_capture request) destination u2 = (Inr (), u3)" "uc_inspect ?uc destination u3 = (Inr (), u4)"
    "st_register (uc_storage ?uc) ''filesystem'' (cr_payload_path (br_capture request)) ''application/zstd'' u4 = (Inr payload, u)"
    using filesystem_capture_ok [OF cap] .
  have b: "adapter_begin env ?run (fst s) = (Inr (), fst u1)"
    and res: "adapter_reserve (cr_payload_path (br_capture request)) (fst u1) = (Inr destination, fst u2)"
    and cp: "on_disk (capture (br_capture request) destination) (fst u2) = (Inr (), fst u3)" and ins: "on_disk (inspect destination) (fst u3) = (Inr (), fst u4)"
    and reg: "adapter_register_payload_path env encryption ''filesystem'' (cr_payload_path (br_capture request)) ''application/zstd'' (random ''filesystem'') (fst u4) = (Inr payload, fst u)"
    using raw by (simp_all add: local_use_case_def local_storage_port_def with_storage_ok)
  have "sa_staging (fst u) = sa_staging (fst u1)"
    using keeps_staging_ok [OF adapter_reserve_keeps res] keeps_staging_ok [OF keeps_basic(1) cp] keeps_staging_ok [OF keeps_basic(1) ins]
      keeps_staging_ok [OF local_register_keeps reg] by simp
  then have staging: "sa_staging (fst u) = Some \<lparr>sb_run_id = ?run, sb_path = staging_root @ [?run]\<rparr>" (is "_ = Some ?self")
    using adapter_begin_ok [OF b] by simp
  obtain published where pub: "Staging.seal env ?self manifest (br_sealed_at request) signer ((fst u)\<lparr>sa_staging := None\<rparr>) = (Inr published, fst t)"
    and sealed: "sealed = sl_backup_id published"
    using seal staging by (auto simp: local_use_case_def local_storage_port_def with_storage_ok adapter_seal_def take_staging_def do_then_ok)
  have m: "mf_backup_id manifest = mf_backup_id (br_manifest request)" "mf_payloads manifest = mf_payloads (br_manifest request) @ [payload]" "mf_run_id manifest = ?run"
    using add id by (auto simp: add_payload_ok extend_manifest_def)
  have "sb_path ?self = staging_root @ [sb_run_id ?self]" by simp
  note out = seal_published [where verifier = verifier and signer = signer and self = ?self and env = env, OF this codecs i [folded m(1)] trust pub]
  then obtain sm where "prepare_for_seal (re_b64 (lr_env (sg_repository env))) manifest (br_sealed_at request) (signer_algorithm signer) (signer_key_id signer) = Inr sm"
    by blast
  then have "mf_payloads sm = mf_payloads manifest" "mf_run_id sm = ?run" using m by (auto simp: prepare_for_seal_ok)
  then show ?thesis
    using out register_entry_facts [OF reg] m sealed \<open>prepare_for_seal _ _ _ _ _ = _\<close> by auto
qed

text \<open>A concrete run: an idle adapter, a capture that writes ten bytes, an inspector that accepts.\<close>

definition sample_request :: filesystem_backup_request where
  "sample_request = \<lparr>br_capture = \<lparr>cr_run_id = ''r1'', cr_profile_id = ''p1'', cr_roots = [''/srv''], cr_payload_path = ''payload/fs.tar.zst''\<rparr>,
     br_manifest = sample_unsealed\<lparr>mf_payloads := []\<rparr>, br_sealed_at = ''2024-01-02T03:04:05Z''\<rparr>"

definition sample_use_case :: "(session, filesystem_capture_request) capture_use_case" where
  "sample_use_case = local_use_case sample_staging_env None (\<lambda>_. \<lparr>pr_data_key = [], pr_id_bytes = [], pr_data_nonce = [], pr_wrap_nonce = []\<rparr>)
     (\<lambda>_ destination. do_map_err (\<lambda>_. CaptureTransport) (do_then (create_new destination) (\<lambda>_. write_file destination (replicate 10 0)))) (\<lambda>_. do_return ())"

definition sample_session :: session where
  "sample_session = (\<lparr>sa_world = quiet [([''staging''], FsDir), ([''backups''], FsDir)], sa_pending = [], sa_staging = None\<rparr>, [])"

definition sample_captured :: disk where
  "sample_captured = [([''staging'', ''r1'', ''payload'', ''fs.tar.zst''], FsFile (replicate 10 0)), ([''staging'', ''r1'', ''reports''], FsDir),
     ([''staging'', ''r1'', ''payload''], FsDir), ([''staging'', ''r1''], FsDir), ([''repository.lock''], FsFile []), ([''staging''], FsDir), ([''backups''], FsDir)]"

lemma sample_capture:
  "filesystem_capture_execute sample_use_case (br_capture sample_request) sample_session =
    (Inr (hd (mf_payloads sample_manifest)), (\<lparr>sa_world = quiet sample_captured, sa_pending = [],
       sa_staging = Some \<lparr>sb_run_id = ''r1'', sb_path = [''staging'', ''r1'']\<rparr>\<rparr>, []))"
proof -
  let ?path = "''payload/fs.tar.zst''" and ?file = "[''staging'', ''r1'', ''payload'', ''fs.tar.zst'']"
  let ?t = "\<lambda>d. \<lparr>sa_world = quiet d, sa_pending = [], sa_staging = Some \<lparr>sb_run_id = ''r1'', sb_path = [''staging'', ''r1'']\<rparr>\<rparr>"
  let ?d = "tl sample_captured"
  note eval = on_disk_def do_then_def do_map_err_def do_match_def quiet_simps entry_at_def put_def del_def Let_def sample_captured_def
  have v: "filesystem_capture_request_validate (br_capture sample_request) = Inr ()" by code_simp
  have entry: "payload_entry_new (\<lambda>_. None) ''filesystem'' ?path 10 (hex (replicate 32 170)) ''application/zstd'' = Inr (hd (mf_payloads sample_manifest))"
    by code_simp
  have "adapter_begin sample_staging_env ''r1'' (fst sample_session) = (Inr (), ?t ?d)"
    by (simp add: eval adapter_begin_def begin_staging_def repository_lock_def repository_process_lock_def sample_staging_env_def
      sample_local_repository_def ok_if_def staging_root_def sync_parent_def sample_session_def)
  moreover have "adapter_reserve ?path (?t ?d) = (Inr ?file, ?t ?d)"
    by (simp add: eval adapter_reserve_def current_staging_def ok_or_def reserve_payload_destination_def create_safe_parent_def ensure_directory_def)
  moreover have "on_disk (do_map_err (\<lambda>_. CaptureTransport) (do_then (create_new ?file) (\<lambda>_. write_file ?file (replicate 10 0)))) (?t ?d) = (Inr (), ?t sample_captured)"
    by (simp add: eval append_file_def)
  moreover have "adapter_register_payload_path sample_staging_env None ''filesystem'' ?path ''application/zstd'' r (?t sample_captured) = (Inr (hd (mf_payloads sample_manifest)), ?t sample_captured)" for r
    by (simp add: eval adapter_register_payload_path_def current_staging_def ok_or_def register_payload_file_def sample_staging_env_def sample_local_repository_def hash_file_def
      payload_file_def entry)
  moreover have "snd sample_session = []" by (simp add: sample_session_def)
  ultimately show ?thesis
    unfolding filesystem_capture_execute_def v
    by (simp add: sample_use_case_def local_use_case_def local_storage_port_def sample_request_def with_storage_def do_then_def do_map_err_def do_match_def on_disk_def)
qed

lemma sample_backup_run:
  "\<exists>t. filesystem_backup_execute sample_use_case sample_signer sample_request sample_session = (Inr ''b1'', t)"
proof -
  let ?self = "\<lparr>sb_run_id = ''r1'', sb_path = [''staging'', ''r1'']\<rparr>" and ?renv = "lr_env sample_local_repository"
  have hash: "hex (replicate 32 170) = replicate 64 (ascii_lower CHR ''a'')" by code_simp
  have tree: "verify_payload_tree (re_sha256 ?renv) [''staging'', ''r1''] sample_unsealed (quiet sample_captured) = (Inr (), quiet sample_captured)"
    by (simp add: hash verify_payload_tree_def collect_payload_files_def Let_def do_then_def do_map_err_def ensure_directory_def quiet_simps walk_payload.simps
      sample_local_repository_def sample_captured_def sample_unsealed_def sample_manifest_def manifest_new_def entry_at_def children_def map_filter_simps ok_or_def strip_root_def
      hash_file_def verify_payload_entry_def payload_file_def MAX_PAYLOAD_DEPTH_def MAX_PAYLOAD_FILES_def)
  obtain sealed w2 where s: "Staging.seal sample_staging_env ?self sample_unsealed ''2024-01-02T03:04:05Z'' sample_signer \<lparr>sa_world = quiet sample_captured, sa_pending = [], sa_staging = None\<rparr>
      = (Inr sealed, \<lparr>sa_world = quiet w2, sa_pending = [], sa_staging = None\<rparr>)"
    using sample_seal [OF tree, of "[]" None] by (force simp: sample_captured_def entry_at_def)
  have id: "sl_backup_id sealed = ''b1''"
    using seal_id [OF s] by (simp add: sample_unsealed_def sample_manifest_def manifest_new_def)
  have add: "add_payload (br_manifest sample_request) (hd (mf_payloads sample_manifest)) = Inr sample_unsealed"
    by (simp add: sample_request_def add_payload_def sample_unsealed_def sample_manifest_def manifest_new_def)
  have req: "cr_run_id (br_capture sample_request) = ''r1''" "mf_run_id (br_manifest sample_request) = ''r1''" "br_sealed_at sample_request = ''2024-01-02T03:04:05Z''"
    by (simp_all add: sample_request_def sample_unsealed_def sample_manifest_def manifest_new_def)
  show ?thesis
    unfolding filesystem_backup_execute_def do_then_def sample_capture using s id add req
    by (simp add: sample_use_case_def local_use_case_def local_storage_port_def adapter_seal_def take_staging_def with_storage_def do_match_def do_then_def
      do_map_err_def ok_or_def)
qed


lemma captured_backup_verifies_witness:
  "\<exists>t m. filesystem_backup_execute sample_use_case sample_signer sample_request sample_session = (Inr ''b1'', t) \<and>
     load_verified_manifest (lr_env sample_local_repository) (verify_manifest sample_signer) [''backups'', ''b1''] (quiet (disk (sa_world (fst t)))) =
       (Inr m, quiet (disk (sa_world (fst t)))) \<and> length (mf_payloads m) = 1"
proof -
  obtain t where run: "filesystem_backup_execute sample_use_case sample_signer sample_request sample_session = (Inr ''b1'', t)"
    using sample_backup_run by blast
  have i: "backup_id_parse (mf_backup_id (br_manifest sample_request)) = Inr (mf_backup_id (br_manifest sample_request))" by code_simp
  have env: "lr_env (sg_repository sample_staging_env) = lr_env sample_local_repository" by (simp add: sample_staging_env_def)
  have codecs: "codec_ok (re_manifest_codec (lr_env (sg_repository sample_staging_env)))" "codec_ok (re_signature_codec (lr_env (sg_repository sample_staging_env)))"
    by (simp_all add: sample_staging_env_def sample_local_repository_def two_documents_ok)
  have idle: "sa_staging (fst sample_session) = None" by (simp add: sample_session_def)
  have trust: "verify_manifest sample_signer (signer_algorithm sample_signer) (signer_key_id sample_signer) message signature = Inr ()"
    if "signer_verify sample_signer message signature = Inr ()" for message signature
    using that by (simp add: verify_manifest_def)
  have none: "mf_payloads (br_manifest sample_request) = []" by (simp add: sample_request_def)
  show ?thesis
    using captured_backup_verifies [where verifier = "verify_manifest sample_signer", OF idle codecs i trust run [unfolded sample_use_case_def]] run
    by (auto simp: env none backups_root_def)
qed

end
