(* ===== verification/Capture_Request.thy ===== *)
theory Capture_Request
  imports Capture
begin

text \<open>
  \<^verbatim>\<open>crates/guardian-capture/src/request.rs\<close>: from a saved capture plan to the requests of the capture use
  cases, and the clock: seconds since 1970 printed as a UTC timestamp. The calendar is stated
  independently of the code, by counting the days of the months and years that have passed.
\<close>

section \<open>Definitions\<close>

definition FILESYSTEM_PAYLOAD_PATH :: string where "FILESYSTEM_PAYLOAD_PATH = ''payload/filesystem-000.tar.zst.enc''"

definition DATABASE_PAYLOAD_PATH :: string where "DATABASE_PAYLOAD_PATH = ''payload/database-000.sqlite.zst.enc''"

datatype capture_build_error = BuildInvalid | BuildUnavailable

record capture_input =
  ci_plan :: filesystem_capture_plan
  ci_plan_sha256 :: string
  ci_source_layout :: "source_layout option"
  ci_profile :: vds_profile
  ci_run_id :: run_id
  ci_backup_id :: backup_id
  ci_created_at :: timestamp

record capture_requests =
  cq_backup :: filesystem_backup_request
  cq_database :: "embedded_database_capture_request option"

text \<open>The version of the package and the platform are fixed when the program is built.\<close>

definition build_capture_requests :: "hash_function \<Rightarrow> string \<Rightarrow> string \<Rightarrow> capture_input \<Rightarrow> capture_build_error + capture_requests" where
  "build_capture_requests sha256 version platform input =
     (let plan = ci_plan input; profile = ci_profile input; run_id = ci_run_id input in
      if fc_profile_id plan \<noteq> vp_profile_id profile then Inl BuildInvalid
      else
        let manifest = (manifest_new (ci_backup_id input) run_id (ci_created_at input)
              \<lparr>pr_name = ''VDS Guardian'', pr_version = version, pr_platform = platform\<rparr>
              \<lparr>si_profile_id = vp_profile_id profile,
               si_host_key_fingerprint = host_key_fingerprint sha256 (pin_public_key_base64 (ep_host_pin (vp_endpoint profile)))\<rparr>
              \<lparr>pl_plan_id = fc_plan_id plan, pl_version = fc_version plan, pl_sha256 = ci_plan_sha256 input\<rparr>)
              \<lparr>mf_source_layout := ci_source_layout input\<rparr>;
            payload = (\<lambda>path. map_err (\<lambda>_. BuildInvalid) (payload_path_parse path)) in
        and_then (payload FILESYSTEM_PAYLOAD_PATH) (\<lambda>filesystem_path.
          let backup = \<lparr>br_capture = \<lparr>cr_run_id = run_id, cr_profile_id = vp_profile_id profile, cr_roots = fc_roots plan, cr_payload_path = filesystem_path\<rparr>,
                br_manifest = manifest, br_sealed_at = ci_created_at input\<rparr> in
          and_then (case fc_database_path plan of
              Some database_path \<Rightarrow>
                and_then (payload DATABASE_PAYLOAD_PATH) (\<lambda>path.
                Inr (Some \<lparr>dr_run_id = run_id, dr_profile_id = vp_profile_id profile, dr_database_path = database_path, dr_payload_path = path\<rparr>))
            | None \<Rightarrow> Inr None) (\<lambda>database.
          Inr \<lparr>cq_backup = backup, cq_database = database\<rparr>)))"

text \<open>The sixteen random bytes are an argument.\<close>

definition new_backup_id :: "byte list \<Rightarrow> capture_build_error + backup_id" where
  "new_backup_id bytes = map_err (\<lambda>_. BuildUnavailable) (backup_id_parse (''backup-'' @ hex bytes))"

text \<open>\<open>u32::try_from(x).unwrap_or(1)\<close>. The \<open>i64\<close> quantities of \<open>civil_date\<close> are not negative and far below
  \<open>2 ^ 63\<close>, so they are integers here and \<open>div\<close> is Rust's division.\<close>

definition u32_or_1 :: "int \<Rightarrow> nat" where
  "u32_or_1 x = (if 0 \<le> x \<and> x < 2 ^ 32 then nat x else 1)"

definition civil_date :: "int \<Rightarrow> int \<times> nat \<times> nat" where
  "civil_date days =
     (let z = days + 719468;
          era = (if z \<ge> 0 then z else z - 146096) div 146097;
          doe = z - era * 146097;
          yoe = (doe - doe div 1460 + doe div 36524 - doe div 146096) div 365;
          y = yoe + era * 400;
          doy = doe - (365 * yoe + yoe div 4 - yoe div 100);
          mp = (5 * doy + 2) div 153 in
      (y + (if mp \<ge> 10 then 1 else 0), u32_or_1 (mp + (if mp < 10 then 3 else -9)), u32_or_1 (doy - (153 * mp + 2) div 5 + 1)))"

text \<open>\<open>{:0w}\<close> of an unsigned number.\<close>

definition zero_padded :: "nat \<Rightarrow> nat \<Rightarrow> string" where
  "zero_padded w n = (let s = show_nat n in replicate (w - length s) CHR ''0'' @ s)"

definition format_unix_timestamp :: "u64 \<Rightarrow> capture_build_error + timestamp" where
  "format_unix_timestamp seconds =
     (let s = unat seconds; day_seconds = s mod 86400 in
      case civil_date (int (s div 86400)) of
        (year, month, day) \<Rightarrow>
          map_err (\<lambda>_. BuildUnavailable) (timestamp_parse
            (zero_padded 4 (nat year) @ ''-'' @ zero_padded 2 month @ ''-'' @ zero_padded 2 day @ ''T'' @
             zero_padded 2 (day_seconds div 3600) @ '':'' @ zero_padded 2 (day_seconds div 60 mod 60) @ '':'' @ zero_padded 2 (day_seconds mod 60) @ ''Z'')))"

subsection \<open>Reference semantics: counting days\<close>

definition leap_year :: "nat \<Rightarrow> bool" where
  "leap_year y \<longleftrightarrow> 400 dvd y \<or> 4 dvd y \<and> \<not> 100 dvd y"

definition days_since_1970 :: "nat \<Rightarrow> nat \<Rightarrow> nat \<Rightarrow> nat" where
  "days_since_1970 y m d =
     sum_list (map (\<lambda>k. if leap_year k then 366 else 365) [1970..<y]) + sum_list (map (days_in_month y) [1..<m]) + (d - 1)"

definition seconds_since_1970 :: "nat \<Rightarrow> nat \<Rightarrow> nat \<Rightarrow> nat \<Rightarrow> nat \<Rightarrow> nat \<Rightarrow> nat" where
  "seconds_since_1970 y m d h mi s = days_since_1970 y m d * 86400 + h * 3600 + mi * 60 + s"

section \<open>The calendar\<close>

lemma div_step:
  fixes a k :: int
  assumes "0 < k"
  shows "(a - 1) div k = a div k - (if k dvd a then 1 else 0)"
proof (cases "k dvd a")
  case True
  then obtain q where q: "a = k * q" ..
  have "(a - 1) div k = q - 1"
    by (rule int_div_pos_eq [where r = "k - 1"]) (use assms in \<open>auto simp: q algebra_simps\<close>)
  then show ?thesis using q assms by simp
next
  case False
  then have "0 < a mod k" "a mod k < k" using assms pos_mod_sign [of k a] by (auto simp: dvd_eq_mod_eq_0 order_le_less)
  then have "(a - 1) div k = a div k"
    by (intro int_div_pos_eq [where r = "a mod k - 1"]) (auto simp: algebra_simps)
  then show ?thesis using False by simp
qed

lemma leap_year_steps:
  "(if leap_year n then 1 else 0 :: int) = (int n div 4 - (int n - 1) div 4) - (int n div 100 - (int n - 1) div 100) + (int n div 400 - (int n - 1) div 400)"
proof -
  have "(400::int) dvd int n \<longleftrightarrow> 400 dvd n" "(100::int) dvd int n \<longleftrightarrow> 100 dvd n" "(4::int) dvd int n \<longleftrightarrow> 4 dvd n"
    by presburger+
  moreover have "400 dvd n \<longrightarrow> 100 dvd n" "100 dvd n \<longrightarrow> 4 dvd n" by presburger+
  ultimately show ?thesis by (simp add: div_step leap_year_def)
qed

lemma days_before_year:
  assumes "1970 \<le> y"
  shows "int (sum_list (map (\<lambda>k. if leap_year k then 366 else 365) [1970..<y])) =
    365 * (int y - 1970) + (int y - 1) div 4 - (int y - 1) div 100 + (int y - 1) div 400 - 477"
  using assms
proof (induction y rule: dec_induct)
  case base
  then show ?case by simp
next
  case (step n)
  note leap = leap_year_steps [of n]
  have days: "int (sum_list (map (\<lambda>k. if leap_year k then 366 else 365) [1970..<Suc n])) =
      int (sum_list (map (\<lambda>k. if leap_year k then 366 else 365) [1970..<n])) + 365 + (if leap_year n then 1 else 0)"
    using step.hyps by simp
  have sum: "t = 365 * (n + 1 - 1970) + a - b + c - 477"
    if "l = (a - a') - (b - b') + (c - c')" "t = u + 365 + l" "u = 365 * (n - 1970) + a' - b' + c' - 477" for a a' b b' c c' l n t u :: int
    using that by simp
  have suc: "int (Suc n) - 1 = int n" "int (Suc n) = int n + 1" by simp_all
  show ?case
    unfolding suc(1) unfolding suc(2) by (rule sum [OF leap days step.IH])
qed

lemma year_of_era:
  fixes c q k doy :: int
  assumes "0 \<le> c" "c \<le> 3" "0 \<le> q" "q \<le> 24" "0 \<le> k" "k \<le> 3" "0 \<le> doy" "doy \<le> 365" "doy = 365 \<Longrightarrow> k = 3 \<and> (q = 24 \<longrightarrow> c = 3)"
    and doe: "doe = 36524 * c + 1461 * q + 365 * k + doy"
  shows "(doe - doe div 1460 + doe div 36524 - doe div 146096) div 365 = 100 * c + 4 * q + k" "doe < 146097" "0 \<le> doe"
proof -
  define top where "top \<longleftrightarrow> c = 3 \<and> q = 24 \<and> k = 3 \<and> doy = 365"
  define late where "late \<longleftrightarrow> 1460 \<le> 24 * c + q + 365 * k + doy"
  have a: "doe div 1460 = 25 * c + q + (if late then 1 else 0)"
    by (rule int_div_pos_eq [where r = "24 * c + q + 365 * k + doy - (if late then 1460 else 0)"]) (use assms in \<open>auto simp: late_def\<close>)
  have below: "1461 * q + 365 * k + doy < 36524" if "\<not> top"
  proof (cases "doy = 365")
    case True
    then have "q \<noteq> 24" using that assms by (auto simp: top_def)
    then have "q \<le> 23" using assms by simp
    then show ?thesis using True assms by simp
  next
    case False
    then have "doy \<le> 364" using assms by simp
    then show ?thesis using assms by simp
  qed
  have atop: "c = 3 \<and> q = 24 \<and> k = 3 \<and> doy = 365" if top using that by (simp add: top_def)
  have "0 \<le> 1461 * q + 365 * k + doy - (if top then 36524 else 0)" "1461 * q + 365 * k + doy - (if top then 36524 else 0) < 36524"
    using assms below atop by auto
  then have b: "doe div 36524 = c + (if top then 1 else 0)"
    by (intro int_div_pos_eq [where r = "1461 * q + 365 * k + doy - (if top then 36524 else 0)"]) (use doe in auto)
  have "0 \<le> doe - (if top then 146096 else 0)" "doe - (if top then 146096 else 0) < 146096"
    using assms below atop by (cases top; simp)+
  then have d: "doe div 146096 = (if top then 1 else 0)"
    by (intro int_div_pos_eq [where r = "doe - (if top then 146096 else 0)"]) auto
  have "doe - doe div 1460 + doe div 36524 - doe div 146096 = 365 * (100 * c + 4 * q + k) + (doy - (if late then 1 else 0))"
    unfolding a b d by (simp add: doe)
  moreover have "0 \<le> doy - (if late then 1 else 0)" "doy - (if late then 1 else 0) < 365"
    using assms(1-8) assms(9) by (cases "doy = 365"; auto simp: late_def)+
  ultimately show "(doe - doe div 1460 + doe div 36524 - doe div 146096) div 365 = 100 * c + 4 * q + k"
    by (metis int_div_pos_eq)
  show "doe < 146097" "0 \<le> doe" using assms by auto
qed


text \<open>The day of a year that starts in March, and the month it falls in.\<close>

definition march_day :: "nat \<Rightarrow> nat \<Rightarrow> int" where
  "march_day m d = (if 3 \<le> m then (153 * (int m - 3) + 2) div 5 else (153 * (int m + 9) + 2) div 5) + int d - 1"

lemma march_day_range:
  assumes "1 \<le> m" "m \<le> 12" "1 \<le> d" "d \<le> days_in_month y m"
  shows "0 \<le> march_day m d" "march_day m d \<le> 365"
proof -
  have "m = 1 \<or> m = 2 \<or> m = 3 \<or> m = 4 \<or> m = 5 \<or> m = 6 \<or> m = 7 \<or> m = 8 \<or> m = 9 \<or> m = 10 \<or> m = 11 \<or> m = 12" using assms by presburger
  moreover have "d \<le> 31" "m \<in> {4, 6, 9, 11} \<Longrightarrow> d \<le> 30" "m = 2 \<Longrightarrow> d \<le> 29"
    using assms by (auto simp: days_in_month_def split: if_splits)
  ultimately show "0 \<le> march_day m d" "march_day m d \<le> 365"
    using assms(3) by (elim disjE; simp add: march_day_def)+
qed

lemma month_of_march_day:
  assumes "1 \<le> m" "m \<le> 12" "1 \<le> d" "d \<le> days_in_month y m"
  shows "(5 * march_day m d + 2) div 153 = (if 3 \<le> m then int m - 3 else int m + 9)"
proof -
  have "m = 1 \<or> m = 2 \<or> m = 3 \<or> m = 4 \<or> m = 5 \<or> m = 6 \<or> m = 7 \<or> m = 8 \<or> m = 9 \<or> m = 10 \<or> m = 11 \<or> m = 12" using assms by presburger
  moreover have "d \<le> 31" "m \<in> {4, 6, 9, 11} \<Longrightarrow> d \<le> 30" "m = 2 \<Longrightarrow> d \<le> 29"
    using assms by (auto simp: days_in_month_def split: if_splits)
  ultimately show ?thesis
    using assms(3) by (elim disjE; simp add: march_day_def; presburger)
qed

lemma days_in_month_leap: "days_in_month y 2 = (if leap_year y then 29 else 28)"
  by (auto simp: days_in_month_def leap_year_def dvd_eq_mod_eq_0)

lemma days_before_month:
  assumes "1 \<le> m" "m \<le> 12"
  shows "int (sum_list (map (days_in_month y) [1..<m])) + int d - 1 =
    march_day m d + (if 3 \<le> m then 59 + (if leap_year y then 1 else 0) else - 306)"
proof -
  have "m = 1 \<or> m = 2 \<or> m = 3 \<or> m = 4 \<or> m = 5 \<or> m = 6 \<or> m = 7 \<or> m = 8 \<or> m = 9 \<or> m = 10 \<or> m = 11 \<or> m = 12" using assms by presburger
  then show ?thesis
    by (elim disjE; simp add: march_day_def upt_rec days_in_month_leap; simp add: days_in_month_def leap_year_def)
qed

text \<open>Day numbers of the years that start in March.\<close>

lemma days_from_march:
  assumes "1970 \<le> y" "1 \<le> m" "m \<le> 12" "1 \<le> d"
  defines "Y \<equiv> (if 3 \<le> m then int y else int y - 1)"
  shows "int (days_since_1970 y m d) + 719468 = 365 * Y + Y div 4 - Y div 100 + Y div 400 + march_day m d"
proof -
  have split: "int (days_since_1970 y m d) =
      int (sum_list (map (\<lambda>k. if leap_year k then 366 else 365) [1970..<y])) + (int (sum_list (map (days_in_month y) [1..<m])) + int d - 1)"
    using assms(4) by (simp add: days_since_1970_def)
  have sum: "365 * (n - 1970) + a' - b' + c' - 477 + (x + (59 + l)) + 719468 = 365 * n + a - b + c + x"
    if "l = (a - a') - (b - b') + (c - c')" for a a' b b' c c' l n x :: int
    using that by simp
  have sum': "365 * (n - 1970) + a' - b' + c' - 477 + (x + - 306) + 719468 = 365 * (n - 1) + a' - b' + c' + x"
    for a' b' c' n x :: int
    by simp
  show ?thesis
    unfolding split days_before_year [OF assms(1)] days_before_month [OF assms(2,3)] Y_def
    using sum [OF leap_year_steps [of y]] sum' by (cases "3 \<le> m") (simp_all only: if_True if_False)
qed

lemma era_parts:
  fixes Y :: int
  obtains e c q k where "0 \<le> c" "c \<le> 3" "0 \<le> q" "q \<le> 24" "0 \<le> k" "k \<le> 3" "Y = 400 * e + 100 * c + 4 * q + k"
proof
  have c: "0 \<le> r div 100" "r div 100 \<le> 3" if "0 \<le> r" "r < 400" for r :: int using that by presburger+
  have q: "0 \<le> r div 4" "r div 4 \<le> 24" if "0 \<le> r" "r < 100" for r :: int using that by presburger+
  show "0 \<le> Y mod 400 div 100" "Y mod 400 div 100 \<le> 3" by (rule c; simp)+
  show "0 \<le> Y mod 400 mod 100 div 4" "Y mod 400 mod 100 div 4 \<le> 24" by (rule q; simp)+
  show "0 \<le> Y mod 400 mod 100 mod 4" "Y mod 400 mod 100 mod 4 \<le> 3" using pos_mod_bound [of 4 "Y mod 400 mod 100"] by simp_all
  show "Y = 400 * (Y div 400) + 100 * (Y mod 400 div 100) + 4 * (Y mod 400 mod 100 div 4) + Y mod 400 mod 100 mod 4"
    by (metis div_mult_mod_eq add.assoc mult.commute)
qed

text \<open>A year before a leap year is the last one of its four, and of its century only when that is the last of four.\<close>

lemma leap_year_at_end:
  fixes c q k e :: int
  assumes leap: "leap_year y" and y: "int y = 400 * e + 100 * c + 4 * q + k + 1" and range: "0 \<le> c" "c \<le> 3" "0 \<le> q" "q \<le> 24" "0 \<le> k" "k \<le> 3"
  shows "k = 3 \<and> (q = 24 \<longrightarrow> c = 3)"
proof -
  have dvd: "(400::int) dvd int y \<longleftrightarrow> 400 dvd y" "(100::int) dvd int y \<longleftrightarrow> 100 dvd y" "(4::int) dvd int y \<longleftrightarrow> 4 dvd y" "400 dvd y \<longrightarrow> 4 dvd y"
    by presburger+
  then have "4 dvd int y" using leap by (auto simp: leap_year_def)
  moreover have "int y = 4 * (100 * e + 25 * c + q) + (k + 1)" using y by simp
  ultimately have "4 dvd k + 1" by (metis dvd_add_right_iff dvd_triv_left)
  then have k: "k = 3" using range(5,6) by presburger
  moreover have "c = 3" if q: "q = 24"
  proof -
    have "int y = 100 * (4 * e + c + 1)" using y k q by simp
    then have "100 dvd int y" by simp
    then have "400 dvd int y" using leap dvd by (auto simp: leap_year_def)
    moreover have "int y = 400 * e + 100 * (c + 1)" using y k q by simp
    ultimately have "400 dvd 100 * (c + 1)" by (metis dvd_add_right_iff dvd_triv_left)
    then show ?thesis using range(1,2) by presburger
  qed
  ultimately show ?thesis by blast
qed

lemma civil_date_steps:
  assumes "days + 719468 = z" "0 \<le> z" "z div 146097 = era" "z - era * 146097 = doe"
    "(doe - doe div 1460 + doe div 36524 - doe div 146096) div 365 = yoe"
    "doe - (365 * yoe + yoe div 4 - yoe div 100) = doy" "(5 * doy + 2) div 153 = mp"
  shows "civil_date days = (yoe + era * 400 + (if mp \<ge> 10 then 1 else 0), u32_or_1 (mp + (if mp < 10 then 3 else -9)), u32_or_1 (doy - (153 * mp + 2) div 5 + 1))"
  by (simp only: civil_date_def Let_def assms if_True)

lemma civil_date_correct:
  assumes "1970 \<le> y" "1 \<le> m" "m \<le> 12" "1 \<le> d" "d \<le> days_in_month y m"
  shows "civil_date (int (days_since_1970 y m d)) = (int y, m, d)"
proof -
  define Y where "Y = (if 3 \<le> m then int y else int y - 1)"
  obtain e c q k where range: "0 \<le> c" "c \<le> 3" "0 \<le> q" "q \<le> 24" "0 \<le> k" "k \<le> 3" and Y: "Y = 400 * e + 100 * c + 4 * q + k"
    using era_parts [of Y] .
  define doy where "doy = march_day m d"
  define doe where "doe = 36524 * c + 1461 * q + 365 * k + doy"
  have parts: "Y div 4 = 100 * e + 25 * c + q" "Y div 100 = 4 * e + c" "Y div 400 = e"
    by (rule int_div_pos_eq [where r = k], simp add: Y, rule range, use range in linarith)
      (rule int_div_pos_eq [where r = "4 * q + k"], simp add: Y, use range in linarith, use range in linarith,
       rule int_div_pos_eq [where r = "100 * c + 4 * q + k"], simp add: Y, use range in linarith, use range in linarith)
  have mp: "(5 * doy + 2) div 153 = (if 3 \<le> m then int m - 3 else int m + 9)"
    unfolding doy_def by (rule month_of_march_day [OF assms(2-5)])
  have z: "int (days_since_1970 y m d) + 719468 = 146097 * e + doe"
    unfolding days_from_march [OF assms(1-4), folded Y_def] parts doe_def doy_def by (simp add: Y)
  have february: "m = 2 \<and> d = 29" if "doy = 365"
    using that mp assms(2-5) by (auto simp: doy_def march_day_def days_in_month_def split: if_splits)
  have last: "k = 3 \<and> (q = 24 \<longrightarrow> c = 3)" if "doy = 365"
  proof -
    have "leap_year y" "int y = 400 * e + 100 * c + 4 * q + k + 1"
      using february [OF that] assms(5) Y by (auto simp: days_in_month_leap Y_def split: if_splits)
    then show ?thesis using leap_year_at_end range by blast
  qed
  have small: "0 \<le> doy" "doy \<le> 365"
    unfolding doy_def by (rule march_day_range [OF assms(2-5)])+
  note era = year_of_era [OF range small last doe_def]
  have e: "(146097 * e + doe) div 146097 = e" by (rule int_div_pos_eq) (use era in auto)
  have "(100 * c + 4 * q + k) div 4 = 25 * c + q" "(100 * c + 4 * q + k) div 100 = c"
    by (rule int_div_pos_eq [where r = k], simp, rule range, use range in linarith)
      (rule int_div_pos_eq [where r = "4 * q + k"], simp, use range in linarith, use range in linarith)
  then have of_year: "146097 * e + doe - e * 146097 = doe"
    "doe - (365 * (100 * c + 4 * q + k) + (100 * c + 4 * q + k) div 4 - (100 * c + 4 * q + k) div 100) = doy"
    by (simp_all add: doe_def)
  have nonneg: "0 \<le> 146097 * e + doe" using z by linarith
  have "civil_date (int (days_since_1970 y m d)) = (100 * c + 4 * q + k + e * 400 + (if 10 \<le> (if 3 \<le> m then int m - 3 else int m + 9) then 1 else 0),
      u32_or_1 ((if 3 \<le> m then int m - 3 else int m + 9) + (if (if 3 \<le> m then int m - 3 else int m + 9) < 10 then 3 else -9)),
      u32_or_1 (doy - (153 * (if 3 \<le> m then int m - 3 else int m + 9) + 2) div 5 + 1))"
    by (rule civil_date_steps [OF z nonneg e of_year(1) era(1) of_year(2) mp])
  also have "\<dots> = (int y, m, d)"
  proof -
    have "doy - (153 * (if 3 \<le> m then int m - 3 else int m + 9) + 2) div 5 + 1 = int d"
      by (simp add: doy_def march_day_def)
    moreover have "100 * c + 4 * q + k + e * 400 + (if 10 \<le> (if 3 \<le> m then int m - 3 else int m + 9) then 1 else 0) = int y"
      using Y assms(2,3) by (auto simp: Y_def split: if_splits)
    moreover have "(if 3 \<le> m then int m - 3 else int m + 9) + (if (if 3 \<le> m then int m - 3 else int m + 9) < 10 then 3 else -9) = int m"
      using assms(2,3) by auto
    moreover have "d \<le> 31" using assms(5) by (auto simp: days_in_month_def split: if_splits)
    then have "u32_or_1 (int m) = m" "u32_or_1 (int d) = d" using assms(3) by (simp_all add: u32_or_1_def)
    ultimately show ?thesis by (simp only:)
  qed
  finally show ?thesis .
qed

lemma zero_char: "char_of (48::nat) = CHR ''0''"
  by code_simp

lemma zero_padded_2: "n < 100 \<Longrightarrow> zero_padded 2 n = pad2 n"
  by (cases "n < 10")
    (auto simp: zero_padded_def pad2_def digit_char_def show_nat.simps [of n] show_nat.simps [of "n div 10"] zero_char)

lemma zero_padded_4:
  assumes "1000 \<le> n" "n \<le> 9999"
  shows "zero_padded 4 n = pad4 n"
proof -
  have "n mod 100 = n div 10 mod 10 * 10 + n mod 10" using mod_mult2_eq [of n 10 10] by simp
  then have "n mod 100 div 10 = n div 10 mod 10" "n mod 100 mod 10 = n mod 10" by (simp_all only:) simp_all
  moreover have "n div 100 mod 10 = n div 10 div 10 mod 10" "n div 10 div 10 = n div 100" "n div 100 div 10 < 10" "n div 100 < 100" "10 \<le> n div 100" "10 \<le> n div 10"
    using assms by (simp_all add: div_mult2_eq [symmetric])
  ultimately show ?thesis
    using assms
    by (simp add: zero_padded_def pad4_def pad2_def digit_char_def show_nat.simps [of n] show_nat.simps [of "n div 10"]
      show_nat.simps [of "n div 100"] show_nat.simps [of "n div 100 div 10"])
qed

lemma split_digit: "s < k \<Longrightarrow> (a * k + s) div k = (a :: nat)" "s < k \<Longrightarrow> (a * k + s) mod k = s"
  by simp_all

lemma seconds_fit:
  assumes "real_moment y m d h mi s"
  shows "seconds_since_1970 y m d h mi s < 2 ^ 64"
proof -
  have years: "sum_list (map f xs) \<le> length xs * b" if "\<And>x. f x \<le> b" for f :: "nat \<Rightarrow> nat" and xs b
    using that by (induction xs) (auto intro: add_mono)
  have "sum_list (map (\<lambda>k. if leap_year k then 366 else 365) [1970..<y]) \<le> length [1970..<y] * 366" by (rule years) simp
  moreover have "sum_list (map (days_in_month y) [1..<m]) \<le> length [1..<m] * 31" by (rule years) (simp add: days_in_month_def)
  ultimately have "days_since_1970 y m d < 8030 * 366 + 12 * 31 + 31"
    using assms by (auto simp: days_since_1970_def real_moment_def days_in_month_def split: if_splits)
  then show ?thesis using assms by (simp add: seconds_since_1970_def real_moment_def)
qed

text \<open>A use case that is given a request that validates, with a fresh manifest of its run, fails only for a
  reason of its ports.\<close>

definition port_failure :: "capture_use_case_error \<Rightarrow> bool" where
  "port_failure err \<longleftrightarrow> (case err of CaptureError _ \<Rightarrow> True | StorageError _ \<Rightarrow> True | ArchiveRejected \<Rightarrow> True | _ \<Rightarrow> False)"

lemma port_failure_simps [simp]:
  "port_failure (CaptureError a)" "port_failure (StorageError b)" "port_failure ArchiveRejected" "\<not> port_failure (RequestError c)" "\<not> port_failure (ManifestFailed d)"
  by (simp_all add: port_failure_def)

lemma triple_top: "triple P m (\<lambda>_ _. True) (\<lambda>_ _. True)"
  by (simp add: triple_def split: prod.splits sum.splits)

lemma fail_of_port:
  assumes "port_failure err"
  shows "triple P (capture_fail uc run_id audit_code err) Q (\<lambda>e _. port_failure e)"
proof -
  have "triple (\<lambda>_. True) (do_then (do_map_err StorageError (st_discard (uc_storage uc) run_id)) (\<lambda>_. do_fail err)) Q (\<lambda>e _. port_failure e)"
    by (rule triple_then, rule triple_map_err, rule triple_weaken [OF triple_top], simp, rule TrueI, simp)
      (rule triple_weaken [OF triple_fail [where E = "\<lambda>e _. port_failure e" and Q = Q]], simp_all add: assms)
  then show ?thesis unfolding triple_def capture_fail_def by simp
qed

lemma capture_fails_of_port:
  assumes "filesystem_capture_request_validate request = Inr ()"
  shows "triple (\<lambda>_. True) (filesystem_capture_execute uc request) (\<lambda>_ _. True) (\<lambda>e _. port_failure e)"
proof -
  note failed = fail_of_port [where P = "\<lambda>_. True"]
  note step = triple_match [OF triple_top [where P = "\<lambda>_. True"]]
  show ?thesis
    unfolding filesystem_capture_execute_def
    by (rule triple_lift, rule triple_then [where R = "\<lambda>_ _. True"], rule triple_map_err, rule triple_weaken [OF triple_top], simp, simp, simp,
      rule step, simp_all add: failed assms)
      (rule step, simp_all add: failed, rule step, simp_all add: failed, rule step, simp_all add: failed triple_done)
qed

lemma backup_fails_of_port:
  assumes v: "filesystem_capture_request_validate (br_capture request) = Inr ()"
    and m: "mf_run_id (br_manifest request) = cr_run_id (br_capture request)" "mf_payloads (br_manifest request) = []"
  shows "triple (\<lambda>_. True) (filesystem_backup_execute uc signer request) (\<lambda>_ _. True) (\<lambda>e _. port_failure e)"
proof -
  have discard: "triple (\<lambda>_. True) (do_match (st_discard (uc_storage uc) run) (\<lambda>_. do_fail (StorageError e))) Q (\<lambda>e _. port_failure e)" for run e and Q :: "backup_id \<Rightarrow> _"
    by (rule triple_match [OF triple_top]) (simp_all add: triple_def)
  have add: "\<exists>extended. add_payload (br_manifest request) payload = Inr extended" for payload
    using m(2) by (simp add: add_payload_def Let_def)
  have "triple (\<lambda>_. True) (do_match (st_seal (uc_storage uc) manifest sealed_at signer) (\<lambda>r.
      case r of Inr sealed \<Rightarrow> do_return sealed
      | Inl err \<Rightarrow> \<lambda>s. do_match (st_discard (uc_storage uc) run) (\<lambda>_. do_fail (StorageError err)) (uc_audit uc run AuditStorage s)))
      (\<lambda>_ _. True) (\<lambda>e _. port_failure e)" for manifest sealed_at run
    by (rule triple_match [OF triple_top]) (use discard in \<open>simp_all add: triple_def\<close>)
  then have "triple (\<lambda>_. True) (let run_id = cr_run_id (br_capture request); manifest = br_manifest request in
      if mf_run_id manifest \<noteq> run_id then capture_fail uc run_id AuditStorage (ManifestFailed NotSealed)
      else case add_payload manifest payload of
          Inl err \<Rightarrow> capture_fail uc run_id AuditStorage (ManifestFailed err)
        | Inr manifest \<Rightarrow> do_match (st_seal (uc_storage uc) manifest (br_sealed_at request) signer) (\<lambda>r.
             case r of Inr sealed \<Rightarrow> do_return sealed
             | Inl err \<Rightarrow> \<lambda>s. do_match (st_discard (uc_storage uc) run_id) (\<lambda>_. do_fail (StorageError err)) (uc_audit uc run_id AuditStorage s)))
      (\<lambda>_ _. True) (\<lambda>e _. port_failure e)" for payload
    using m(1) add [of payload] by (auto simp: Let_def)
  then show ?thesis
    unfolding filesystem_backup_execute_def
    by (intro triple_then [OF capture_fails_of_port [OF v]])
qed

lemma payload_paths_parse:
  "payload_path_parse FILESYSTEM_PAYLOAD_PATH = Inr FILESYSTEM_PAYLOAD_PATH" "payload_path_parse DATABASE_PAYLOAD_PATH = Inr DATABASE_PAYLOAD_PATH"
  "FILESYSTEM_PAYLOAD_PATH \<noteq> DATABASE_PAYLOAD_PATH"
  by code_simp+

section \<open>Properties\<close>

text \<open>C40: the clock. For every real moment from 1970 to 9999 the seconds that have passed, counted over the
  days of the years and months, are printed as exactly that moment.\<close>

theorem unix_timestamp_exact:
  assumes "real_moment y m d h mi s"
  shows "format_unix_timestamp (word_of_nat (seconds_since_1970 y m d h mi s)) = Inr (format_timestamp y m d h mi s)"
proof -
  let ?n = "seconds_since_1970 y m d h mi s"
  have "unat (word_of_nat ?n :: u64) = ?n" using seconds_fit [OF assms] by (simp add: unat_of_nat)
  moreover have "?n div 86400 = days_since_1970 y m d" "?n mod 86400 = h * 3600 + mi * 60 + s"
    "(h * 3600 + mi * 60 + s) div 3600 = h" "(h * 3600 + mi * 60 + s) div 60 mod 60 = mi" "(h * 3600 + mi * 60 + s) mod 60 = s"
  proof -
    have low: "s < 60" "mi * 60 + s < 3600" "h * 3600 + (mi * 60 + s) < 86400" "mi < 60" using assms by (auto simp: real_moment_def)
    have n: "?n = days_since_1970 y m d * 86400 + (h * 3600 + (mi * 60 + s))" by (simp add: seconds_since_1970_def)
    show "?n div 86400 = days_since_1970 y m d" "?n mod 86400 = h * 3600 + mi * 60 + s" unfolding n using low by simp_all
    show "(h * 3600 + mi * 60 + s) div 3600 = h" using low by simp
    have t: "h * 3600 + mi * 60 + s = (h * 60 + mi) * 60 + s" by simp
    show "(h * 3600 + mi * 60 + s) div 60 mod 60 = mi" "(h * 3600 + mi * 60 + s) mod 60 = s" unfolding t using low by (simp_all only: split_digit)
  qed
  moreover have "civil_date (int (days_since_1970 y m d)) = (int y, m, d)"
    by (rule civil_date_correct) (use assms in \<open>auto simp: real_moment_def\<close>)
  moreover have "d < 100" using assms by (auto simp: real_moment_def days_in_month_def split: if_splits)
  then have "zero_padded 4 y = pad4 y" "zero_padded 2 m = pad2 m" "zero_padded 2 d = pad2 d" "zero_padded 2 h = pad2 h"
    "zero_padded 2 mi = pad2 mi" "zero_padded 2 s = pad2 s"
    using assms by (auto simp: real_moment_def zero_padded_2 zero_padded_4)
  ultimately show ?thesis
    using format_timestamp_accepted [OF assms]
    by (simp add: format_unix_timestamp_def Let_def format_timestamp_def timestamp_parse_def)
qed

lemma unix_timestamp_exact_witness:
  "format_unix_timestamp (word_of_nat (seconds_since_1970 2024 2 29 23 59 59)) = Inr ''2024-02-29T23:59:59Z''"
proof -
  have "real_moment 2024 2 29 23 59 59" by code_simp
  moreover have "format_timestamp 2024 2 29 23 59 59 = ''2024-02-29T23:59:59Z''" by code_simp
  ultimately show ?thesis using unix_timestamp_exact by metis
qed

text \<open>C39: what a saved plan becomes. For a valid plan of the profile the requests exist and validate, they
  belong to one run, the manifest is the fresh one of that run, and the two payloads have different paths;
  the filesystem use case on them fails only for a failure of its ports, never because of the request or
  the manifest.\<close>

theorem built_requests_well_formed:
  assumes plan: "filesystem_capture_plan_validate (ci_plan input) = Inr ()" and profile: "fc_profile_id (ci_plan input) = vp_profile_id (ci_profile input)"
  shows "\<exists>requests. build_capture_requests sha256 version platform input = Inr requests \<and>
    filesystem_capture_request_validate (br_capture (cq_backup requests)) = Inr () \<and>
    cr_run_id (br_capture (cq_backup requests)) = ci_run_id input \<and> cr_roots (br_capture (cq_backup requests)) = fc_roots (ci_plan input) \<and>
    mf_run_id (br_manifest (cq_backup requests)) = ci_run_id input \<and> mf_backup_id (br_manifest (cq_backup requests)) = ci_backup_id input \<and>
    mf_payloads (br_manifest (cq_backup requests)) = [] \<and>
    map_option dr_database_path (cq_database requests) = fc_database_path (ci_plan input) \<and>
    (\<forall>database. cq_database requests = Some database \<longrightarrow> database_capture_request_validate database = Inr () \<and>
       dr_run_id database = ci_run_id input \<and> dr_payload_path database \<noteq> cr_payload_path (br_capture (cq_backup requests))) \<and>
    (\<forall>uc signer s err t. filesystem_backup_execute uc signer (cq_backup requests) s = (Inl err, t) \<longrightarrow> port_failure err)"
proof -
  obtain requests where r: "build_capture_requests sha256 version platform input = Inr requests"
    using profile by (cases "fc_database_path (ci_plan input)") (simp_all add: build_capture_requests_def Let_def payload_paths_parse)
  have v: "filesystem_capture_request_validate (br_capture (cq_backup requests)) = Inr ()" "mf_run_id (br_manifest (cq_backup requests)) = cr_run_id (br_capture (cq_backup requests))"
    "mf_payloads (br_manifest (cq_backup requests)) = []"
    using plan profile r by (auto simp: build_capture_requests_def Let_def payload_paths_parse filesystem_capture_request_validate_def filesystem_capture_plan_validate_def
      manifest_new_def split: option.splits if_splits)
  have "port_failure err" if "filesystem_backup_execute uc signer (cq_backup requests) s = (Inl err, t)" for uc signer and s :: 's and err t
    using triple_err [OF backup_fails_of_port [OF v] TrueI that] .
  then show ?thesis
    using plan profile r v by (auto simp: build_capture_requests_def Let_def payload_paths_parse payload_paths_parse(3) [symmetric] database_capture_request_validate_def filesystem_capture_plan_validate_def
      manifest_new_def split: option.splits if_splits)
qed

definition sample_input :: capture_input where
  "sample_input =
     \<lparr>ci_plan = \<lparr>fc_plan_id = ''plan-001'', fc_version = 1, fc_profile_id = ''profile-001'', fc_repository_id = ''repository-001'',
        fc_roots = [''/srv''], fc_database_path = Some ''/srv/app.db''\<rparr>,
      ci_plan_sha256 = ''00'', ci_source_layout = None, ci_profile = sample_profile ''profile-001'',
      ci_run_id = ''run-001'', ci_backup_id = ''backup-001'', ci_created_at = ''2026-07-14T12:00:00Z''\<rparr>"

lemma built_requests_well_formed_witness:
  "\<exists>requests. build_capture_requests (\<lambda>_. []) ''1.0'' ''linux'' sample_input = Inr requests \<and>
     cr_roots (br_capture (cq_backup requests)) = [''/srv''] \<and> map_option dr_database_path (cq_database requests) = Some ''/srv/app.db''"
proof -
  have plan: "filesystem_capture_plan_validate (ci_plan sample_input) = Inr ()" by code_simp
  have profile: "fc_profile_id (ci_plan sample_input) = vp_profile_id (ci_profile sample_input)"
    by (simp add: sample_input_def sample_profile_def)
  obtain requests where "build_capture_requests (\<lambda>_. []) ''1.0'' ''linux'' sample_input = Inr requests"
    "cr_roots (br_capture (cq_backup requests)) = fc_roots (ci_plan sample_input)"
    "map_option dr_database_path (cq_database requests) = fc_database_path (ci_plan sample_input)"
    using built_requests_well_formed [OF plan profile, of "\<lambda>_. []" "''1.0''" "''linux''"] by blast
  then show ?thesis by (auto simp: sample_input_def)
qed

end
