(* ===== verification/Vault.thy ===== *)
theory Vault
  imports Store_Interface Identifiers Envelope
begin

text \<open>
  \<^verbatim>\<open>crates/guardian-vault/src\<close>: the encrypted file vault. A directory holds a master key, a canary that
  proves the key, and one sealed file per credential; every file is replaced through a scratch file.
  AES-GCM is a parameter, the random key and nonces are arguments, and the Unix side of the
  conditional compilation is modelled.
\<close>

section \<open>Definitions\<close>

datatype vault_error =
    VaultNotInitialized | VaultAlreadyInitialized | VaultCorrupt | VaultBusy | SecretTooLarge
  | VaultUnsafeFilesystemEntry | VaultEncryption | VaultIo string fs_error

text \<open>The environment of a call: the AEAD, the nonce the generator returns in a state of the world, the
  vaults this process has locked and whether another process holds the lock file.\<close>

record vault_env =
  ve_encrypt :: aead
  ve_decrypt :: aead
  ve_nonce :: "world \<Rightarrow> byte list"
  ve_held :: "path set"
  ve_contended :: bool

subsection \<open>Files\<close>

definition process_lock_acquire :: "path set \<Rightarrow> path \<Rightarrow> vault_error + path set" where
  "process_lock_acquire held path = (if path \<in> held then Inl VaultBusy else Inr (insert path held))"

definition process_lock_drop :: "path set \<Rightarrow> path \<Rightarrow> path set" where
  "process_lock_drop held path = held - {path}"

definition vault_acquire_lock :: "vault_env \<Rightarrow> path \<Rightarrow> (world, vault_error, unit) action" where
  "vault_acquire_lock env vault_dir =
     do_then (do_lift (process_lock_acquire (ve_held env) vault_dir)) (\<lambda>_.
     do_then (do_map_err (VaultIo ''create vault directory'') (create_dir_all vault_dir)) (\<lambda>_.
     do_then (do_map_err (VaultIo ''open vault lock'') (open_or_create (vault_dir @ [''vault.lock'']))) (\<lambda>_.
       if ve_contended env then do_fail VaultBusy
       else do_map_err (VaultIo ''lock vault'') lock_exclusive)))"

definition vault_exists :: "path \<Rightarrow> (world, vault_error, bool) action" where
  "vault_exists path =
     do_match (stat path) (\<lambda>r.
       case r of
         Inr _ \<Rightarrow> do_return True
       | Inl NotFound \<Rightarrow> do_return False
       | Inl e \<Rightarrow> do_fail (VaultIo ''inspect vault file'' e))"

definition ensure_existing_directory :: "path \<Rightarrow> (world, vault_error, unit) action" where
  "ensure_existing_directory path =
     do_match (stat path) (\<lambda>r.
       case r of
         Inr metadata \<Rightarrow> if metadata = FsDir then do_return () else do_fail VaultUnsafeFilesystemEntry
       | Inl NotFound \<Rightarrow> do_fail VaultNotInitialized
       | Inl e \<Rightarrow> do_fail (VaultIo ''inspect vault directory'' e))"

definition create_directory :: "path \<Rightarrow> (world, vault_error, unit) action" where
  "create_directory path =
     do_match (stat path) (\<lambda>r.
       case r of
         Inr metadata \<Rightarrow> if metadata = FsDir then do_return () else do_fail VaultUnsafeFilesystemEntry
       | Inl NotFound \<Rightarrow> do_map_err (VaultIo ''create vault directory'') (create_dir_all path)
       | Inl e \<Rightarrow> do_fail (VaultIo ''inspect vault directory'' e))"

definition vault_read_file :: "path \<Rightarrow> nat \<Rightarrow> (world, vault_error, byte list option) action" where
  "vault_read_file path max_bytes =
     do_match (stat path) (\<lambda>r.
       case r of
         Inr (FsFile bytes) \<Rightarrow>
           if length bytes > max_bytes then do_fail VaultCorrupt
           else do_then (do_map_err (VaultIo ''read vault file'') (read_file path)) (\<lambda>bytes. do_return (Some bytes))
       | Inr _ \<Rightarrow> do_fail VaultUnsafeFilesystemEntry
       | Inl NotFound \<Rightarrow> do_return None
       | Inl e \<Rightarrow> do_fail (VaultIo ''inspect vault file'' e))"

definition vault_sync_parent :: "path \<Rightarrow> (world, vault_error, unit) action" where
  "vault_sync_parent path =
     (if path = [] then do_fail VaultUnsafeFilesystemEntry
      else do_map_err (VaultIo ''sync vault directory'') (do_then (open_path (butlast path)) (\<lambda>_. sync)))"

definition remove_regular_if_present :: "path \<Rightarrow> (world, vault_error, unit) action" where
  "remove_regular_if_present path =
     do_match (stat path) (\<lambda>r.
       case r of
         Inr (FsFile _) \<Rightarrow>
           do_then (do_map_err (VaultIo ''remove vault file'') (remove_file path)) (\<lambda>_. vault_sync_parent path)
       | Inr _ \<Rightarrow> do_fail VaultUnsafeFilesystemEntry
       | Inl NotFound \<Rightarrow> do_return ()
       | Inl e \<Rightarrow> do_fail (VaultIo ''inspect vault file'' e))"

definition create_restricted :: "path \<Rightarrow> (world, vault_error, unit) action" where
  "create_restricted path = do_map_err (VaultIo ''create vault file'') (create_new path)"

definition vault_atomic_write :: "path \<Rightarrow> byte list \<Rightarrow> (world, vault_error, unit) action" where
  "vault_atomic_write path bytes =
     (if path = [] then do_fail VaultUnsafeFilesystemEntry
      else
        let temporary = butlast path @ [last path @ ''.tmp''] in
        do_then (remove_regular_if_present temporary) (\<lambda>_.
        do_then (create_restricted temporary) (\<lambda>_.
        do_then (do_map_err (VaultIo ''write vault file'') (do_then (write_file temporary bytes) (\<lambda>_. sync))) (\<lambda>_.
        do_then (do_map_err (VaultIo ''publish vault file'') (rename temporary path)) (\<lambda>_.
        vault_sync_parent path)))))"

subsection \<open>The master key and the canary\<close>

definition KEY_FILE_NAME :: string where "KEY_FILE_NAME = ''vault.key''"

definition CANARY_FILE_NAME :: string where "CANARY_FILE_NAME = ''canary.enc''"

definition CANARY_AAD :: "byte list" where "CANARY_AAD = bytes_of ''guardian-vault-canary-v1''"

definition CANARY_PLAINTEXT :: "byte list" where "CANARY_PLAINTEXT = bytes_of ''guardian-vault-canary''"

definition CANARY_MAX_BYTES :: nat where "CANARY_MAX_BYTES = 4096"

definition master_key_load :: "path \<Rightarrow> (world, vault_error, payload_key) action" where
  "master_key_load vault_dir =
     do_then (vault_read_file (vault_dir @ [KEY_FILE_NAME]) KEY_BYTES) (\<lambda>found.
     do_then (do_lift (ok_or found VaultNotInitialized)) (\<lambda>bytes.
       if length bytes \<noteq> KEY_BYTES then do_fail VaultCorrupt
       else do_lift (map_err (\<lambda>_. VaultCorrupt) (payload_key_from_bytes bytes))))"

definition master_key_write_new :: "path \<Rightarrow> payload_key \<Rightarrow> (world, vault_error, unit) action" where
  "master_key_write_new vault_dir key =
     (let path = vault_dir @ [KEY_FILE_NAME] in
      do_then (vault_exists path) (\<lambda>present.
        if present then do_fail VaultAlreadyInitialized
        else
          do_then (vault_atomic_write path key) (\<lambda>_.
          do_then (master_key_load vault_dir) (\<lambda>confirmed.
            if confirmed \<noteq> key then do_fail VaultCorrupt else do_return ()))))"

definition write_canary :: "vault_env \<Rightarrow> path \<Rightarrow> payload_key \<Rightarrow> (world, vault_error, unit) action" where
  "write_canary env vault_dir key w =
     do_then (do_lift (map_err (\<lambda>_. VaultEncryption) (seal_bytes (ve_encrypt env) key (ve_nonce env w) CANARY_PLAINTEXT CANARY_AAD))) (\<lambda>ciphertext.
     vault_atomic_write (vault_dir @ [CANARY_FILE_NAME]) ciphertext) w"

definition verify_canary :: "vault_env \<Rightarrow> path \<Rightarrow> payload_key \<Rightarrow> (world, vault_error, unit) action" where
  "verify_canary env vault_dir key =
     do_then (vault_read_file (vault_dir @ [CANARY_FILE_NAME]) CANARY_MAX_BYTES) (\<lambda>found.
     do_then (do_lift (ok_or found VaultNotInitialized)) (\<lambda>bytes.
     do_then (do_lift (map_err (\<lambda>_. VaultCorrupt) (open_bytes (ve_decrypt env) key bytes CANARY_AAD))) (\<lambda>plaintext.
       if plaintext \<noteq> CANARY_PLAINTEXT then do_fail VaultCorrupt else do_return ())))"

subsection \<open>Opening and initializing a vault\<close>

record vault =
  va_root :: path
  va_key :: payload_key

definition secrets_dir :: "path \<Rightarrow> path" where
  "secrets_dir root = root @ [''secrets'']"

definition vault_open :: "vault_env \<Rightarrow> path \<Rightarrow> (world, vault_error, vault) action" where
  "vault_open env vault_dir =
     do_then (ensure_existing_directory vault_dir) (\<lambda>_.
     do_then (master_key_load vault_dir) (\<lambda>key.
     do_then (verify_canary env vault_dir key) (\<lambda>_.
     do_then (ensure_existing_directory (secrets_dir vault_dir)) (\<lambda>_.
     do_return \<lparr>va_root = vault_dir, va_key = key\<rparr>))))"

datatype vault_init_outcome = Created | Recovered

definition recover_or_reject :: "vault_env \<Rightarrow> path \<Rightarrow> payload_key \<Rightarrow> (world, vault_error, vault_init_outcome) action" where
  "recover_or_reject env vault_dir key =
     do_match (verify_canary env vault_dir key) (\<lambda>r.
       case r of
         Inr _ \<Rightarrow> do_fail VaultAlreadyInitialized
       | Inl VaultNotInitialized \<Rightarrow> do_then (write_canary env vault_dir key) (\<lambda>_. do_return Recovered)
       | Inl other \<Rightarrow> do_fail other)"

definition create_fresh :: "vault_env \<Rightarrow> payload_key \<Rightarrow> path \<Rightarrow> (world, vault_error, vault_init_outcome) action" where
  "create_fresh env generated vault_dir =
     do_then (master_key_write_new vault_dir generated) (\<lambda>_.
     do_then (write_canary env vault_dir generated) (\<lambda>_. do_return Created))"

definition vault_init :: "vault_env \<Rightarrow> payload_key \<Rightarrow> path \<Rightarrow> (world, vault_error, vault_init_outcome) action" where
  "vault_init env generated vault_dir =
     do_then (vault_acquire_lock env vault_dir) (\<lambda>_.
     do_then (create_directory vault_dir) (\<lambda>_.
     do_then (create_directory (vault_dir @ [''secrets''])) (\<lambda>_.
     do_match (master_key_load vault_dir) (\<lambda>r.
       case r of
         Inr key \<Rightarrow> recover_or_reject env vault_dir key
       | Inl VaultNotInitialized \<Rightarrow> create_fresh env generated vault_dir
       | Inl other \<Rightarrow> do_fail other))))"

subsection \<open>Secrets\<close>

definition MAX_SECRET_BYTES :: nat where "MAX_SECRET_BYTES = 64 * 1024"

definition MAX_SECRET_ENVELOPE_BYTES :: nat where "MAX_SECRET_ENVELOPE_BYTES = MAX_SECRET_BYTES + 4096"

definition secret_path :: "vault \<Rightarrow> credential_id \<Rightarrow> path" where
  "secret_path self i = secrets_dir (va_root self) @ [i @ ''.enc'']"

definition secret_aad :: "credential_id \<Rightarrow> byte list" where
  "secret_aad i = bytes_of ''guardian-vault-secret-v1'' @ bytes_of ''|'' @ bytes_of i"

definition load_secret :: "vault_env \<Rightarrow> payload_key \<Rightarrow> path \<Rightarrow> credential_id \<Rightarrow> (world, vault_error, byte list option) action" where
  "load_secret env key path i =
     do_then (vault_read_file path MAX_SECRET_ENVELOPE_BYTES) (\<lambda>found.
       case found of
         None \<Rightarrow> do_return None
       | Some bytes \<Rightarrow>
           do_then (do_lift (map_err (\<lambda>_. VaultCorrupt) (open_bytes (ve_decrypt env) key bytes (secret_aad i)))) (\<lambda>plaintext.
           do_return (Some plaintext)))"

definition store_secret :: "vault_env \<Rightarrow> payload_key \<Rightarrow> path \<Rightarrow> credential_id \<Rightarrow> byte list \<Rightarrow> (world, vault_error, unit) action" where
  "store_secret env key path i secret w =
     (if length secret > MAX_SECRET_BYTES then (Inl SecretTooLarge, w)
      else
        do_then (do_lift (map_err (\<lambda>_. VaultEncryption) (seal_bytes (ve_encrypt env) key (ve_nonce env w) secret (secret_aad i)))) (\<lambda>ciphertext.
        vault_atomic_write path ciphertext) w)"

definition secret_store_error_from :: "vault_error \<Rightarrow> secret_store_error" where
  "secret_store_error_from err =
     (case err of
        VaultNotInitialized \<Rightarrow> SecretUnavailable
      | VaultBusy \<Rightarrow> SecretUnavailable
      | VaultCorrupt \<Rightarrow> InvalidData
      | SecretTooLarge \<Rightarrow> InvalidData
      | _ \<Rightarrow> OperationFailed)"

definition vault_load :: "vault_env \<Rightarrow> vault \<Rightarrow> credential_id \<Rightarrow> (world, secret_store_error, byte list option) action" where
  "vault_load env self i = do_map_err secret_store_error_from (load_secret env (va_key self) (secret_path self i) i)"

definition vault_store :: "vault_env \<Rightarrow> vault \<Rightarrow> credential_id \<Rightarrow> byte list \<Rightarrow> (world, secret_store_error, unit) action" where
  "vault_store env self i secret = do_map_err secret_store_error_from (store_secret env (va_key self) (secret_path self i) i secret)"

definition vault_delete :: "vault \<Rightarrow> credential_id \<Rightarrow> (world, secret_store_error, unit) action" where
  "vault_delete self i = do_map_err secret_store_error_from (remove_regular_if_present (secret_path self i))"

subsection \<open>Public status\<close>

datatype vault_state = StateNotInitialized | StateReady | StateCorrupt

definition from_open_result :: "vault_error + vault \<Rightarrow> vault_state" where
  "from_open_result result =
     (case result of
        Inr _ \<Rightarrow> StateReady
      | Inl VaultNotInitialized \<Rightarrow> StateNotInitialized
      | Inl _ \<Rightarrow> StateCorrupt)"

definition vault_status :: "vault_env \<Rightarrow> path \<Rightarrow> world \<Rightarrow> vault_state \<times> world" where
  "vault_status env vault_dir w = (case vault_open env vault_dir w of (r, w') \<Rightarrow> (from_open_result r, w'))"

datatype vault_error_code =
    CodeNotInitialized | CodeAlreadyInitialized | CodeCorrupt | CodeBusy | CodeSecretTooLarge | CodeUnsafeFilesystemEntry
  | CodeEncryptionFailed | CodeLocalIoFailure

record vault_failure =
  vf_code :: vault_error_code
  vf_message :: string
  vf_remediation :: string

definition vault_error_code_of :: "vault_error \<Rightarrow> vault_error_code" where
  "vault_error_code_of err =
     (case err of
        VaultNotInitialized \<Rightarrow> CodeNotInitialized
      | VaultAlreadyInitialized \<Rightarrow> CodeAlreadyInitialized
      | VaultCorrupt \<Rightarrow> CodeCorrupt
      | VaultBusy \<Rightarrow> CodeBusy
      | SecretTooLarge \<Rightarrow> CodeSecretTooLarge
      | VaultUnsafeFilesystemEntry \<Rightarrow> CodeUnsafeFilesystemEntry
      | VaultEncryption \<Rightarrow> CodeEncryptionFailed
      | VaultIo _ _ \<Rightarrow> CodeLocalIoFailure)"

definition vault_error_text :: "vault_error_code \<Rightarrow> string \<times> string" where
  "vault_error_text c =
     (case c of
        CodeNotInitialized \<Rightarrow> (''The vault is not initialized.'', ''Run the explicit vault init command.'')
      | CodeAlreadyInitialized \<Rightarrow> (''The vault is already initialized.'', ''Use the existing vault; explicit rotation is not implemented yet.'')
      | CodeCorrupt \<Rightarrow>
          (''The vault's stored key material is corrupt or tampered.'', ''Stop and inspect the vault directory; do not reinitialize implicitly.'')
      | CodeBusy \<Rightarrow> (''The vault is busy with another operation.'', ''Wait for the other VDS Guardian process and retry.'')
      | CodeSecretTooLarge \<Rightarrow>
          (''The secret exceeds the vault's size limit.'', ''Store a smaller credential; the vault accepts at most 64 KiB per secret.'')
      | CodeUnsafeFilesystemEntry \<Rightarrow>
          (''The vault directory contains an unsafe filesystem entry.'', ''Remove links or special files from the vault directory.'')
      | CodeEncryptionFailed \<Rightarrow>
          (''A vault cryptographic operation failed.'', ''Retry and export redacted diagnostics if the problem persists.'')
      | CodeLocalIoFailure \<Rightarrow>
          (''The vault could not be accessed safely.'', ''Check local permissions and free space, then retry.''))"

definition vault_failure_from :: "vault_error \<Rightarrow> vault_failure" where
  "vault_failure_from err =
     (let c = vault_error_code_of err; text = vault_error_text c in
      \<lparr>vf_code = c, vf_message = fst text, vf_remediation = snd text\<rparr>)"

section \<open>Replacing a file of the vault\<close>

lemma stat_found:
  "triple (holds \<Phi>) (stat p) (\<lambda>e. holds (\<lambda>d. \<Phi> d \<and> entry_at d p = Some e))
    (\<lambda>e. holds (\<lambda>d. \<Phi> d \<and> (e = NotFound \<longrightarrow> entry_at d p = None)))"
  unfolding stat_def by (rule io_rule) (auto simp: ok_or_def split: option.splits)

lemma sync_parent_quiet: "triple (holds \<Phi>) (vault_sync_parent p) (\<lambda>_. holds \<Phi>) (\<lambda>_. holds \<Phi>)"
  unfolding vault_sync_parent_def
  by (intro triple_if triple_done triple_relabel triple_then [OF open_path_triple] sync_triple)

definition file_or_none :: "entry option \<Rightarrow> bool" where
  "file_or_none e \<longleftrightarrow> (case e of None \<Rightarrow> True | Some (FsFile _) \<Rightarrow> True | _ \<Rightarrow> False)"

lemma file_or_none_simps [simp]: "file_or_none None" "file_or_none (Some (FsFile bytes))"
  by (simp_all add: file_or_none_def)

lemma file_or_none_iff: "file_or_none e \<longleftrightarrow> e = None \<or> (\<exists>bytes. e = Some (FsFile bytes))"
  by (auto simp: file_or_none_def split: option.splits entry.splits)

locale vault_file = swapped_file directory name temp scratch
  for directory :: path and name temp :: string and scratch :: "string set" +
  assumes temp_eq: "temp = name @ ''.tmp''"
begin

definition removed :: "disk \<Rightarrow> disk \<Rightarrow> bool" where
  "removed d d' \<longleftrightarrow> frame d d' \<and> entry_at d' target = None"

lemma temporary_eq: "last target @ ''.tmp'' = temp" "directory @ [temp] = temporary" "butlast target = directory" "target \<noteq> []"
  by (simp_all add: target_def temporary_def flip: temp_eq)

lemma remove_temporary: "triple (holds (kept d)) (remove_regular_if_present temporary) (\<lambda>_. holds (kept d)) (\<lambda>_. holds (kept d))"
  unfolding remove_regular_if_present_def
proof (rule triple_match [OF read_only_kept])
  fix e
  show "triple (holds (kept d)) (case Inr e of
         Inr (FsFile _) \<Rightarrow> do_then (do_map_err (VaultIo ''remove vault file'') (remove_file temporary)) (\<lambda>_. vault_sync_parent temporary)
       | Inr _ \<Rightarrow> do_fail VaultUnsafeFilesystemEntry | Inl NotFound \<Rightarrow> do_return ()
       | Inl e \<Rightarrow> do_fail (VaultIo ''inspect vault file'' e)) (\<lambda>_. holds (kept d)) (\<lambda>_. holds (kept d))"
    using triple_then [OF triple_relabel [OF remove_temporary_kept] sync_parent_quiet]
    by (cases e) (simp_all add: triple_done)
next
  fix e
  show "triple (holds (kept d)) (case Inl e of
         Inr (FsFile _) \<Rightarrow> do_then (do_map_err (VaultIo ''remove vault file'') (remove_file temporary)) (\<lambda>_. vault_sync_parent temporary)
       | Inr _ \<Rightarrow> do_fail VaultUnsafeFilesystemEntry | Inl NotFound \<Rightarrow> do_return ()
       | Inl e \<Rightarrow> do_fail (VaultIo ''inspect vault file'' e)) (\<lambda>_. holds (kept d)) (\<lambda>_. holds (kept d))"
    by (cases e) (simp_all add: triple_done)
qed

lemma atomic_write_swaps:
  "triple (holds (kept d)) (vault_atomic_write target bytes) (\<lambda>_. holds (swapped bytes d)) (\<lambda>_. holds (\<lambda>d'. kept d d' \<or> swapped bytes d d'))"
proof -
  let ?E = "\<lambda>_ :: vault_error. holds (\<lambda>d'. kept d d' \<or> swapped bytes d d')"
  have r: "triple (holds (kept d)) (remove_regular_if_present temporary) (\<lambda>_. holds (kept d)) ?E"
    by (rule triple_weaken [OF remove_temporary]) auto
  have s: "triple (holds (swapped bytes d)) (vault_sync_parent target) (\<lambda>_. holds (swapped bytes d)) ?E"
    by (rule triple_weaken [OF sync_parent_quiet [of "swapped bytes d"]]) auto
  have "triple (holds (kept d)) (do_then (remove_regular_if_present temporary) (\<lambda>_.
        do_then (create_restricted temporary) (\<lambda>_.
        do_then (do_map_err (VaultIo ''write vault file'') (do_then (write_file temporary bytes) (\<lambda>_. sync))) (\<lambda>_.
        do_then (do_map_err (VaultIo ''publish vault file'') (rename temporary target)) (\<lambda>_.
        vault_sync_parent target))))) (\<lambda>_. holds (swapped bytes d)) ?E"
    unfolding create_restricted_def by (rule triple_then [OF r replace_triple [OF s]]) auto
  then show ?thesis by (simp add: vault_atomic_write_def Let_def temporary_eq)
qed

lemma remove_target:
  "triple (holds (kept d)) (remove_regular_if_present target) (\<lambda>_. holds (removed d)) (\<lambda>_. holds (\<lambda>d'. kept d d' \<or> removed d d'))"
proof -
  let ?E = "\<lambda>_ :: vault_error. holds (\<lambda>d'. kept d d' \<or> removed d d')"
  let ?rm = "do_then (do_map_err (VaultIo ''remove vault file'') (remove_file target)) (\<lambda>_. vault_sync_parent target)"
  have gone: "removed d (del target d')" if "kept d d'" for d'
    using that temporary_eq(4) paths_unrelated(5) by (auto simp: removed_def kept_def frame_def entry_at_del elsewhere_def)
  have "triple (holds (kept d)) (remove_file target) (\<lambda>_. holds (removed d)) (\<lambda>_. holds (kept d))"
    by (rule triple_weaken [OF remove_file_triple [of "kept d" _ "removed d"]]) (auto intro: gone)
  then have "triple (holds (kept d)) (remove_file target) (\<lambda>_. holds (removed d)) (\<lambda>_. holds (\<lambda>d'. kept d d' \<or> removed d d'))"
    by (rule triple_weaken) auto
  then have r: "triple (holds (kept d)) (do_map_err (VaultIo ''remove vault file'') (remove_file target)) (\<lambda>_. holds (removed d)) ?E"
    by (rule triple_relabel)
  have s: "triple (holds (removed d)) (vault_sync_parent target) (\<lambda>_. holds (removed d)) ?E"
    by (rule triple_weaken [OF sync_parent_quiet [of "removed d"]]) auto
  note rm = triple_then [OF r s]
  show ?thesis
    unfolding remove_regular_if_present_def
  proof (rule triple_match [OF stat_found])
    fix e
    have "triple (holds (\<lambda>d'. kept d d' \<and> entry_at d' target = Some e)) ?rm (\<lambda>_. holds (removed d)) ?E"
      by (rule triple_weaken [OF rm]) auto
    then show "triple (holds (\<lambda>d'. kept d d' \<and> entry_at d' target = Some e)) (case Inr e of
         Inr (FsFile _) \<Rightarrow> ?rm
       | Inr _ \<Rightarrow> do_fail VaultUnsafeFilesystemEntry | Inl NotFound \<Rightarrow> do_return ()
       | Inl e \<Rightarrow> do_fail (VaultIo ''inspect vault file'' e)) (\<lambda>_. holds (removed d)) ?E"
      by (cases e) (simp_all add: triple_def)
  next
    fix e
    show "triple (holds (\<lambda>d'. kept d d' \<and> (e = NotFound \<longrightarrow> entry_at d' target = None))) (case Inl e of
         Inr (FsFile _) \<Rightarrow> ?rm
       | Inr _ \<Rightarrow> do_fail VaultUnsafeFilesystemEntry | Inl NotFound \<Rightarrow> do_return ()
       | Inl e \<Rightarrow> do_fail (VaultIo ''inspect vault file'' e)) (\<lambda>_. holds (removed d)) ?E"
      by (cases e) (auto simp: triple_def kept_def removed_def)
  qed
qed

text \<open>The scratch file is a regular file or absent, before and after.\<close>

definition tidy :: "disk \<Rightarrow> bool" where
  "tidy d \<longleftrightarrow> file_or_none (entry_at d temporary)"

lemma tidy_simps:
  "p \<noteq> [] \<Longrightarrow> tidy d \<Longrightarrow> tidy (del p d)" "p \<noteq> [] \<Longrightarrow> tidy d \<Longrightarrow> tidy (put p (FsFile bs) d)"
  "p \<noteq> [] \<Longrightarrow> tidy d \<Longrightarrow> tidy (append_file p bs d)" "tidy (move_tree temporary target d)"
  using paths_unrelated
  by (auto simp: tidy_def entry_at_del entry_at_put entry_at_append_file entry_at_move_tree split: option.splits entry.splits)

lemma atomic_write_tidy: "triple (holds tidy) (vault_atomic_write target bytes) (\<lambda>_. holds tidy) (\<lambda>_. holds tidy)"
proof -
  have t: "temporary \<noteq> []" using paths_unrelated by simp
  have rm: "triple (holds tidy) (remove_file temporary) (\<lambda>_. holds tidy) (\<lambda>_. holds tidy)"
    by (rule triple_weaken [OF remove_file_triple [of tidy _ tidy]]) (simp_all add: tidy_simps t)
  have st: "triple (holds tidy) (stat temporary) (\<lambda>_. holds tidy) (\<lambda>_. holds tidy)"
    by (rule triple_weaken [OF stat_triple [of tidy]]) auto
  have r: "triple (holds tidy) (remove_regular_if_present temporary) (\<lambda>_. holds tidy) (\<lambda>_. holds tidy)"
    unfolding remove_regular_if_present_def
    by (rule triple_match [OF st])
      (auto split: entry.splits fs_error.splits intro: triple_done triple_then [OF triple_relabel [OF rm] sync_parent_quiet])
  have c: "triple (holds tidy) (create_restricted temporary) (\<lambda>_. holds tidy) (\<lambda>_. holds tidy)"
    unfolding create_restricted_def by (intro triple_relabel create_new_triple) (simp_all add: tidy_simps t)
  have w: "triple (holds tidy) (write_file temporary bytes) (\<lambda>_. holds tidy) (\<lambda>_. holds tidy)"
    by (rule write_file_triple) (simp_all add: tidy_simps t)
  have m: "triple (holds tidy) (rename temporary target) (\<lambda>_. holds tidy) (\<lambda>_. holds tidy)"
    by (rule triple_weaken [OF rename_triple [of tidy _ tidy]]) (simp_all add: tidy_simps)
  have "triple (holds tidy) (do_then (remove_regular_if_present temporary) (\<lambda>_.
        do_then (create_restricted temporary) (\<lambda>_.
        do_then (do_map_err (VaultIo ''write vault file'') (do_then (write_file temporary bytes) (\<lambda>_. sync))) (\<lambda>_.
        do_then (do_map_err (VaultIo ''publish vault file'') (rename temporary target)) (\<lambda>_.
        vault_sync_parent target))))) (\<lambda>_. holds tidy) (\<lambda>_. holds tidy)"
    by (rule triple_then [OF r triple_then [OF c triple_then [OF triple_relabel [OF triple_then [OF w sync_triple]]
      triple_then [OF triple_relabel [OF m] sync_parent_quiet]]]])
  then show ?thesis by (simp add: vault_atomic_write_def Let_def temporary_eq)
qed

text \<open>A replacement takes one phase of the disk to the next, or leaves it in one of the two.\<close>

lemma atomic_write_phase:
  assumes tidy: "\<And>d. \<Phi> d \<Longrightarrow> tidy d"
    and stay: "\<And>d d'. \<Phi> d \<Longrightarrow> kept d d' \<Longrightarrow> tidy d' \<Longrightarrow> \<Phi> d'"
    and move: "\<And>d d'. \<Phi> d \<Longrightarrow> swapped bytes d d' \<Longrightarrow> tidy d' \<Longrightarrow> \<Psi> d'"
  shows "triple (holds \<Phi>) (vault_atomic_write target bytes) (\<lambda>_. holds \<Psi>) (\<lambda>_. holds (\<lambda>d. \<Phi> d \<or> \<Psi> d))"
proof (rule triple_pointwise)
  fix d assume d: "\<Phi> d"
  show "triple (\<lambda>w. disk w = d) (vault_atomic_write target bytes) (\<lambda>_. holds \<Psi>) (\<lambda>_. holds (\<lambda>d. \<Phi> d \<or> \<Psi> d))"
  proof (rule tripleI)
    fix s t and u :: unit assume s: "disk s = d" and run: "vault_atomic_write target bytes s = (Inr u, t)"
    show "\<Psi> (disk t)"
      using triple_ok [OF atomic_write_swaps [of d] _ run] triple_ok [OF atomic_write_tidy _ run] s d tidy [OF d] move [OF d]
      by (auto simp: kept_refl)
  next
    fix s e t assume s: "disk s = d" and run: "vault_atomic_write target bytes s = (Inl e, t)"
    show "\<Phi> (disk t) \<or> \<Psi> (disk t)"
      using triple_err [OF atomic_write_swaps [of d] _ run] triple_err [OF atomic_write_tidy _ run] s d tidy [OF d] move [OF d] stay [OF d]
      by (auto simp: kept_refl)
  qed
qed

text \<open>Without faults a replacement in an existing directory succeeds.\<close>

lemma atomic_write_quiet:
  assumes dir: "entry_at d directory = Some FsDir" and t: "tidy d" and f: "file_or_none (entry_at d target)"
  shows "\<exists>d'. vault_atomic_write target bytes (quiet d) = (Inr (), quiet d') \<and> swapped bytes d d' \<and> tidy d'"
proof -
  have p: "temporary \<noteq> []" "temporary \<noteq> directory" "target \<noteq> directory" "temporary \<noteq> target" "butlast temporary = directory" "butlast target = directory"
    using paths_unrelated by (auto simp: temporary_def target_def)
  have s: "runs (vault_sync_parent q) d' d'" if "butlast q = directory" "q \<noteq> []" "entry_at d' directory = Some FsDir" for q d'
    using that by (simp add: runs_def vault_sync_parent_def quiet_simps do_defs)
  obtain d1 where r: "runs (remove_regular_if_present temporary) d d1" and d1: "entry_at d1 temporary = None" "entry_at d1 directory = Some FsDir" "file_or_none (entry_at d1 target)"
  proof (cases "entry_at d temporary")
    case None
    then show thesis using that [of d] dir f by (simp add: runs_def remove_regular_if_present_def quiet_simps do_defs ok_or_def)
  next
    case (Some e)
    then obtain bs where e: "e = FsFile bs" using t by (auto simp: tidy_def file_or_none_iff)
    have "runs (remove_regular_if_present temporary) d (del temporary d)"
      using s [of temporary "del temporary d"] p dir Some e
      by (simp add: runs_def remove_regular_if_present_def quiet_simps do_defs ok_or_def entry_at_del)
    then show thesis using that dir f p by (simp add: entry_at_del)
  qed
  let ?d2 = "put temporary (FsFile []) d1" let ?d3 = "append_file temporary bytes ?d2" let ?d4 = "move_tree temporary target ?d3"
  have c: "runs (create_restricted temporary) d1 ?d2"
    using d1 p by (simp add: runs_def create_restricted_def quiet_simps do_defs)
  have w: "runs (do_map_err (VaultIo ''write vault file'') (do_then (write_file temporary bytes) (\<lambda>_. sync))) ?d2 ?d3"
    by (simp add: runs_def quiet_simps do_defs)
  have d3: "entry_at ?d3 temporary = Some (FsFile bytes)" "entry_at ?d3 directory = Some FsDir" "file_or_none (entry_at ?d3 target)"
    using d1 p by (simp_all add: entry_at_append_file entry_at_put)
  then have "rename_allowed ?d3 temporary target"
    using p by (auto simp: rename_allowed_def file_or_none_iff)
  then have m: "runs (do_map_err (VaultIo ''publish vault file'') (rename temporary target)) ?d3 ?d4"
    using d3 paths_unrelated by (simp add: runs_def quiet_simps do_defs)
  have "entry_at ?d4 directory = Some FsDir"
    using d3 paths_unrelated scratch_neq(3) temp_scratch by (simp add: entry_at_move_tree temporary_def)
  then have y: "runs (vault_sync_parent target) ?d4 ?d4" using s p temporary_eq by simp
  have "runs (do_then (remove_regular_if_present temporary) (\<lambda>_. do_then (create_restricted temporary) (\<lambda>_.
        do_then (do_map_err (VaultIo ''write vault file'') (do_then (write_file temporary bytes) (\<lambda>_. sync))) (\<lambda>_.
        do_then (do_map_err (VaultIo ''publish vault file'') (rename temporary target)) (\<lambda>_. vault_sync_parent target))))) d ?d4"
    by (intro runs_then [OF r] runs_then [OF c] runs_then [OF w] runs_then [OF m] y)
  then have "\<exists>d'. vault_atomic_write target bytes (quiet d) = (Inr (), quiet d')"
    by (auto simp: runs_def vault_atomic_write_def Let_def temporary_eq)
  then obtain d' where run: "vault_atomic_write target bytes (quiet d) = (Inr (), quiet d')" by blast
  show ?thesis
    using run triple_ok [OF atomic_write_swaps [of d] _ run] triple_ok [OF atomic_write_tidy _ run] t
    by (auto simp: disk_quiet kept_refl)
qed

end

text \<open>Reading returns what the disk holds.\<close>

abbreviation found_at :: "path \<Rightarrow> nat \<Rightarrow> byte list option \<Rightarrow> disk \<Rightarrow> bool" where
  "found_at p max_bytes found d \<equiv>
     (case found of None \<Rightarrow> entry_at d p = None | Some bytes \<Rightarrow> entry_at d p = Some (FsFile bytes) \<and> length bytes \<le> max_bytes)"

lemma vault_read_file_triple:
  "triple (holds \<Phi>) (vault_read_file p max_bytes) (\<lambda>found. holds (\<lambda>d. \<Phi> d \<and> found_at p max_bytes found d))
    (\<lambda>e. holds (\<lambda>d. \<Phi> d \<and> e \<noteq> VaultNotInitialized))"
  unfolding vault_read_file_def
proof (rule triple_match [OF stat_found])
  let ?read = "do_then (do_map_err (VaultIo ''read vault file'') (read_file p)) (\<lambda>bytes. do_return (Some bytes))"
  let ?E = "\<lambda>e. holds (\<lambda>d. \<Phi> d \<and> e \<noteq> VaultNotInitialized)"
  fix e
  have r: "triple (holds (\<lambda>d. \<Phi> d \<and> entry_at d p = Some (FsFile bytes))) ?read (\<lambda>found. holds (\<lambda>d. \<Phi> d \<and> found_at p max_bytes found d)) ?E"
    if "length bytes \<le> max_bytes" for bytes
  proof (rule triple_then [OF triple_map_err])
    show "triple (holds (\<lambda>d. \<Phi> d \<and> entry_at d p = Some (FsFile bytes))) (read_file p)
      (\<lambda>bs. holds (\<lambda>d. \<Phi> d \<and> entry_at d p = Some (FsFile bytes) \<and> bs = bytes)) (\<lambda>e. ?E (VaultIo ''read vault file'' e))"
      by (rule triple_weaken [OF read_file_triple [of "\<lambda>d. \<Phi> d \<and> entry_at d p = Some (FsFile bytes)"]]) auto
  qed (use that in \<open>simp add: triple_def\<close>)
  show "triple (holds (\<lambda>d. \<Phi> d \<and> entry_at d p = Some e)) (case Inr e of
       Inr (FsFile bytes) \<Rightarrow> if length bytes > max_bytes then do_fail VaultCorrupt else ?read
     | Inr _ \<Rightarrow> do_fail VaultUnsafeFilesystemEntry | Inl NotFound \<Rightarrow> do_return None
     | Inl e \<Rightarrow> do_fail (VaultIo ''inspect vault file'' e)) (\<lambda>found. holds (\<lambda>d. \<Phi> d \<and> found_at p max_bytes found d)) ?E"
  proof (cases e)
    case (FsFile bytes)
    then show ?thesis using r [of bytes] by (cases "length bytes \<le> max_bytes") (simp, simp add: triple_def)
  qed (simp_all add: triple_def)
next
  fix e
  show "triple (holds (\<lambda>d. \<Phi> d \<and> (e = NotFound \<longrightarrow> entry_at d p = None))) (case Inl e of
       Inr (FsFile bytes) \<Rightarrow> if length bytes > max_bytes then do_fail VaultCorrupt
         else do_then (do_map_err (VaultIo ''read vault file'') (read_file p)) (\<lambda>bytes. do_return (Some bytes))
     | Inr _ \<Rightarrow> do_fail VaultUnsafeFilesystemEntry | Inl NotFound \<Rightarrow> do_return None
     | Inl e \<Rightarrow> do_fail (VaultIo ''inspect vault file'' e)) (\<lambda>found. holds (\<lambda>d. \<Phi> d \<and> found_at p max_bytes found d))
       (\<lambda>e. holds (\<lambda>d. \<Phi> d \<and> e \<noteq> VaultNotInitialized))"
    by (cases e) (auto simp: triple_def)
qed

section \<open>The secret store\<close>

interpretation secret_file: vault_file directory "i @ ''.enc''" "i @ ''.enc.tmp''" "{i @ ''.enc.tmp''}"
  for directory i
  by unfold_locales auto

definition vault_ready :: "vault_env \<Rightarrow> vault \<Rightarrow> bool" where
  "vault_ready env self \<longleftrightarrow> aead_ok (ve_encrypt env) (ve_decrypt env) \<and> length (va_key self) = KEY_BYTES \<and> (\<forall>w. length (ve_nonce env w) = NONCE_BYTES)"

text \<open>The secrets a disk holds under the key of the vault.\<close>

definition secret_at :: "vault_env \<Rightarrow> vault \<Rightarrow> disk \<Rightarrow> credential_id \<Rightarrow> byte list option" where
  "secret_at env self d i =
     (case entry_at d (secret_path self i) of
        Some (FsFile bytes) \<Rightarrow>
          if length bytes \<le> MAX_SECRET_ENVELOPE_BYTES
          then (case open_bytes (ve_decrypt env) (va_key self) bytes (secret_aad i) of Inr plaintext \<Rightarrow> Some plaintext | Inl _ \<Rightarrow> None)
          else None
      | _ \<Rightarrow> None)"

abbreviation vault_view :: "vault_env \<Rightarrow> vault \<Rightarrow> world \<Rightarrow> credential_id \<Rightarrow> byte list option" where
  "vault_view env self w \<equiv> secret_at env self (disk w)"

lemma secret_target: "secret_file.target (secrets_dir (va_root self)) i = secret_path self i"
  by (simp add: secret_file.target_def secret_path_def)

lemma secret_path_elsewhere: "j \<noteq> i \<Longrightarrow> secret_file.elsewhere (secrets_dir (va_root self)) i (secret_path self j)"
proof -
  assume "j \<noteq> i"
  have "j @ ''.enc'' \<noteq> i @ ''.enc.tmp''"
  proof
    assume "j @ ''.enc'' = i @ ''.enc.tmp''"
    then have "last (j @ ''.enc'') = last (i @ ''.enc.tmp'')" by simp
    then show False by simp
  qed
  then show ?thesis
    using \<open>j \<noteq> i\<close> by (auto simp: secret_file.elsewhere_def secret_file.target_def secret_path_def dest: prefix_length_le)
qed

lemma frame_secret: "secret_file.frame (secrets_dir (va_root self)) i d d' \<Longrightarrow> j \<noteq> i \<Longrightarrow> secret_at env self d' j = secret_at env self d j"
  using secret_path_elsewhere [of j i self] by (simp add: secret_file.frame_def secret_at_def)

lemma kept_secrets: "secret_file.kept (secrets_dir (va_root self)) i d d' \<Longrightarrow> secret_at env self d' = secret_at env self d"
proof
  fix j assume "secret_file.kept (secrets_dir (va_root self)) i d d'"
  then show "secret_at env self d' j = secret_at env self d j"
    using frame_secret [of self i d d' j env] by (cases "j = i") (simp_all add: secret_file.kept_def secret_at_def secret_target)
qed

lemma swapped_secrets:
  assumes "secret_file.swapped (secrets_dir (va_root self)) i sealed d d'"
    and "open_bytes (ve_decrypt env) (va_key self) sealed (secret_aad i) = Inr secret" "length sealed \<le> MAX_SECRET_ENVELOPE_BYTES"
  shows "secret_at env self d' = (secret_at env self d)(i \<mapsto> secret)"
proof
  fix j show "secret_at env self d' j = ((secret_at env self d)(i \<mapsto> secret)) j"
    using assms frame_secret [of self i d d' j env] by (cases "j = i") (simp_all add: secret_file.swapped_def secret_at_def secret_target)
qed

lemma removed_secrets: "secret_file.removed (secrets_dir (va_root self)) i d d' \<Longrightarrow> secret_at env self d' = (secret_at env self d)(i := None)"
proof
  fix j assume "secret_file.removed (secrets_dir (va_root self)) i d d'"
  then show "secret_at env self d' j = ((secret_at env self d)(i := None)) j"
    using frame_secret [of self i d d' j env] by (cases "j = i") (simp_all add: secret_file.removed_def secret_at_def secret_target)
qed

lemma vault_store_run:
  assumes ready: "vault_ready env self" and run: "vault_store env self i secret s = (r, t)"
  shows "vault_view env self t = vault_view env self s \<and> r \<noteq> Inr () \<or> vault_view env self t = (vault_view env self s)(i \<mapsto> secret)"
proof (cases "length secret \<le> MAX_SECRET_BYTES")
  case False
  then show ?thesis using run by (auto simp: vault_store_def store_secret_def do_map_err_def)
next
  case True
  have len: "length secret \<le> CHUNK_BYTES" using True by (simp add: MAX_SECRET_BYTES_def CHUNK_BYTES_def)
  obtain sealed where sealed: "seal_bytes (ve_encrypt env) (va_key self) (ve_nonce env s) secret (secret_aad i) = Inr sealed"
    "open_bytes (ve_decrypt env) (va_key self) sealed (secret_aad i) = Inr secret" "length sealed \<le> length secret + 63"
    using ready len by (auto simp: vault_ready_def intro: seal_bytes_ok)
  have le: "length sealed \<le> MAX_SECRET_ENVELOPE_BYTES" using sealed(3) True by (simp add: MAX_SECRET_ENVELOPE_BYTES_def)
  obtain r' where r': "vault_atomic_write (secret_path self i) sealed s = (r', t)" "r = map_err secret_store_error_from r'"
    using run True sealed(1) by (auto simp: vault_store_def store_secret_def do_map_err_def do_then_def split: prod.splits)
  note tr = secret_file.atomic_write_swaps [of "secrets_dir (va_root self)" i "disk s" sealed, unfolded secret_target]
  show ?thesis
  proof (cases r')
    case (Inl e)
    then show ?thesis
      using triple_err [OF tr _ r'(1) [unfolded Inl]] r'(2) swapped_secrets [OF _ sealed(2) le] kept_secrets
      by (auto simp: secret_file.kept_refl)
  next
    case (Inr u)
    then show ?thesis
      using triple_ok [OF tr _ r'(1) [unfolded Inr]] swapped_secrets [OF _ sealed(2) le] by (auto simp: secret_file.kept_refl)
  qed
qed

lemma vault_delete_run:
  assumes "vault_delete self i s = (r, t)"
  shows "vault_view env self t = vault_view env self s \<and> r \<noteq> Inr () \<or> vault_view env self t = (vault_view env self s)(i := None)"
proof -
  obtain r' where r': "remove_regular_if_present (secret_path self i) s = (r', t)" "r = map_err secret_store_error_from r'"
    using assms by (auto simp: vault_delete_def do_map_err_def split: prod.splits)
  note tr = secret_file.remove_target [of "secrets_dir (va_root self)" i "disk s", unfolded secret_target]
  show ?thesis
  proof (cases r')
    case (Inl e)
    then show ?thesis
      using triple_err [OF tr _ r'(1) [unfolded Inl]] r'(2) removed_secrets kept_secrets by (auto simp: secret_file.kept_refl)
  next
    case (Inr u)
    then show ?thesis
      using triple_ok [OF tr _ r'(1) [unfolded Inr]] removed_secrets by (auto simp: secret_file.kept_refl)
  qed
qed

lemma vault_load_run:
  assumes "vault_load env self i s = (r, t)"
  shows "disk t = disk s \<and> (\<forall>x. r = Inr x \<longrightarrow> x = vault_view env self s i)"
proof -
  let ?P = "\<lambda>found d. d = disk s \<and> found_at (secret_path self i) MAX_SECRET_ENVELOPE_BYTES found d"
  have "triple (holds (\<lambda>d. d = disk s)) (load_secret env (va_key self) (secret_path self i) i)
      (\<lambda>x. holds (\<lambda>d. d = disk s \<and> x = secret_at env self d i)) (\<lambda>_. holds (\<lambda>d. d = disk s))"
    unfolding load_secret_def
  proof (rule triple_then)
    show "triple (holds (\<lambda>d. d = disk s)) (vault_read_file (secret_path self i) MAX_SECRET_ENVELOPE_BYTES)
        (\<lambda>found. holds (?P found)) (\<lambda>_. holds (\<lambda>d. d = disk s))"
      by (rule triple_weaken [OF vault_read_file_triple [of "\<lambda>d. d = disk s"]]) auto
  next
    fix found
    show "triple (holds (?P found)) (case found of None \<Rightarrow> do_return None
       | Some bytes \<Rightarrow> do_then (do_lift (map_err (\<lambda>_. VaultCorrupt) (open_bytes (ve_decrypt env) (va_key self) bytes (secret_aad i)))) (\<lambda>plaintext.
           do_return (Some plaintext))) (\<lambda>x. holds (\<lambda>d. d = disk s \<and> x = secret_at env self d i)) (\<lambda>_. holds (\<lambda>d. d = disk s))"
      by (cases found; cases "open_bytes (ve_decrypt env) (va_key self) (the found) (secret_aad i)")
        (auto simp: triple_def do_then_def map_err_def secret_at_def)
  qed
  note tr = triple_relabel [OF this, of secret_store_error_from, folded vault_load_def]
  show ?thesis
  proof (cases r)
    case (Inl e)
    then show ?thesis using triple_err [OF tr refl assms [unfolded Inl]] by simp
  next
    case (Inr x)
    then show ?thesis using triple_ok [OF tr refl assms [unfolded Inr]] by simp
  qed
qed

interpretation secrets: deletable_store "\<lambda>_. vault_ready env self" "vault_view env self" "\<lambda>_ _. True"
    "vault_store env self" "vault_load env self" "vault_delete self"
  for env self
proof unfold_locales
  fix s t :: world and k v and r :: "secret_store_error + unit"
  assume "vault_ready env self" "vault_store env self k v s = (r, t)"
  then show "vault_ready env self \<and> (vault_view env self t = vault_view env self s \<or> vault_view env self t = (vault_view env self s)(k \<mapsto> v))"
    using vault_store_run by blast
next
  fix s t :: world and k v and u :: unit
  assume "vault_ready env self" "vault_store env self k v s = (Inr u, t)"
  then show "vault_view env self t = (vault_view env self s)(k \<mapsto> v)" using vault_store_run [of env self k v s "Inr u" t] by simp
next
  fix s t :: world and k and r :: "secret_store_error + byte list option"
  assume "vault_ready env self" "vault_load env self k s = (r, t)"
  then show "vault_ready env self \<and> vault_view env self t = vault_view env self s" using vault_load_run by metis
next
  fix s t :: world and k and x :: "byte list option"
  assume "vault_load env self k s = (Inr x, t)"
  then show "x = vault_view env self s k" using vault_load_run by blast
next
  fix s t :: world and k and r :: "secret_store_error + unit"
  assume "vault_ready env self" "vault_delete self k s = (r, t)"
  then show "vault_ready env self \<and> (vault_view env self t = vault_view env self s \<or> vault_view env self t = (vault_view env self s)(k := None))"
    using vault_delete_run by blast
next
  fix s t :: world and k and b :: unit
  assume "vault_delete self k s = (Inr b, t)"
  then show "vault_view env self t = (vault_view env self s)(k := None)" using vault_delete_run [of self k s "Inr b" t env] by simp
qed

section \<open>Initialization\<close>

interpretation key_file: vault_file directory KEY_FILE_NAME "''vault.key.tmp''" "{''vault.key.tmp''}"
  for directory
  by unfold_locales (auto simp: KEY_FILE_NAME_def)

interpretation canary_file: vault_file directory CANARY_FILE_NAME "''canary.enc.tmp''" "{''canary.enc.tmp''}"
  for directory
  by unfold_locales (auto simp: CANARY_FILE_NAME_def)

text \<open>A vault directory as an interrupted initialization may leave it: the key it has, if any, is \<open>key\<close>;
  the canary is there only with the key and proves it.\<close>

definition canary_ok :: "vault_env \<Rightarrow> payload_key \<Rightarrow> byte list \<Rightarrow> bool" where
  "canary_ok env key bytes \<longleftrightarrow> length bytes \<le> CANARY_MAX_BYTES \<and> open_bytes (ve_decrypt env) key bytes CANARY_AAD = Inr CANARY_PLAINTEXT"

definition vault_layout :: "path \<Rightarrow> disk \<Rightarrow> bool" where
  "vault_layout dir d \<longleftrightarrow>
     entry_at d (butlast dir) = Some FsDir \<and> entry_at d dir \<in> {None, Some FsDir} \<and> entry_at d (dir @ [''secrets'']) \<in> {None, Some FsDir} \<and>
     file_or_none (entry_at d (dir @ [''vault.lock''])) \<and> file_or_none (entry_at d (dir @ [''vault.key.tmp''])) \<and>
     file_or_none (entry_at d (dir @ [''canary.enc.tmp'']))"

definition keyed :: "path \<Rightarrow> payload_key \<Rightarrow> disk \<Rightarrow> bool" where
  "keyed dir key d \<longleftrightarrow> entry_at d (dir @ [KEY_FILE_NAME]) = Some (FsFile key)"

definition unkeyed :: "path \<Rightarrow> disk \<Rightarrow> bool" where
  "unkeyed dir d \<longleftrightarrow> entry_at d (dir @ [KEY_FILE_NAME]) = None \<and> entry_at d (dir @ [CANARY_FILE_NAME]) = None"

definition proved :: "vault_env \<Rightarrow> path \<Rightarrow> payload_key \<Rightarrow> disk \<Rightarrow> bool" where
  "proved env dir key d \<longleftrightarrow> keyed dir key d \<and> (\<exists>bytes. entry_at d (dir @ [CANARY_FILE_NAME]) = Some (FsFile bytes) \<and> canary_ok env key bytes)"

definition unproved :: "path \<Rightarrow> payload_key \<Rightarrow> disk \<Rightarrow> bool" where
  "unproved dir key d \<longleftrightarrow> keyed dir key d \<and> entry_at d (dir @ [CANARY_FILE_NAME]) = None"

definition partial_vault :: "vault_env \<Rightarrow> path \<Rightarrow> payload_key \<Rightarrow> disk \<Rightarrow> bool" where
  "partial_vault env dir key d \<longleftrightarrow> vault_layout dir d \<and> (unkeyed dir d \<or> unproved dir key d \<or> proved env dir key d)"

definition complete_vault :: "vault_env \<Rightarrow> path \<Rightarrow> payload_key \<Rightarrow> disk \<Rightarrow> bool" where
  "complete_vault env dir key d \<longleftrightarrow> vault_layout dir d \<and> proved env dir key d \<and> entry_at d dir = Some FsDir \<and> entry_at d (dir @ [''secrets'']) = Some FsDir"


subsection \<open>Phases\<close>

lemma sibling_neq: "prefix q dir \<Longrightarrow> q \<noteq> dir @ [x]" "prefix q dir \<Longrightarrow> \<not> prefix (dir @ [x]) q" "dir \<noteq> dir @ [x]" "butlast dir \<noteq> dir @ [x]"
proof -
  show "prefix q dir \<Longrightarrow> q \<noteq> dir @ [x]" "prefix q dir \<Longrightarrow> \<not> prefix (dir @ [x]) q" by (auto dest!: prefix_length_le)
  show "butlast dir \<noteq> dir @ [x]"
  proof
    assume "butlast dir = dir @ [x]"
    then have "length (butlast dir) = length (dir @ [x])" by (rule arg_cong)
    then show False by simp
  qed
qed simp

lemma entry_at_put_root [simp]: "entry_at (put [] e d) = entry_at d"
  by (auto simp: fun_eq_iff entry_at_def put_def map_of_del)

lemma prefix_butlast: "prefix (butlast p) p"
  by (metis append_butlast_last_id butlast.simps(1) prefixI prefix_order.refl)

text \<open>Creating a directory above or beside the files, or the lock file, keeps a phase.\<close>

definition steady :: "path \<Rightarrow> (disk \<Rightarrow> bool) \<Rightarrow> bool" where
  "steady dir \<Phi> \<longleftrightarrow>
     (\<forall>d q. \<Phi> d \<longrightarrow> prefix q dir \<or> q = dir @ [''secrets''] \<longrightarrow> \<Phi> (put q FsDir d)) \<and>
     (\<forall>d. \<Phi> d \<longrightarrow> \<Phi> (put (dir @ [''vault.lock'']) (FsFile []) d))"

lemma vault_file_names [simp]:
  "KEY_FILE_NAME \<notin> {''secrets'', ''vault.lock'', ''canary.enc.tmp'', ''vault.key.tmp'', CANARY_FILE_NAME}"
  "CANARY_FILE_NAME \<notin> {''secrets'', ''vault.lock'', ''canary.enc.tmp'', ''vault.key.tmp'', KEY_FILE_NAME}"
  by (simp_all add: KEY_FILE_NAME_def CANARY_FILE_NAME_def)

lemma vault_file_names' [simp]: "KEY_FILE_NAME \<noteq> ''secrets''" "''secrets'' \<noteq> KEY_FILE_NAME" "KEY_FILE_NAME \<noteq> ''vault.lock''"
  "KEY_FILE_NAME \<noteq> CANARY_FILE_NAME" "CANARY_FILE_NAME \<noteq> KEY_FILE_NAME" "CANARY_FILE_NAME \<noteq> ''secrets''" "CANARY_FILE_NAME \<noteq> ''vault.lock''"
  "''vault.lock'' \<noteq> KEY_FILE_NAME" "''vault.lock'' \<noteq> CANARY_FILE_NAME" "''secrets'' \<noteq> CANARY_FILE_NAME"
  "KEY_FILE_NAME \<noteq> ''canary.enc.tmp''" "''canary.enc.tmp'' \<noteq> KEY_FILE_NAME" "CANARY_FILE_NAME \<noteq> ''vault.key.tmp''" "''vault.key.tmp'' \<noteq> CANARY_FILE_NAME"
  by (simp_all add: KEY_FILE_NAME_def CANARY_FILE_NAME_def)

lemma layout_put_dir:
  assumes "vault_layout dir d" "prefix q dir \<or> q = dir @ [''secrets'']"
  shows "vault_layout dir (put q FsDir d)"
proof (cases "q = []")
  case False
  have n: "q \<noteq> dir @ [x]" if "x \<in> {''vault.lock'', ''vault.key.tmp'', ''canary.enc.tmp''}" for x
    using assms(2) sibling_neq(1) [of q dir x] that by auto
  have e: "entry_at (put q FsDir d) r = (if r = q then Some FsDir else entry_at d r)" for r
    using False by (rule entry_at_put)
  have "entry_at (put q FsDir d) (dir @ [x]) = entry_at d (dir @ [x])" if "x \<in> {''vault.lock'', ''vault.key.tmp'', ''canary.enc.tmp''}" for x
    using n [OF that] by (simp add: e)
  then show ?thesis using assms(1) by (auto simp: vault_layout_def e)
qed (use assms(1) in \<open>simp add: vault_layout_def\<close>)

lemma layout_put_lock: "vault_layout dir d \<Longrightarrow> vault_layout dir (put (dir @ [''vault.lock'']) (FsFile []) d)"
  using sibling_neq(3,4) [of dir] by (auto simp: vault_layout_def entry_at_put)

lemma file_put_dir: "prefix q dir \<or> q = dir @ [''secrets''] \<Longrightarrow> n \<in> {KEY_FILE_NAME, CANARY_FILE_NAME} \<Longrightarrow>
    entry_at (put q FsDir d) (dir @ [n]) = entry_at d (dir @ [n])"
  using sibling_neq(1) [of q dir] by (cases "q = []") (auto simp: entry_at_put)

lemma file_put_lock: "n \<in> {KEY_FILE_NAME, CANARY_FILE_NAME} \<Longrightarrow>
    entry_at (put (dir @ [''vault.lock'']) e d) (dir @ [n]) = entry_at d (dir @ [n])"
  by (auto simp: entry_at_put)

text \<open>The three phases, with the layout.\<close>

abbreviation blank_vault :: "path \<Rightarrow> disk \<Rightarrow> bool" where
  "blank_vault dir d \<equiv> vault_layout dir d \<and> unkeyed dir d"

abbreviation keyed_vault :: "path \<Rightarrow> payload_key \<Rightarrow> disk \<Rightarrow> bool" where
  "keyed_vault dir key d \<equiv> vault_layout dir d \<and> unproved dir key d"

abbreviation proved_vault :: "vault_env \<Rightarrow> path \<Rightarrow> payload_key \<Rightarrow> disk \<Rightarrow> bool" where
  "proved_vault env dir key d \<equiv> vault_layout dir d \<and> proved env dir key d"

lemma steady_phases:
  "steady dir (blank_vault dir)" "steady dir (\<lambda>d. keyed_vault dir key d \<or> proved_vault env dir key d)"
  by (auto simp: steady_def unkeyed_def unproved_def proved_def keyed_def file_put_dir file_put_lock layout_put_dir layout_put_lock)

lemma acquire_lock_steady:
  assumes "steady dir \<Phi>"
  shows "triple (holds \<Phi>) (vault_acquire_lock env dir) (\<lambda>_. holds \<Phi>) (\<lambda>_. holds \<Phi>)"
proof -
  have c: "triple (holds \<Phi>) (create_dir_all dir) (\<lambda>_. holds \<Phi>) (\<lambda>_. holds \<Phi>)"
    by (rule create_dir_all_triple) (use assms in \<open>auto simp: steady_def\<close>)
  have o: "triple (holds \<Phi>) (open_or_create (dir @ [''vault.lock''])) (\<lambda>_. holds \<Phi>) (\<lambda>_. holds \<Phi>)"
    by (rule open_or_create_triple) (use assms in \<open>auto simp: steady_def\<close>)
  show ?thesis
    unfolding vault_acquire_lock_def
    by (rule triple_lift) (intro triple_then [OF triple_relabel [OF c]] triple_then [OF triple_relabel [OF o]] triple_if triple_done
      triple_relabel lock_exclusive_triple, simp)
qed

lemma create_directory_steady:
  assumes "steady dir \<Phi>" "p = dir \<or> p = dir @ [''secrets'']"
  shows "triple (holds \<Phi>) (create_directory p) (\<lambda>_. holds \<Phi>) (\<lambda>_. holds \<Phi>)"
proof -
  have st: "triple (holds \<Phi>) (stat p) (\<lambda>_. holds \<Phi>) (\<lambda>_. holds \<Phi>)"
    by (rule triple_weaken [OF stat_triple [of \<Phi>]]) auto
  have c: "triple (holds \<Phi>) (create_dir_all p) (\<lambda>_. holds \<Phi>) (\<lambda>_. holds \<Phi>)"
    by (rule create_dir_all_triple) (use assms in \<open>auto simp: steady_def\<close>)
  show ?thesis
    unfolding create_directory_def
    by (rule triple_match [OF st]) (auto split: fs_error.splits intro: triple_done triple_relabel [OF c])
qed

subsection \<open>What the files say\<close>

lemma master_key_load_triple:
  "triple (holds \<Phi>) (master_key_load dir) (\<lambda>key. holds (\<lambda>d. \<Phi> d \<and> keyed dir key d))
     (\<lambda>e. holds (\<lambda>d. \<Phi> d \<and> (e = VaultNotInitialized \<longrightarrow> entry_at d (dir @ [KEY_FILE_NAME]) = None)))"
  unfolding master_key_load_def
proof (rule triple_then)
  let ?E = "\<lambda>e. holds (\<lambda>d. \<Phi> d \<and> (e = VaultNotInitialized \<longrightarrow> entry_at d (dir @ [KEY_FILE_NAME]) = None))"
  show "triple (holds \<Phi>) (vault_read_file (dir @ [KEY_FILE_NAME]) KEY_BYTES)
      (\<lambda>found. holds (\<lambda>d. \<Phi> d \<and> found_at (dir @ [KEY_FILE_NAME]) KEY_BYTES found d)) ?E"
    by (rule triple_weaken [OF vault_read_file_triple [of \<Phi>]]) auto
  fix found
  show "triple (holds (\<lambda>d. \<Phi> d \<and> found_at (dir @ [KEY_FILE_NAME]) KEY_BYTES found d))
      (do_then (do_lift (ok_or found VaultNotInitialized)) (\<lambda>bytes.
       if length bytes \<noteq> KEY_BYTES then do_fail VaultCorrupt
       else do_lift (map_err (\<lambda>_. VaultCorrupt) (payload_key_from_bytes bytes))))
      (\<lambda>key. holds (\<lambda>d. \<Phi> d \<and> keyed dir key d)) ?E"
    by (cases found) (auto simp: triple_def do_then_def ok_or_def ok_if_def keyed_def payload_key_from_bytes_def map_err_def)
qed

lemma verify_canary_triple:
  "triple (holds \<Phi>) (verify_canary env dir key)
     (\<lambda>_. holds (\<lambda>d. \<Phi> d \<and> (\<exists>bytes. entry_at d (dir @ [CANARY_FILE_NAME]) = Some (FsFile bytes) \<and> canary_ok env key bytes)))
     (\<lambda>e. holds (\<lambda>d. \<Phi> d \<and> (e = VaultNotInitialized \<longrightarrow> entry_at d (dir @ [CANARY_FILE_NAME]) = None)))"
  unfolding verify_canary_def
proof (rule triple_then)
  let ?E = "\<lambda>e. holds (\<lambda>d. \<Phi> d \<and> (e = VaultNotInitialized \<longrightarrow> entry_at d (dir @ [CANARY_FILE_NAME]) = None))"
  show "triple (holds \<Phi>) (vault_read_file (dir @ [CANARY_FILE_NAME]) CANARY_MAX_BYTES)
      (\<lambda>found. holds (\<lambda>d. \<Phi> d \<and> found_at (dir @ [CANARY_FILE_NAME]) CANARY_MAX_BYTES found d)) ?E"
    by (rule triple_weaken [OF vault_read_file_triple [of \<Phi>]]) auto
  fix found
  show "triple (holds (\<lambda>d. \<Phi> d \<and> found_at (dir @ [CANARY_FILE_NAME]) CANARY_MAX_BYTES found d))
      (do_then (do_lift (ok_or found VaultNotInitialized)) (\<lambda>bytes.
       do_then (do_lift (map_err (\<lambda>_. VaultCorrupt) (open_bytes (ve_decrypt env) key bytes CANARY_AAD))) (\<lambda>plaintext.
       if plaintext \<noteq> CANARY_PLAINTEXT then do_fail VaultCorrupt else do_return ())))
      (\<lambda>_. holds (\<lambda>d. \<Phi> d \<and> (\<exists>bytes. entry_at d (dir @ [CANARY_FILE_NAME]) = Some (FsFile bytes) \<and> canary_ok env key bytes))) ?E"
    by (cases found; cases "open_bytes (ve_decrypt env) key (the found) CANARY_AAD")
      (auto simp: triple_def do_then_def ok_or_def map_err_def canary_ok_def)
qed

subsection \<open>Initialization under faults\<close>

lemma file_target: "key_file.target dir = dir @ [KEY_FILE_NAME]" "canary_file.target dir = dir @ [CANARY_FILE_NAME]"
  by (simp_all add: key_file.target_def canary_file.target_def)

lemma file_temporary: "key_file.temporary dir = dir @ [''vault.key.tmp'']" "canary_file.temporary dir = dir @ [''canary.enc.tmp'']"
  by (simp_all add: key_file.temporary_def canary_file.temporary_def)

lemma layout_transfer:
  assumes l: "vault_layout dir d" and p: "\<And>q. prefix q dir \<Longrightarrow> entry_at d' q \<in> {entry_at d q, Some FsDir}"
    and e: "entry_at d' (dir @ [''secrets'']) = entry_at d (dir @ [''secrets''])" "entry_at d' (dir @ [''vault.lock'']) = entry_at d (dir @ [''vault.lock''])"
    and t: "file_or_none (entry_at d' (dir @ [''vault.key.tmp'']))" "file_or_none (entry_at d' (dir @ [''canary.enc.tmp'']))"
  shows "vault_layout dir d'"
proof -
  have "entry_at d' (butlast dir) = Some FsDir" using l p [OF prefix_butlast] unfolding vault_layout_def by auto
  moreover have "entry_at d' dir \<in> {None, Some FsDir}" using l p [of dir] unfolding vault_layout_def by auto
  ultimately show ?thesis using l t unfolding vault_layout_def e by blast
qed

lemma layout_key_frame:
  assumes l: "vault_layout dir d" and f: "key_file.frame dir d d'" and t: "key_file.tidy dir d'"
  shows "vault_layout dir d'"
proof -
  note e = key_file.frame_sibling [OF f, unfolded KEY_FILE_NAME_def]
  have "entry_at d' (dir @ [''canary.enc.tmp'']) = entry_at d (dir @ [''canary.enc.tmp''])" by (rule e) simp_all
  then have "file_or_none (entry_at d' (dir @ [''canary.enc.tmp'']))" using l by (simp add: vault_layout_def)
  then show ?thesis
    using t f by (intro layout_transfer [OF l] e) (simp_all add: key_file.tidy_def file_temporary key_file.frame_def)
qed

lemma layout_canary_frame:
  assumes l: "vault_layout dir d" and f: "canary_file.frame dir d d'" and t: "canary_file.tidy dir d'"
  shows "vault_layout dir d'"
proof -
  note e = canary_file.frame_sibling [OF f, unfolded CANARY_FILE_NAME_def]
  have "entry_at d' (dir @ [''vault.key.tmp'']) = entry_at d (dir @ [''vault.key.tmp''])" by (rule e) simp_all
  then have "file_or_none (entry_at d' (dir @ [''vault.key.tmp'']))" using l by (simp add: vault_layout_def)
  then show ?thesis
    using t f by (intro layout_transfer [OF l] e) (simp_all add: canary_file.tidy_def file_temporary canary_file.frame_def)
qed

lemma canary_elsewhere: "key_file.frame dir d d' \<Longrightarrow> entry_at d' (dir @ [CANARY_FILE_NAME]) = entry_at d (dir @ [CANARY_FILE_NAME])"
  by (rule key_file.frame_sibling) simp_all

lemma key_elsewhere: "canary_file.frame dir d d' \<Longrightarrow> entry_at d' (dir @ [KEY_FILE_NAME]) = entry_at d (dir @ [KEY_FILE_NAME])"
  by (rule canary_file.frame_sibling) simp_all

lemma layout_tidy: "vault_layout dir d \<Longrightarrow> key_file.tidy dir d" "vault_layout dir d \<Longrightarrow> canary_file.tidy dir d"
  by (simp_all add: vault_layout_def key_file.tidy_def canary_file.tidy_def file_temporary)

lemma key_write_triple:
  "triple (holds (blank_vault dir)) (vault_atomic_write (dir @ [KEY_FILE_NAME]) key)
     (\<lambda>_. holds (keyed_vault dir key)) (\<lambda>_. holds (\<lambda>d. blank_vault dir d \<or> keyed_vault dir key d))"
proof (rule key_file.atomic_write_phase [of _ dir, unfolded file_target])
  fix d d' assume b: "blank_vault dir d" and k: "key_file.kept dir d d'" and t: "key_file.tidy dir d'"
  have f: "key_file.frame dir d d'" using k by (simp add: key_file.kept_def)
  show "blank_vault dir d'"
    using b k layout_key_frame [OF _ f t] canary_elsewhere [OF f] by (auto simp: key_file.kept_def unkeyed_def file_target)
next
  fix d d' assume b: "blank_vault dir d" and s: "key_file.swapped dir key d d'" and t: "key_file.tidy dir d'"
  have f: "key_file.frame dir d d'" using s by (simp add: key_file.swapped_def)
  show "keyed_vault dir key d'"
    using b s layout_key_frame [OF _ f t] canary_elsewhere [OF f] by (auto simp: key_file.swapped_def unkeyed_def unproved_def keyed_def file_target)
qed (auto simp: layout_tidy)

lemma canary_write_triple:
  assumes ok: "canary_ok env key bytes"
  shows "triple (holds (keyed_vault dir key)) (vault_atomic_write (dir @ [CANARY_FILE_NAME]) bytes)
     (\<lambda>_. holds (proved_vault env dir key)) (\<lambda>_. holds (\<lambda>d. keyed_vault dir key d \<or> proved_vault env dir key d))"
proof (rule canary_file.atomic_write_phase [of _ dir, unfolded file_target])
  fix d d' assume b: "keyed_vault dir key d" and k: "canary_file.kept dir d d'" and t: "canary_file.tidy dir d'"
  have f: "canary_file.frame dir d d'" using k by (simp add: canary_file.kept_def)
  show "keyed_vault dir key d'"
    using b k layout_canary_frame [OF _ f t] key_elsewhere [OF f] by (auto simp: canary_file.kept_def unproved_def keyed_def file_target)
next
  fix d d' assume b: "keyed_vault dir key d" and s: "canary_file.swapped dir bytes d d'" and t: "canary_file.tidy dir d'"
  have f: "canary_file.frame dir d d'" using s by (simp add: canary_file.swapped_def)
  show "proved_vault env dir key d'"
    using b s ok layout_canary_frame [OF _ f t] key_elsewhere [OF f]
    by (auto simp: canary_file.swapped_def unproved_def proved_def keyed_def file_target)
qed (auto simp: layout_tidy)

definition usable_env :: "vault_env \<Rightarrow> path \<Rightarrow> bool" where
  "usable_env env dir \<longleftrightarrow>
     aead_ok (ve_encrypt env) (ve_decrypt env) \<and> (\<forall>w. length (ve_nonce env w) = NONCE_BYTES) \<and> dir \<notin> ve_held env \<and> \<not> ve_contended env"

lemma write_canary_eq:
  assumes "usable_env env dir" "length key = KEY_BYTES"
  obtains bytes where "write_canary env dir key w = vault_atomic_write (dir @ [CANARY_FILE_NAME]) bytes w" "canary_ok env key bytes"
proof -
  have env: "aead_ok (ve_encrypt env) (ve_decrypt env)" "length (ve_nonce env w) = NONCE_BYTES" "length CANARY_PLAINTEXT \<le> CHUNK_BYTES"
    using assms(1) by (simp_all add: usable_env_def CANARY_PLAINTEXT_def CHUNK_BYTES_def)
  obtain sealed where "seal_bytes (ve_encrypt env) key (ve_nonce env w) CANARY_PLAINTEXT CANARY_AAD = Inr sealed"
    "open_bytes (ve_decrypt env) key sealed CANARY_AAD = Inr CANARY_PLAINTEXT" "length sealed \<le> length CANARY_PLAINTEXT + 63"
    by (rule seal_bytes_ok [OF env(1) assms(2) env(2,3)])
  then show thesis
    by (intro that [of sealed]) (auto simp: write_canary_def do_then_def canary_ok_def CANARY_PLAINTEXT_def CANARY_MAX_BYTES_def)
qed

lemma write_canary_triple:
  assumes "usable_env env dir" "length key = KEY_BYTES"
  shows "triple (holds (keyed_vault dir key)) (write_canary env dir key)
     (\<lambda>_. holds (proved_vault env dir key)) (\<lambda>_. holds (\<lambda>d. keyed_vault dir key d \<or> proved_vault env dir key d))"
  unfolding triple_def
proof (intro allI impI)
  fix w :: world assume w: "keyed_vault dir key (disk w)"
  obtain bytes where b: "write_canary env dir key w = vault_atomic_write (dir @ [CANARY_FILE_NAME]) bytes w" "canary_ok env key bytes"
    using write_canary_eq [OF assms] .
  then show "case write_canary env dir key w of
      (Inl e, t) \<Rightarrow> keyed_vault dir key (disk t) \<or> proved_vault env dir key (disk t)
    | (Inr x, t) \<Rightarrow> proved_vault env dir key (disk t)"
    using canary_write_triple [OF b(2), of dir, unfolded triple_def, rule_format, OF w] b(1) by simp
qed

text \<open>A vault that has its key, with or without the canary.\<close>

abbreviation sealed_vault :: "vault_env \<Rightarrow> path \<Rightarrow> payload_key \<Rightarrow> disk \<Rightarrow> bool" where
  "sealed_vault env dir key d \<equiv> keyed_vault dir key d \<or> proved_vault env dir key d"

lemma recover_triple:
  assumes "usable_env env dir" "length key = KEY_BYTES"
  shows "triple (holds (sealed_vault env dir key)) (recover_or_reject env dir key)
     (\<lambda>r. holds (\<lambda>d. r = Recovered \<and> proved_vault env dir key d)) (\<lambda>_. holds (sealed_vault env dir key))"
  unfolding recover_or_reject_def
proof (rule triple_match [OF verify_canary_triple])
  let ?Q = "\<lambda>r. holds (\<lambda>d. r = Recovered \<and> proved_vault env dir key d)" and ?E = "\<lambda>_. holds (sealed_vault env dir key)"
  let ?k = "\<lambda>r. case r of Inr _ \<Rightarrow> do_fail VaultAlreadyInitialized
       | Inl VaultNotInitialized \<Rightarrow> do_then (write_canary env dir key) (\<lambda>_. do_return Recovered)
       | Inl other \<Rightarrow> do_fail other"
  fix u :: unit
  show "triple (holds (\<lambda>d. sealed_vault env dir key d \<and>
      (\<exists>bytes. entry_at d (dir @ [CANARY_FILE_NAME]) = Some (FsFile bytes) \<and> canary_ok env key bytes))) (?k (Inr u)) ?Q ?E"
    by (simp add: triple_def)
next
  let ?Q = "\<lambda>r. holds (\<lambda>d. r = Recovered \<and> proved_vault env dir key d)" and ?E = "\<lambda>_. holds (sealed_vault env dir key)"
  let ?k = "\<lambda>r. case r of Inr _ \<Rightarrow> do_fail VaultAlreadyInitialized
       | Inl VaultNotInitialized \<Rightarrow> do_then (write_canary env dir key) (\<lambda>_. do_return Recovered)
       | Inl other \<Rightarrow> do_fail other"
  fix e
  let ?P = "holds (\<lambda>d. sealed_vault env dir key d \<and> (e = VaultNotInitialized \<longrightarrow> entry_at d (dir @ [CANARY_FILE_NAME]) = None))"
  show "triple ?P (?k (Inl e)) ?Q ?E"
  proof (cases "e = VaultNotInitialized")
    case True
    have "triple ?P (write_canary env dir key) (\<lambda>_. holds (proved_vault env dir key)) ?E"
      by (rule triple_weaken [OF write_canary_triple [OF assms]]) (auto simp: True proved_def)
    then have "triple ?P (do_then (write_canary env dir key) (\<lambda>_. do_return Recovered)) ?Q ?E"
      by (rule triple_then) (simp add: triple_def)
    then show ?thesis by (simp add: True)
  qed (cases e; simp add: triple_def)
qed

lemma vault_exists_triple: "triple (holds \<Phi>) (vault_exists p) (\<lambda>_. holds \<Phi>) (\<lambda>_. holds \<Phi>)"
proof -
  have st: "triple (holds \<Phi>) (stat p) (\<lambda>_. holds \<Phi>) (\<lambda>_. holds \<Phi>)"
    by (rule triple_weaken [OF stat_triple [of \<Phi>]]) auto
  show ?thesis unfolding vault_exists_def by (rule triple_match [OF st]) (auto split: fs_error.splits intro: triple_done)
qed

lemma key_write_new_triple:
  "triple (holds (blank_vault dir)) (master_key_write_new dir key)
     (\<lambda>_. holds (keyed_vault dir key)) (\<lambda>_. holds (\<lambda>d. blank_vault dir d \<or> keyed_vault dir key d))"
proof -
  let ?E = "\<lambda>_ :: vault_error. holds (\<lambda>d. blank_vault dir d \<or> keyed_vault dir key d)"
  have x: "triple (holds (blank_vault dir)) (vault_exists (dir @ [KEY_FILE_NAME])) (\<lambda>_. holds (blank_vault dir)) ?E"
    by (rule triple_weaken [OF vault_exists_triple [of "blank_vault dir"]]) auto
  have l: "triple (holds (keyed_vault dir key)) (master_key_load dir) (\<lambda>_. holds (keyed_vault dir key)) ?E"
    by (rule triple_weaken [OF master_key_load_triple [of "keyed_vault dir key"]]) auto
  show ?thesis
    unfolding master_key_write_new_def Let_def
  proof (rule triple_then [OF x])
    fix present
    let ?new = "do_then (vault_atomic_write (dir @ [KEY_FILE_NAME]) key) (\<lambda>_. do_then (master_key_load dir) (\<lambda>confirmed.
            if confirmed \<noteq> key then do_fail VaultCorrupt else do_return ()))"
    have "triple (holds (blank_vault dir)) ?new (\<lambda>_. holds (keyed_vault dir key)) ?E"
      by (rule triple_then [OF key_write_triple], rule triple_then [OF l]) (simp add: triple_def)
    then show "triple (holds (blank_vault dir)) (if present then do_fail VaultAlreadyInitialized else ?new) (\<lambda>_. holds (keyed_vault dir key)) ?E"
      by (cases present) (simp add: triple_def, simp)
  qed
qed

lemma fresh_triple:
  assumes "usable_env env dir" "length key = KEY_BYTES"
  shows "triple (holds (blank_vault dir)) (create_fresh env key dir)
     (\<lambda>r. holds (\<lambda>d. r = Created \<and> proved_vault env dir key d)) (\<lambda>_. holds (\<lambda>d. blank_vault dir d \<or> sealed_vault env dir key d))"
proof -
  let ?E = "\<lambda>_ :: vault_error. holds (\<lambda>d. blank_vault dir d \<or> sealed_vault env dir key d)"
  have k: "triple (holds (blank_vault dir)) (master_key_write_new dir key) (\<lambda>_. holds (keyed_vault dir key)) ?E"
    by (rule triple_weaken [OF key_write_new_triple]) auto
  have c: "triple (holds (keyed_vault dir key)) (write_canary env dir key) (\<lambda>_. holds (proved_vault env dir key)) ?E"
    by (rule triple_weaken [OF write_canary_triple [OF assms]]) auto
  show ?thesis
    unfolding create_fresh_def by (rule triple_then [OF k triple_then [OF c]]) (simp add: triple_def)
qed

text \<open>What comes before the key is looked at keeps any phase.\<close>

lemma init_prelude:
  assumes "steady dir \<Phi>" and k: "triple (holds \<Phi>) k Q E" and e: "\<And>e w. \<Phi> (disk w) \<Longrightarrow> E e w"
  shows "triple (holds \<Phi>) (do_then (vault_acquire_lock env dir) (\<lambda>_. do_then (create_directory dir) (\<lambda>_.
     do_then (create_directory (dir @ [''secrets''])) (\<lambda>_. k)))) Q E"
proof -
  have weak: "triple (holds \<Phi>) m (\<lambda>_. holds \<Phi>) E" if "triple (holds \<Phi>) m (\<lambda>_. holds \<Phi>) (\<lambda>_. holds \<Phi>)" for m :: "(world, vault_error, unit) action"
    by (rule triple_weaken [OF that]) (auto intro: e)
  have d: "triple (holds \<Phi>) (create_directory dir) (\<lambda>_. holds \<Phi>) (\<lambda>_. holds \<Phi>)"
    "triple (holds \<Phi>) (create_directory (dir @ [''secrets''])) (\<lambda>_. holds \<Phi>) (\<lambda>_. holds \<Phi>)"
    by (rule create_directory_steady [OF assms(1)], simp)+
  show ?thesis
    by (rule triple_then [OF weak [OF acquire_lock_steady [OF assms(1)]] triple_then [OF weak [OF d(1)] triple_then [OF weak [OF d(2)] k]]])
qed

lemma init_sealed:
  assumes "usable_env env dir" "length key = KEY_BYTES"
  shows "triple (holds (sealed_vault env dir key)) (vault_init env generated dir)
     (\<lambda>r. holds (\<lambda>d. r = Recovered \<and> proved_vault env dir key d)) (\<lambda>_. holds (sealed_vault env dir key))"
  unfolding vault_init_def
proof (rule init_prelude [OF steady_phases(2)], rule triple_match [OF master_key_load_triple])
  let ?Q = "\<lambda>r. holds (\<lambda>d. r = Recovered \<and> proved_vault env dir key d)" and ?E = "\<lambda>_ :: vault_error. holds (sealed_vault env dir key)"
  fix found
  have "triple (holds (\<lambda>d. sealed_vault env dir key d \<and> keyed dir found d)) (recover_or_reject env dir found) ?Q ?E"
  proof (cases "found = key")
    case True
    show ?thesis unfolding True by (rule triple_weaken [OF recover_triple [OF assms]]) auto
  next
    case False
    then show ?thesis by (auto simp: triple_def keyed_def unproved_def proved_def)
  qed
  then show "triple (holds (\<lambda>d. sealed_vault env dir key d \<and> keyed dir found d))
      (case Inr found of Inr key \<Rightarrow> recover_or_reject env dir key
       | Inl VaultNotInitialized \<Rightarrow> create_fresh env generated dir | Inl other \<Rightarrow> do_fail other) ?Q ?E"
    by simp
next
  fix e
  show "triple (holds (\<lambda>d. sealed_vault env dir key d \<and> (e = VaultNotInitialized \<longrightarrow> entry_at d (dir @ [KEY_FILE_NAME]) = None)))
      (case Inl e of Inr key \<Rightarrow> recover_or_reject env dir key
       | Inl VaultNotInitialized \<Rightarrow> create_fresh env generated dir | Inl other \<Rightarrow> do_fail other)
      (\<lambda>r. holds (\<lambda>d. r = Recovered \<and> proved_vault env dir key d)) (\<lambda>_. holds (sealed_vault env dir key))"
    by (cases e) (auto simp: triple_def keyed_def unproved_def proved_def)
qed auto

lemma init_blank:
  assumes "usable_env env dir" "length generated = KEY_BYTES"
  shows "triple (holds (blank_vault dir)) (vault_init env generated dir)
     (\<lambda>r. holds (\<lambda>d. r = Created \<and> proved_vault env dir generated d)) (\<lambda>_. holds (\<lambda>d. blank_vault dir d \<or> sealed_vault env dir generated d))"
  unfolding vault_init_def
proof (rule init_prelude [OF steady_phases(1)], rule triple_match [OF master_key_load_triple])
  fix found
  show "triple (holds (\<lambda>d. blank_vault dir d \<and> keyed dir found d))
      (case Inr found of Inr key \<Rightarrow> recover_or_reject env dir key
       | Inl VaultNotInitialized \<Rightarrow> create_fresh env generated dir | Inl other \<Rightarrow> do_fail other)
      (\<lambda>r. holds (\<lambda>d. r = Created \<and> proved_vault env dir generated d)) (\<lambda>_. holds (\<lambda>d. blank_vault dir d \<or> sealed_vault env dir generated d))"
    by (auto simp: triple_def keyed_def unkeyed_def)
next
  let ?Q = "\<lambda>r. holds (\<lambda>d. r = Created \<and> proved_vault env dir generated d)"
  let ?E = "\<lambda>_ :: vault_error. holds (\<lambda>d. blank_vault dir d \<or> sealed_vault env dir generated d)"
  fix e
  let ?P = "holds (\<lambda>d. blank_vault dir d \<and> (e = VaultNotInitialized \<longrightarrow> entry_at d (dir @ [KEY_FILE_NAME]) = None))"
  have "triple ?P (create_fresh env generated dir) ?Q ?E"
    by (rule triple_weaken [OF fresh_triple [OF assms]]) auto
  then show "triple ?P (case Inl e of Inr key \<Rightarrow> recover_or_reject env dir key
       | Inl VaultNotInitialized \<Rightarrow> create_fresh env generated dir | Inl other \<Rightarrow> do_fail other) ?Q ?E"
    by (cases e) (simp_all add: triple_def)
qed auto

subsection \<open>Initialization without faults\<close>

abbreviation has_dirs :: "path \<Rightarrow> disk \<Rightarrow> bool" where
  "has_dirs dir d \<equiv> entry_at d dir = Some FsDir \<and> entry_at d (dir @ [''secrets'']) = Some FsDir"

lemma create_dir_all_new:
  assumes "entry_at d (butlast p) = Some FsDir" "entry_at d p \<in> {None, Some FsDir}"
  shows "create_dir_all p (quiet d) = (Inr (), quiet (if entry_at d p = None then put p FsDir d else d))"
  using assms by (auto simp: create_dir_all_quiet create_dir_all.simps [of p] create_dir_quiet accept_dir_def path_is_dir_quiet do_defs)

lemma create_directory_new:
  assumes "entry_at d (butlast p) = Some FsDir" "entry_at d p \<in> {None, Some FsDir}"
  shows "create_directory p (quiet d) = (Inr (), quiet (if entry_at d p = None then put p FsDir d else d))"
  using assms create_dir_all_new [OF assms] by (auto simp: create_directory_def do_defs quiet_simps ok_or_def)

lemma init_prelude_quiet:
  assumes env: "usable_env env dir" and st: "steady dir \<Phi>" and d: "\<Phi> d" "vault_layout dir d"
  shows "\<exists>d'. do_then (vault_acquire_lock env dir) (\<lambda>_. do_then (create_directory dir) (\<lambda>_.
     do_then (create_directory (dir @ [''secrets''])) (\<lambda>_. k))) (quiet d) = k (quiet d') \<and> \<Phi> d' \<and> vault_layout dir d' \<and> has_dirs dir d'"
proof -
  define a where "a = (if entry_at d dir = None then put dir FsDir d else d)"
  define b where "b = (if entry_at a (dir @ [''vault.lock'']) = None then put (dir @ [''vault.lock'']) (FsFile []) a else a)"
  define c where "c = (if entry_at b (dir @ [''secrets'']) = None then put (dir @ [''secrets'']) FsDir b else b)"
  have nonempty: "entry_at d dir = None \<Longrightarrow> dir \<noteq> []" by (auto simp: entry_at_def)
  have a: "\<Phi> a" "vault_layout dir a" "entry_at a dir = Some FsDir"
    using st d layout_put_dir [of dir d dir] nonempty by (auto simp: a_def steady_def entry_at_put vault_layout_def)
  have b: "\<Phi> b" "vault_layout dir b" "entry_at b dir = Some FsDir"
    using st a layout_put_lock [of dir a] sibling_neq(3) [of dir] by (simp_all add: b_def steady_def entry_at_put)
  have c: "\<Phi> c" "vault_layout dir c" "entry_at c dir = Some FsDir"
    using st b layout_put_dir [of dir b "dir @ [''secrets'']"] sibling_neq(3) [of dir] by (simp_all add: c_def steady_def entry_at_put)
  have sec: "entry_at b (dir @ [''secrets'']) \<in> {None, Some FsDir}" using b(2) by (simp add: vault_layout_def)
  have e: "entry_at c (dir @ [''secrets'']) = Some FsDir" using sec by (auto simp: c_def entry_at_put)
  have s1: "create_dir_all dir (quiet d) = (Inr (), quiet a)"
    unfolding a_def by (rule create_dir_all_new) (use d(2) in \<open>simp_all add: vault_layout_def\<close>)
  have "file_or_none (entry_at a (dir @ [''vault.lock'']))" using a(2) by (simp add: vault_layout_def)
  then have s2: "open_or_create (dir @ [''vault.lock'']) (quiet a) = (Inr (), quiet b)"
    using a(3) by (auto simp: quiet_simps b_def file_or_none_iff)
  have s3: "create_directory dir (quiet b) = (Inr (), quiet b)"
    using create_directory_new [of b dir] b by (simp add: vault_layout_def)
  have s4: "create_directory (dir @ [''secrets'']) (quiet b) = (Inr (), quiet c)"
    unfolding c_def by (rule create_directory_new) (use b sec in simp_all)
  have "vault_acquire_lock env dir (quiet d) = (Inr (), quiet b)"
    using env by (simp add: vault_acquire_lock_def process_lock_acquire_def usable_env_def do_then_def do_map_err_def s1 s2 lock_exclusive_quiet)
  then have "do_then (vault_acquire_lock env dir) (\<lambda>_. do_then (create_directory dir) (\<lambda>_.
     do_then (create_directory (dir @ [''secrets''])) (\<lambda>_. k))) (quiet d) = k (quiet c)"
    by (simp add: do_then_def s3 s4)
  then show ?thesis using c e by blast
qed

lemma load_quiet:
  "keyed dir key d \<Longrightarrow> length key = KEY_BYTES \<Longrightarrow> master_key_load dir (quiet d) = (Inr key, quiet d)"
  "unkeyed dir d \<Longrightarrow> master_key_load dir (quiet d) = (Inl VaultNotInitialized, quiet d)"
  by (simp_all add: master_key_load_def vault_read_file_def keyed_def unkeyed_def quiet_simps do_defs ok_or_def ok_if_def payload_key_from_bytes_def)

lemma verify_quiet:
  "unproved dir key d \<Longrightarrow> verify_canary env dir key (quiet d) = (Inl VaultNotInitialized, quiet d)"
  "proved env dir key d \<Longrightarrow> verify_canary env dir key (quiet d) = (Inr (), quiet d)"
  by (auto simp: verify_canary_def vault_read_file_def unproved_def proved_def canary_ok_def quiet_simps do_defs ok_or_def)

lemma canary_quiet:
  assumes env: "usable_env env dir" and key: "length key = KEY_BYTES" and d: "keyed_vault dir key d" "has_dirs dir d"
  shows "\<exists>d'. write_canary env dir key (quiet d) = (Inr (), quiet d') \<and> complete_vault env dir key d'"
proof -
  obtain bytes where b: "write_canary env dir key (quiet d) = vault_atomic_write (dir @ [CANARY_FILE_NAME]) bytes (quiet d)" "canary_ok env key bytes"
    using write_canary_eq [OF env key] .
  have n: "entry_at d (canary_file.target dir) = None" using d(1) by (simp add: unproved_def file_target)
  obtain d' where run: "vault_atomic_write (dir @ [CANARY_FILE_NAME]) bytes (quiet d) = (Inr (), quiet d')" and s: "canary_file.swapped dir bytes d d'"
    using canary_file.atomic_write_quiet [of d dir bytes] d n by (auto simp: file_target layout_tidy)
  have f: "canary_file.frame dir d d'" using s by (simp add: canary_file.swapped_def)
  have "entry_at d' (dir @ [''secrets'']) = Some FsDir"
    using canary_file.frame_sibling [OF f, of "''secrets''"] d(2) by (simp add: CANARY_FILE_NAME_def)
  moreover have "entry_at d' dir = Some FsDir" using f d(2) by (auto simp: canary_file.frame_def)
  ultimately show ?thesis
    using triple_ok [OF canary_write_triple [OF b(2)] _ run] d(1) run b(1) by (auto simp: quiet_simps complete_vault_def)
qed

lemma write_new_quiet:
  assumes key: "length key = KEY_BYTES" and d: "blank_vault dir d" "has_dirs dir d"
  shows "\<exists>d'. master_key_write_new dir key (quiet d) = (Inr (), quiet d') \<and> keyed_vault dir key d' \<and> has_dirs dir d'"
proof -
  have n: "entry_at d (key_file.target dir) = None" using d(1) by (simp add: unkeyed_def file_target)
  obtain d' where run: "vault_atomic_write (dir @ [KEY_FILE_NAME]) key (quiet d) = (Inr (), quiet d')" and s: "key_file.swapped dir key d d'"
    using key_file.atomic_write_quiet [of d dir key] d n by (auto simp: file_target layout_tidy)
  have f: "key_file.frame dir d d'" using s by (simp add: key_file.swapped_def)
  have "entry_at d' (dir @ [''secrets'']) = Some FsDir"
    using key_file.frame_sibling [OF f, of "''secrets''"] d(2) by (simp add: KEY_FILE_NAME_def)
  moreover have "entry_at d' dir = Some FsDir" using f d(2) by (auto simp: key_file.frame_def)
  ultimately have h: "has_dirs dir d'" by blast
  have k: "keyed_vault dir key d'" using triple_ok [OF key_write_triple _ run] d(1) by (simp add: quiet_simps)
  then have "master_key_load dir (quiet d') = (Inr key, quiet d')" using key by (simp add: load_quiet unproved_def)
  then have "master_key_write_new dir key (quiet d) = (Inr (), quiet d')"
    using run n by (simp add: master_key_write_new_def Let_def vault_exists_def file_target quiet_simps do_defs ok_or_def)
  then show ?thesis using k h by blast
qed

lemma init_again:
  assumes env: "usable_env env dir" and key: "length key = KEY_BYTES" "length generated = KEY_BYTES"
    and d: "blank_vault dir d \<and> key = generated \<or> sealed_vault env dir key d"
  shows "\<exists>r d'. vault_init env generated dir (quiet d) = (r, quiet d') \<and> complete_vault env dir key d' \<and>
     r = (if blank_vault dir d then Inr Created else if keyed_vault dir key d then Inr Recovered else Inl VaultAlreadyInitialized)"
proof -
  have apart: "blank_vault dir d \<Longrightarrow> \<not> sealed_vault env dir key d" for d
    by (auto simp: unkeyed_def unproved_def proved_def keyed_def)
  show ?thesis
  proof (cases "blank_vault dir d")
    case True
    then have k: "key = generated" using d apart by blast
    obtain d1 where d1: "vault_init env generated dir (quiet d) = (do_match (master_key_load dir) (\<lambda>r. case r of Inr key \<Rightarrow> recover_or_reject env dir key
       | Inl VaultNotInitialized \<Rightarrow> create_fresh env generated dir | Inl other \<Rightarrow> do_fail other)) (quiet d1)" "blank_vault dir d1" "has_dirs dir d1"
      using init_prelude_quiet [OF env steady_phases(1) True] True unfolding vault_init_def by blast
    obtain d2 where d2: "master_key_write_new dir generated (quiet d1) = (Inr (), quiet d2)" "keyed_vault dir generated d2" "has_dirs dir d2"
      using write_new_quiet [OF key(2) d1(2,3)] by blast
    obtain d3 where d3: "write_canary env dir generated (quiet d2) = (Inr (), quiet d3)" "complete_vault env dir generated d3"
      using canary_quiet [OF env key(2) d2(2,3)] by blast
    have "vault_init env generated dir (quiet d) = (Inr Created, quiet d3)"
      using d1(2) by (simp add: d1(1) do_match_def load_quiet create_fresh_def do_then_def d2(1) d3(1))
    then show ?thesis using True d3(2) k by auto
  next
    case False
    then have sealed: "sealed_vault env dir key d" and l: "vault_layout dir d" using d by blast+
    let ?\<Phi> = "\<lambda>d'. sealed_vault env dir key d' \<and> (keyed_vault dir key d' \<longleftrightarrow> keyed_vault dir key d)"
    have st: "steady dir ?\<Phi>"
      by (auto simp: steady_def unproved_def proved_def keyed_def file_put_dir file_put_lock layout_put_dir layout_put_lock)
    obtain d1 where d1: "vault_init env generated dir (quiet d) = (do_match (master_key_load dir) (\<lambda>r. case r of Inr key \<Rightarrow> recover_or_reject env dir key
       | Inl VaultNotInitialized \<Rightarrow> create_fresh env generated dir | Inl other \<Rightarrow> do_fail other)) (quiet d1)" "?\<Phi> d1" "has_dirs dir d1"
      using init_prelude_quiet [OF env st _ l] sealed unfolding vault_init_def by blast
    have "keyed dir key d1" using d1(2) by (auto simp: unproved_def proved_def)
    then have i: "vault_init env generated dir (quiet d) = recover_or_reject env dir key (quiet d1)"
      using key(1) by (simp add: d1(1) do_match_def load_quiet)
    show ?thesis
    proof (cases "keyed_vault dir key d")
      case True
      then have k: "keyed_vault dir key d1" using d1(2) by blast
      obtain d2 where d2: "write_canary env dir key (quiet d1) = (Inr (), quiet d2)" "complete_vault env dir key d2"
        using canary_quiet [OF env key(1) k d1(3)] by blast
      have "recover_or_reject env dir key (quiet d1) = (Inr Recovered, quiet d2)"
        using k by (simp add: recover_or_reject_def do_match_def verify_quiet do_then_def d2(1))
      then show ?thesis using i d2(2) True False by auto
    next
      case nk: False
      then have p: "proved_vault env dir key d1" using d1(2) by blast
      then have "recover_or_reject env dir key (quiet d1) = (Inl VaultAlreadyInitialized, quiet d1)"
        by (simp add: recover_or_reject_def do_match_def verify_quiet)
      then show ?thesis using i p d1(3) nk False by (auto simp: complete_vault_def)
    qed
  qed
qed

lemma open_complete:
  assumes "complete_vault env dir key d" "length key = KEY_BYTES"
  shows "vault_open env dir (quiet d) = (Inr \<lparr>va_root = dir, va_key = key\<rparr>, quiet d)"
proof -
  have k: "keyed dir key d" "proved env dir key d" "has_dirs dir d"
    using assms(1) by (simp_all add: complete_vault_def proved_def)
  then have e: "ensure_existing_directory dir (quiet d) = (Inr (), quiet d)" "ensure_existing_directory (secrets_dir dir) (quiet d) = (Inr (), quiet d)"
    by (simp_all add: ensure_existing_directory_def secrets_dir_def quiet_simps do_defs ok_or_def)
  show ?thesis using k assms(2) by (simp add: vault_open_def do_then_def e load_quiet verify_quiet)
qed

section \<open>Properties\<close>

text \<open>C33: the vault is a map from credential ids to secrets. Whatever calls of the operating system
  fail in a history of stores and deletions, each acknowledged operation happened, each failed one
  happened completely or not at all, and a later successful load returns exactly what that history
  left, decrypted and authenticated, for every credential.\<close>

theorem vault_refines_secret_map:
  assumes "vault_ready env self" "run_all (secrets.store_step env self) ops w = (acks, w1)"
    and "vault_load env self i w1 = (Inr found, w2)"
  shows "\<exists>m\<in>outcomes store_effect (zip ops acks) (vault_view env self w). found = m i \<and> vault_view env self w2 = m"
proof -
  have "secrets.op_admitted oper" for oper by (cases oper) simp_all
  then have "list_all secrets.op_admitted ops" by (simp add: list_all_iff)
  then show ?thesis using secrets.history_outcome [OF assms(1) _ assms(2,3)] by auto
qed

definition sample_env :: vault_env where
  "sample_env = \<lparr>ve_encrypt = toy_enc, ve_decrypt = toy_dec, ve_nonce = (\<lambda>_. replicate 12 7), ve_held = {}, ve_contended = False\<rparr>"

definition sample_vault :: vault where
  "sample_vault = \<lparr>va_root = [''v''], va_key = replicate 32 5\<rparr>"

lemma sample_vault_ready: "vault_ready sample_env sample_vault" "usable_env sample_env dir"
  by (simp_all add: vault_ready_def usable_env_def sample_env_def sample_vault_def toy_aead_ok KEY_BYTES_def NONCE_BYTES_def)

lemma vault_refines_secret_map_witness:
  "\<exists>acks w1 found w2. run_all (secrets.store_step sample_env sample_vault) [PutOp ''a'' [1]]
       \<lparr>disk = [([''v''], FsDir), ([''v'', ''secrets''], FsDir)], faults = [Refuse]\<rparr> = (acks, w1) \<and>
     vault_load sample_env sample_vault ''a'' w1 = (Inr found, w2) \<and>
     (\<exists>m\<in>outcomes store_effect (zip [PutOp ''a'' [1]] acks)
         (vault_view sample_env sample_vault \<lparr>disk = [([''v''], FsDir), ([''v'', ''secrets''], FsDir)], faults = [Refuse]\<rparr>).
       found = m ''a'' \<and> vault_view sample_env sample_vault w2 = m)"
proof -
  let ?d = "[([''v''], FsDir), ([''v'', ''secrets''], FsDir)]" and ?op = "PutOp ''a'' [1] :: (credential_id, byte list) store_op"
  let ?w = "\<lparr>disk = ?d, faults = [Refuse]\<rparr>"
  obtain sealed where "seal_bytes toy_enc (replicate 32 5) (replicate 12 7) [1] (secret_aad ''a'') = Inr sealed"
    by (rule seal_bytes_ok [OF toy_aead_ok, of "replicate 32 5" "replicate 12 7" "[1]" "secret_aad ''a''"])
      (simp_all add: KEY_BYTES_def NONCE_BYTES_def CHUNK_BYTES_def)
  then have run: "run_all (secrets.store_step sample_env sample_vault) [?op] ?w = ([False], quiet ?d)"
    by (simp add: vault_store_def store_secret_def sample_env_def sample_vault_def MAX_SECRET_BYTES_def vault_atomic_write_def Let_def secret_path_def
      secrets_dir_def remove_regular_if_present_def stat_def io_def do_then_def do_match_def do_map_err_def quiet_def)
  have load: "vault_load sample_env sample_vault ''a'' (quiet ?d) = (Inr None, quiet ?d)"
    by (simp add: vault_load_def load_secret_def vault_read_file_def secret_path_def secrets_dir_def sample_vault_def quiet_simps do_defs entry_at_def ok_or_def)
  show ?thesis using vault_refines_secret_map [OF sample_vault_ready(1) run load] run load by blast
qed

text \<open>C34: an initialization can be interrupted anywhere and repeated. From a clean directory, after
  a first attempt under any faults, a second attempt without faults succeeds or reports the vault as
  initialized already, and the vault then opens, with the key of the first attempt whenever that key
  reached the disk; after an acknowledged first attempt the second changes nothing.\<close>

theorem vault_init_recoverable:
  assumes env: "usable_env env dir" and key: "length first = KEY_BYTES" "length second = KEY_BYTES"
    and clean: "vault_layout dir (disk w)" "unkeyed dir (disk w)"
    and run: "vault_init env first dir w = (r, w1)"
  shows "\<exists>r' d' k. vault_init env second dir (quiet (disk w1)) = (r', quiet d') \<and> r' \<in> {Inr Created, Inr Recovered, Inl VaultAlreadyInitialized} \<and>
    vault_open env dir (quiet d') = (Inr \<lparr>va_root = dir, va_key = k\<rparr>, quiet d') \<and> k \<in> {first, second} \<and>
    (keyed dir first (disk w1) \<longrightarrow> k = first) \<and> (r = Inr Created \<longrightarrow> k = first \<and> r' = Inl VaultAlreadyInitialized)"
proof -
  let ?d = "disk w1"
  have w: "blank_vault dir (disk w)" using clean by simp
  have state: "blank_vault dir ?d \<or> sealed_vault env dir first ?d" "r = Inr Created \<longrightarrow> proved_vault env dir first ?d"
    using triple_ok [OF init_blank [OF env key(1)] w] triple_err [OF init_blank [OF env key(1)] w] run by (cases r; blast)+
  obtain k where k: "blank_vault dir ?d \<and> k = second \<or> sealed_vault env dir k ?d" "k \<in> {first, second}" "sealed_vault env dir first ?d \<longrightarrow> k = first"
    using state(1) by blast
  have len: "length k = KEY_BYTES" using k(2) key by auto
  obtain r' d' where again: "vault_init env second dir (quiet ?d) = (r', quiet d')" "complete_vault env dir k d'"
    "r' = (if blank_vault dir ?d then Inr Created else if keyed_vault dir k ?d then Inr Recovered else Inl VaultAlreadyInitialized)"
    using init_again [OF env len key(2) k(1)] by blast
  have "keyed dir first ?d \<longrightarrow> k = first" using state(1) k(3) by (auto simp: unkeyed_def keyed_def)
  moreover have "r = Inr Created \<longrightarrow> k = first \<and> r' = Inl VaultAlreadyInitialized"
    using state(2) k(3) again(3) by (auto simp: unkeyed_def unproved_def proved_def keyed_def)
  ultimately show ?thesis using again open_complete [OF again(2) len] k(2) by auto
qed

lemma vault_init_recoverable_witness:
  "\<exists>r w1 r' d' k. vault_init sample_env (replicate 32 5) [''v''] \<lparr>disk = [], faults = [Proceed, Proceed, Refuse]\<rparr> = (r, w1) \<and>
    vault_init sample_env (replicate 32 6) [''v''] (quiet (disk w1)) = (r', quiet d') \<and>
    vault_open sample_env [''v''] (quiet d') = (Inr \<lparr>va_root = [''v''], va_key = k\<rparr>, quiet d') \<and> k \<in> {replicate 32 5, replicate 32 6}"
proof -
  let ?w = "\<lparr>disk = [], faults = [Proceed, Proceed, Refuse]\<rparr> :: world"
  obtain r w1 where run: "vault_init sample_env (replicate 32 5) [''v''] ?w = (r, w1)" by fastforce
  show ?thesis
    using vault_init_recoverable [OF sample_vault_ready(2) _ _ _ _ run, of "replicate 32 6"] run
    by (fastforce simp: KEY_BYTES_def vault_layout_def unkeyed_def entry_at_def)
qed

end
