(* ===== verification/Profile_Store.thy ===== *)
theory Profile_Store
  imports Store_Interface Profiles
begin

text \<open>
  \<^verbatim>\<open>crates/guardian-profile-store/src/lib.rs\<close>: server profiles in one JSON document, replaced through
  a scratch file under an exclusive lock. The directory of the store is a path of the modelled disk;
  the JSON codec and the base64 decoder are parameters.
\<close>

section \<open>Definitions\<close>

definition PROFILE_FORMAT_VERSION :: u32 where
  "PROFILE_FORMAT_VERSION = 1"

type_synonym 'x profile_document = "(vds_profile, 'x) document"

definition profile_document_empty :: "'x \<Rightarrow> 'x profile_document" where
  "profile_document_empty no_extensions =
     \<lparr>doc_format_version = PROFILE_FORMAT_VERSION, doc_entries = fmempty, doc_extensions = no_extensions\<rparr>"

datatype profile_store_error =
    InvalidProfile | InvalidDocument | IncompatibleVersion | ProfileIo | ProfileBusy | ProfileUnsafeFilesystemEntry

datatype profile_deletion_error = DeletionStore profile_store_error | DeletionSecret secret_store_error | Rollback

text \<open>The environment of a store: where it lives and the code it calls.\<close>

record 'x profile_env =
  pe_directory :: path
  pe_codec :: "'x profile_document json_codec"
  pe_b64 :: b64_decoder
  pe_no_extensions :: 'x

definition profiles_path :: "'x profile_env \<Rightarrow> path" where
  "profiles_path self = pe_directory self @ [''profiles.json'']"

definition profile_entry_valid :: "b64_decoder \<Rightarrow> string \<Rightarrow> vds_profile \<Rightarrow> bool" where
  "profile_entry_valid b64 i profile \<longleftrightarrow>
     is_ok (profile_id_parse i) \<and> vp_profile_id profile = i \<and> is_ok (vds_profile_validate b64 profile)"

definition profile_lock :: "'x profile_env \<Rightarrow> (world, profile_store_error, unit) action" where
  "profile_lock self =
     do_then (do_map_err (\<lambda>_. ProfileIo) (create_dir_all (pe_directory self))) (\<lambda>_.
     do_then (do_map_err (\<lambda>_. ProfileIo) (open_or_create (pe_directory self @ [''profiles.lock'']))) (\<lambda>_.
     do_map_err (\<lambda>_. ProfileBusy) lock_exclusive))"

definition profile_read :: "'x profile_env \<Rightarrow> (world, profile_store_error, 'x profile_document) action" where
  "profile_read self =
     do_match (stat (profiles_path self)) (\<lambda>r.
       case r of
         Inl NotFound \<Rightarrow> do_return (profile_document_empty (pe_no_extensions self))
       | Inl _ \<Rightarrow> do_fail ProfileIo
       | Inr (FsFile _) \<Rightarrow>
           do_then (do_map_err (\<lambda>_. ProfileIo) (read_file (profiles_path self))) (\<lambda>bytes.
           do_then (do_lift (ok_or (from_json (pe_codec self) bytes) InvalidDocument)) (\<lambda>document.
             if doc_format_version document \<noteq> PROFILE_FORMAT_VERSION then do_fail IncompatibleVersion
             else if fmpred (profile_entry_valid (pe_b64 self)) (doc_entries document) then do_return document
             else do_fail InvalidDocument))
       | Inr _ \<Rightarrow> do_fail ProfileUnsafeFilesystemEntry)"

definition profile_remove_regular :: "path \<Rightarrow> (world, profile_store_error, unit) action" where
  "profile_remove_regular path =
     do_match (stat path) (\<lambda>r.
       case r of
         Inr (FsFile _) \<Rightarrow> do_map_err (\<lambda>_. ProfileIo) (remove_file path)
       | Inr _ \<Rightarrow> do_fail ProfileUnsafeFilesystemEntry
       | Inl NotFound \<Rightarrow> do_return ()
       | Inl _ \<Rightarrow> do_fail ProfileIo)"

definition profile_sync_parent :: "path \<Rightarrow> (world, profile_store_error, unit) action" where
  "profile_sync_parent path =
     (if path = [] then do_fail ProfileIo
      else do_map_err (\<lambda>_. ProfileIo) (do_then (open_path (butlast path)) (\<lambda>_. sync)))"

definition profile_write :: "'x profile_env \<Rightarrow> 'x profile_document \<Rightarrow> (world, profile_store_error, unit) action" where
  "profile_write self document =
     (let temporary = pe_directory self @ [''profiles.json.tmp''] in
      do_then (do_map_err (\<lambda>_. ProfileIo) (create_dir_all (pe_directory self))) (\<lambda>_.
      do_then (do_map_err (\<lambda>_. ProfileIo) (stat (pe_directory self))) (\<lambda>parent.
        if parent \<noteq> FsDir then do_fail ProfileUnsafeFilesystemEntry
        else
          do_then (profile_remove_regular temporary) (\<lambda>_.
          do_then (do_lift (ok_or (to_json (pe_codec self) document) InvalidDocument)) (\<lambda>bytes.
          do_then (do_map_err (\<lambda>_. ProfileIo) (create_new temporary)) (\<lambda>_.
          do_then (do_map_err (\<lambda>_. ProfileIo) (do_then (write_file temporary bytes) (\<lambda>_. sync))) (\<lambda>_.
          do_then (do_map_err (\<lambda>_. ProfileIo) (rename temporary (profiles_path self))) (\<lambda>_.
          profile_sync_parent (profiles_path self)))))))))"

definition profile_list :: "'x profile_env \<Rightarrow> (world, profile_store_error, vds_profile list) action" where
  "profile_list self =
     do_then (profile_lock self) (\<lambda>_.
     do_then (profile_read self) (\<lambda>document. do_return (document_values (doc_entries document))))"

definition profile_upsert :: "'x profile_env \<Rightarrow> vds_profile \<Rightarrow> (world, profile_store_error, unit) action" where
  "profile_upsert self profile =
     do_then (do_lift (map_err (\<lambda>_. InvalidProfile) (vds_profile_validate (pe_b64 self) profile))) (\<lambda>_.
     do_then (profile_lock self) (\<lambda>_.
     do_then (profile_read self) (\<lambda>document.
     profile_write self (document\<lparr>doc_entries := fmupd (vp_profile_id profile) profile (doc_entries document)\<rparr>))))"

definition profile_remove :: "'x profile_env \<Rightarrow> profile_id \<Rightarrow> (world, profile_store_error, vds_profile option) action" where
  "profile_remove self i =
     do_then (profile_lock self) (\<lambda>_.
     do_then (profile_read self) (\<lambda>document.
       let removed = fmlookup (doc_entries document) i in
       if removed \<noteq> None
       then do_then (profile_write self (document\<lparr>doc_entries := fmdrop i (doc_entries document)\<rparr>)) (\<lambda>_.
         do_return removed)
       else do_return removed))"

definition profile_remove_with_secret ::
  "'x profile_env \<Rightarrow> (credential_id \<Rightarrow> (world, secret_store_error, unit) action) \<Rightarrow> profile_id \<Rightarrow>
   (world, profile_deletion_error, bool) action" where
  "profile_remove_with_secret self delete_secret i =
     do_then (do_map_err DeletionStore (profile_remove self i)) (\<lambda>removed.
       case removed of
         None \<Rightarrow> do_return False
       | Some profile \<Rightarrow>
           do_match (delete_secret (vp_credential_id profile)) (\<lambda>r.
             case r of
               Inl err \<Rightarrow>
                 do_match (profile_upsert self profile) (\<lambda>r.
                   case r of Inr _ \<Rightarrow> do_fail (DeletionSecret err) | Inl _ \<Rightarrow> do_fail Rollback)
             | Inr _ \<Rightarrow> do_return True))"

definition map_port_error :: "profile_store_error \<Rightarrow> profile_store_port_error" where
  "map_port_error err =
     (if err \<in> {InvalidProfile, InvalidDocument, ProfileUnsafeFilesystemEntry} then StoreRejected
      else StoreUnavailable)"

definition profile_save :: "'x profile_env \<Rightarrow> vds_profile \<Rightarrow> (world, profile_store_port_error, unit) action" where
  "profile_save self profile = do_map_err map_port_error (profile_upsert self profile)"

definition profile_get :: "'x profile_env \<Rightarrow> profile_id \<Rightarrow> (world, profile_store_port_error, vds_profile option) action" where
  "profile_get self i =
     do_then (do_map_err map_port_error (profile_list self)) (\<lambda>profiles.
     do_return (find (\<lambda>profile. vp_profile_id profile = i) profiles))"

section \<open>The replacement discipline\<close>

interpretation profile_file: swapped_file directory "''profiles.json''" "''profiles.json.tmp''" "{''profiles.json.tmp'', ''profiles.lock''}"
  for directory
  by unfold_locales auto

text \<open>What the store says its disk holds.\<close>

definition profile_document_valid :: "b64_decoder \<Rightarrow> 'x profile_document \<Rightarrow> bool" where
  "profile_document_valid b64 document \<longleftrightarrow>
     doc_format_version document = PROFILE_FORMAT_VERSION \<and> fmpred (profile_entry_valid b64) (doc_entries document)"

definition profile_document_at :: "'x profile_env \<Rightarrow> disk \<Rightarrow> 'x profile_document option" where
  "profile_document_at self =
     document_at (pe_codec self) (profile_document_valid (pe_b64 self)) (profile_document_empty (pe_no_extensions self)) (profiles_path self)"

definition profile_readable :: "'x profile_env \<Rightarrow> world \<Rightarrow> bool" where
  "profile_readable self w \<longleftrightarrow> codec_ok (pe_codec self) \<and> profile_document_at self (disk w) \<noteq> None"

definition profile_view :: "'x profile_env \<Rightarrow> world \<Rightarrow> profile_id \<Rightarrow> vds_profile option" where
  "profile_view self w = fmlookup (doc_entries (the (profile_document_at self (disk w))))"

definition profile_typed :: "profile_id \<Rightarrow> vds_profile \<Rightarrow> bool" where
  "profile_typed i profile \<longleftrightarrow> is_ok (profile_id_parse i) \<and> vp_profile_id profile = i"

abbreviation profile_kept :: "'x profile_env \<Rightarrow> disk \<Rightarrow> disk \<Rightarrow> bool" where
  "profile_kept self \<equiv> profile_file.kept (pe_directory self)"

abbreviation profile_swapped :: "'x profile_env \<Rightarrow> byte list \<Rightarrow> disk \<Rightarrow> disk \<Rightarrow> bool" where
  "profile_swapped self \<equiv> profile_file.swapped (pe_directory self)"

lemma profile_paths:
  "profile_file.target directory = directory @ [''profiles.json'']" "profile_file.temporary directory = directory @ [''profiles.json.tmp'']"
  by (simp_all add: profile_file.target_def profile_file.temporary_def)

lemma profile_lock_triple:
  "triple (holds (profile_kept self d)) (profile_lock self) (\<lambda>_. holds (profile_kept self d)) (\<lambda>_. holds (profile_kept self d))"
  unfolding profile_lock_def
  by (intro triple_then [OF triple_relabel [OF profile_file.create_dir_all_kept]]
      triple_then [OF triple_relabel [OF profile_file.open_or_create_kept]] triple_relabel lock_exclusive_triple) simp

lemma profile_read_triple:
  "triple (holds (profile_kept self d)) (profile_read self)
    (\<lambda>doc. holds (\<lambda>d'. profile_kept self d d' \<and> profile_document_at self d' = Some doc)) (\<lambda>_. holds (profile_kept self d))"
proof -
  let ?K = "profile_kept self d" and ?p = "profiles_path self"
  let ?Q = "\<lambda>doc. holds (\<lambda>d'. ?K d' \<and> profile_document_at self d' = Some doc)"
  have s: "triple (holds ?K) (stat ?p) (\<lambda>_. holds ?K) (\<lambda>e. holds (\<lambda>d'. ?K d' \<and> (e = NotFound \<longrightarrow> entry_at d' ?p = None)))"
    unfolding stat_def by (rule io_rule) (auto simp: ok_or_def split: option.splits)
  have b: "triple (holds (\<lambda>d'. ?K d' \<and> entry_at d' ?p = Some (FsFile bytes)))
      (do_then (do_lift (ok_or (from_json (pe_codec self) bytes) InvalidDocument)) (\<lambda>document.
             if doc_format_version document \<noteq> PROFILE_FORMAT_VERSION then do_fail IncompatibleVersion
             else if fmpred (profile_entry_valid (pe_b64 self)) (doc_entries document) then do_return document
             else do_fail InvalidDocument)) ?Q (\<lambda>_. holds ?K)" for bytes
    by (auto simp: triple_def do_then_def ok_or_def profile_document_at_def document_at_def profile_document_valid_def
        split: option.splits)
  have f: "triple (holds ?K) (do_then (do_map_err (\<lambda>_. ProfileIo) (read_file ?p)) (\<lambda>bytes.
           do_then (do_lift (ok_or (from_json (pe_codec self) bytes) InvalidDocument)) (\<lambda>document.
             if doc_format_version document \<noteq> PROFILE_FORMAT_VERSION then do_fail IncompatibleVersion
             else if fmpred (profile_entry_valid (pe_b64 self)) (doc_entries document) then do_return document
             else do_fail InvalidDocument))) ?Q (\<lambda>_. holds ?K)"
    by (rule triple_then [OF triple_relabel [OF read_file_triple [of ?K]] b])
  show ?thesis
    unfolding profile_read_def
  proof (rule triple_match [OF s])
    fix e
    show "triple (holds ?K) (case Inr e of
         Inl NotFound \<Rightarrow> do_return (profile_document_empty (pe_no_extensions self))
       | Inl _ \<Rightarrow> do_fail ProfileIo
       | Inr (FsFile _) \<Rightarrow>
           do_then (do_map_err (\<lambda>_. ProfileIo) (read_file ?p)) (\<lambda>bytes.
           do_then (do_lift (ok_or (from_json (pe_codec self) bytes) InvalidDocument)) (\<lambda>document.
             if doc_format_version document \<noteq> PROFILE_FORMAT_VERSION then do_fail IncompatibleVersion
             else if fmpred (profile_entry_valid (pe_b64 self)) (doc_entries document) then do_return document
             else do_fail InvalidDocument))
       | Inr _ \<Rightarrow> do_fail ProfileUnsafeFilesystemEntry) ?Q (\<lambda>_. holds ?K)"
      using f by (cases e) (simp_all add: triple_done)
  qed (auto simp: triple_def profile_document_at_def document_at_def split: fs_error.splits)
qed

lemma profile_write_triple:
  "triple (holds (profile_kept self d)) (profile_write self doc)
    (\<lambda>_. holds (\<lambda>d'. \<exists>bs. to_json (pe_codec self) doc = Some bs \<and> profile_swapped self bs d d'))
    (\<lambda>_. holds (\<lambda>d'. profile_kept self d d' \<or> (\<exists>bs. to_json (pe_codec self) doc = Some bs \<and> profile_swapped self bs d d')))"
proof -
  let ?K = "profile_kept self d" and ?t = "pe_directory self @ [''profiles.json.tmp'']"
  let ?J = "\<lambda>d'. \<exists>bs. to_json (pe_codec self) doc = Some bs \<and> profile_swapped self bs d d'"
  let ?E = "\<lambda>_ :: profile_store_error. holds (\<lambda>d'. ?K d' \<or> ?J d')"
  have weak: "triple (holds P) m (\<lambda>x. holds (Q x)) ?E" if "triple (holds P) m (\<lambda>x. holds (Q x)) (\<lambda>_. holds ?K)"
    for P Q and m :: "(world, profile_store_error, 'r) action"
    using that by (rule triple_weaken) auto
  have rr: "triple (holds ?K) (profile_remove_regular ?t) (\<lambda>_. holds ?K) (\<lambda>_. holds ?K)"
    unfolding profile_remove_regular_def
    by (rule triple_match [OF profile_file.read_only_kept])
      (auto split: entry.splits fs_error.splits intro: triple_done triple_map_err profile_file.remove_temporary_kept [unfolded profile_paths])
  have sp: "triple (holds (profile_swapped self bs d)) (profile_sync_parent (profiles_path self)) (\<lambda>_. holds ?J) ?E"
    if "to_json (pe_codec self) doc = Some bs" for bs
  proof (rule triple_weaken)
    show "triple (holds (profile_swapped self bs d)) (profile_sync_parent (profiles_path self))
        (\<lambda>_. holds (profile_swapped self bs d)) (\<lambda>_. holds (profile_swapped self bs d))"
      by (simp add: profile_sync_parent_def profiles_path_def)
        (rule triple_relabel [OF triple_then [OF profile_file.swapped_quiet(2) profile_file.swapped_quiet(1)]])
  qed (use that in auto)
  have ser: "triple (holds ?K) (do_then (do_lift (ok_or (to_json (pe_codec self) doc) InvalidDocument)) (\<lambda>bytes.
          do_then (do_map_err (\<lambda>_. ProfileIo) (create_new ?t)) (\<lambda>_.
          do_then (do_map_err (\<lambda>_. ProfileIo) (do_then (write_file ?t bytes) (\<lambda>_. sync))) (\<lambda>_.
          do_then (do_map_err (\<lambda>_. ProfileIo) (rename ?t (profiles_path self))) (\<lambda>_.
          profile_sync_parent (profiles_path self)))))) (\<lambda>_. holds ?J) ?E"
    by (rule triple_lift, unfold profiles_path_def,
        rule profile_file.replace_triple [unfolded profile_paths], rule sp [unfolded profiles_path_def])
      (auto simp: ok_or_def split: option.splits)
  show ?thesis
    unfolding profile_write_def Let_def
    by (intro triple_then [OF weak [OF triple_relabel [OF profile_file.create_dir_all_kept]]]
        triple_then [OF weak [OF triple_relabel [OF profile_file.read_only_kept]]] triple_if ser
        triple_then [OF weak [OF rr]] weak [OF triple_done(2)])
qed

section \<open>The contract of the store\<close>

lemma profile_document_empty_valid: "profile_document_valid b64 (profile_document_empty x)"
  by (simp add: profile_document_valid_def profile_document_empty_def)

interpretation profile_docs: document_store "pe_directory self" "''profiles.json''" "''profiles.json.tmp''" "{''profiles.json.tmp'', ''profiles.lock''}"
    "pe_codec self" "profile_document_valid (pe_b64 self)" "profile_document_empty (pe_no_extensions self)"
    "profile_lock self" "profile_read self" "profile_write self"
  for self
  by unfold_locales
    (simp_all add: profile_document_empty_valid profile_lock_triple profile_write_triple profile_paths
      profile_read_triple [unfolded profile_document_at_def profiles_path_def])

lemma profile_docs_simps:
  fixes self :: "'x profile_env"
  shows "profile_docs.readable TYPE('x) self w \<longleftrightarrow> profile_readable self w" "profile_docs.view TYPE('x) self w = profile_view self w"
  by (simp_all add: profile_docs.readable_def profile_readable_def profile_docs.view_def profile_view_def profile_document_at_def profiles_path_def profile_paths)

lemma profile_document_valid_simps:
  "profile_document_valid b64 doc \<Longrightarrow> profile_document_valid b64 (doc\<lparr>doc_entries := fmdrop i (doc_entries doc)\<rparr>)"
  "profile_document_valid b64 doc \<Longrightarrow> profile_entry_valid b64 i profile \<Longrightarrow>
     profile_document_valid b64 (doc\<lparr>doc_entries := fmupd i profile (doc_entries doc)\<rparr>)"
  "profile_document_valid b64 doc \<Longrightarrow> fmpred (\<lambda>k v. vp_profile_id v = k) (doc_entries doc)"
  by (auto simp: profile_document_valid_def profile_entry_valid_def fmpred_iff intro!: fmpred_drop fmpred_upd)

lemma profile_upsert_transforms:
  fixes self :: "'x profile_env"
  assumes typed: "profile_typed i profile"
  shows "profile_docs.transforms self (profile_upsert self profile) (\<lambda>_ _. True) (\<lambda>doc. doc\<lparr>doc_entries := fmupd i profile (doc_entries doc)\<rparr>)"
  unfolding profile_upsert_def
proof (rule profile_docs.transforms_lift)
  fix u assume "map_err (\<lambda>_. InvalidProfile) (vds_profile_validate (pe_b64 self) profile) = Inr u"
  then have "profile_entry_valid (pe_b64 self) i profile" "vp_profile_id profile = i"
    using typed by (auto simp: profile_entry_valid_def profile_typed_def is_ok_def map_err_def split: sum.splits)
  then show "profile_docs.transforms self (do_then (profile_lock self) (\<lambda>_. do_then (profile_read self) (\<lambda>document.
     profile_write self (document\<lparr>doc_entries := fmupd (vp_profile_id profile) profile (doc_entries document)\<rparr>))))
     (\<lambda>_ _. True) (\<lambda>doc. doc\<lparr>doc_entries := fmupd i profile (doc_entries doc)\<rparr>)"
    using profile_docs.transforms_write [where self = self and g = "\<lambda>doc. doc\<lparr>doc_entries := fmupd i profile (doc_entries doc)\<rparr>"]
    by (simp add: profile_document_valid_simps)
qed

lemma profile_remove_transforms:
  fixes self :: "'x profile_env"
  shows "profile_docs.transforms self (profile_remove self i) (\<lambda>x doc. x = fmlookup (doc_entries doc) i) (\<lambda>doc. doc\<lparr>doc_entries := fmdrop i (doc_entries doc)\<rparr>)"
  unfolding profile_remove_def by (rule profile_docs.transforms_remove) (rule profile_document_valid_simps)

lemma profile_get_transforms:
  fixes self :: "'x profile_env"
  shows "profile_docs.transforms self (profile_get self i)
     (\<lambda>x doc. x = find (\<lambda>v. vp_profile_id v = i) (document_values (doc_entries doc))) (\<lambda>doc. doc)"
  unfolding profile_get_def profile_list_def
  by (intro profile_docs.transforms_return [OF profile_docs.transforms_relabel [OF profile_docs.transforms_list]]) simp

lemmas profile_save_transforms = profile_docs.transforms_relabel [OF profile_upsert_transforms, where h = map_port_error, folded profile_save_def]
lemmas profile_delete_transforms = profile_docs.transforms_relabel [OF profile_remove_transforms, where h = map_port_error]
lemmas profile_put = profile_docs.transforms_put [unfolded profile_docs_simps]
lemmas profile_delete = profile_docs.transforms_delete [unfolded profile_docs_simps]
lemmas profile_query = profile_docs.transforms_query [unfolded profile_docs_simps]
lemmas profile_view_valid = profile_docs.view_valid [unfolded profile_docs_simps]

interpretation profiles: deletable_store "profile_readable self" "profile_view self" profile_typed
    "\<lambda>_. profile_save self" "profile_get self" "\<lambda>i. do_map_err map_port_error (profile_remove self i)"
  for self :: "'x profile_env"
proof unfold_locales
  fix s t :: world and k v and r :: "profile_store_port_error + unit"
  assume "profile_readable self s" "profile_typed k v" "profile_save self v s = (r, t)"
  then show "profile_readable self t \<and> (profile_view self t = profile_view self s \<or> profile_view self t = (profile_view self s)(k \<mapsto> v))"
    using profile_put(1,2) [OF profile_save_transforms] by blast
next
  fix s t :: world and k v and u :: unit
  assume "profile_readable self s" "profile_typed k v" "profile_save self v s = (Inr u, t)"
  then show "profile_view self t = (profile_view self s)(k \<mapsto> v)"
    using profile_put(3) [OF profile_save_transforms] by blast
next
  fix s t :: world and k and r :: "profile_store_port_error + vds_profile option"
  assume "profile_readable self s" "profile_get self k s = (r, t)"
  then show "profile_readable self t \<and> profile_view self t = profile_view self s"
    using profile_query(1,2) [OF profile_get_transforms] by blast
next
  fix s t :: world and k and x :: "vds_profile option"
  assume "profile_readable self s" "profile_get self k s = (Inr x, t)"
  then obtain doc :: "'x profile_document" where "profile_document_valid (pe_b64 self) doc" "profile_view self s = fmlookup (doc_entries doc)"
    "x = find (\<lambda>v. vp_profile_id v = k) (document_values (doc_entries doc))"
    using profile_query(3) [OF profile_get_transforms _ _ refl] by blast
  then show "x = profile_view self s k"
    by (simp add: find_document_values profile_document_valid_simps)
next
  fix s t :: world and k and r :: "profile_store_port_error + vds_profile option"
  assume "profile_readable self s" "do_map_err map_port_error (profile_remove self k) s = (r, t)"
  then show "profile_readable self t \<and> (profile_view self t = profile_view self s \<or> profile_view self t = (profile_view self s)(k := None))"
    using profile_delete(1,2) [OF profile_delete_transforms] by blast
next
  fix s t :: world and k and b :: "vds_profile option"
  assume "profile_readable self s" "do_map_err map_port_error (profile_remove self k) s = (Inr b, t)"
  then show "profile_view self t = (profile_view self s)(k := None)"
    using profile_delete(3) [OF profile_delete_transforms] by blast
qed

section \<open>Properties\<close>

definition save_all :: "'x profile_env \<Rightarrow> vds_profile list \<Rightarrow> world \<Rightarrow> world" where
  "save_all self ps w = fold (\<lambda>p w. snd (profile_save self p w)) ps w"

lemma save_all_put_all:
  fixes self :: "'x profile_env"
  shows "save_all self ps w = profiles.put_all TYPE('x) self (map (\<lambda>p. (vp_profile_id p, p)) ps) w"
  by (induction ps arbitrary: w) (simp_all add: save_all_def)

text \<open>A concrete store, for the instances: its codec knows the empty document and one with a single
  profile.\<close>

definition sample_document :: "unit profile_document" where
  "sample_document = (profile_document_empty ())\<lparr>doc_entries := fmupd ''p1'' (sample_profile ''p1'') fmempty\<rparr>"

definition sample_store :: "unit profile_env" where
  "sample_store = \<lparr>pe_directory = [], pe_codec = two_documents sample_document (profile_document_empty ()), pe_b64 = sample_b64, pe_no_extensions = ()\<rparr>"

lemma sample_store_readable: "profile_readable sample_store (quiet [])"
  by (auto simp: profile_readable_def sample_store_def two_documents_ok profile_document_at_def document_at_def
      profiles_path_def entry_at_def disk_quiet)

lemma sample_profile_entry: "is_ok (profile_id_parse ''p1'')" "vds_profile_validate sample_b64 (sample_profile ''p1'') = Inr ()"
  "vp_profile_id (sample_profile ''p1'') = ''p1''"
  by code_simp (rule sample_profile_valid, simp add: sample_profile_def)

lemma sample_document_simps:
  "(profile_document_empty ())\<lparr>doc_entries := fmupd ''p1'' (sample_profile ''p1'') (doc_entries (profile_document_empty ()))\<rparr> = sample_document"
  "sample_document\<lparr>doc_entries := fmdrop ''p1'' (doc_entries sample_document)\<rparr> = profile_document_empty ()"
  "fmlookup (doc_entries sample_document) ''p1'' = Some (sample_profile ''p1'')"
  "profile_document_empty () \<noteq> sample_document" "sample_document \<noteq> profile_document_empty ()"
  "doc_format_version sample_document = PROFILE_FORMAT_VERSION" "fmpred (profile_entry_valid sample_b64) (doc_entries sample_document)"
  "doc_format_version (profile_document_empty ()) = PROFILE_FORMAT_VERSION" "fmpred (profile_entry_valid sample_b64) (doc_entries (profile_document_empty ()))"
proof -
  have "fmlookup (doc_entries sample_document) ''p1'' = Some (sample_profile ''p1'')" "fmlookup (doc_entries (profile_document_empty ())) ''p1'' = None"
    by (simp_all add: sample_document_def profile_document_empty_def)
  then show "profile_document_empty () \<noteq> sample_document" "sample_document \<noteq> profile_document_empty ()" by auto
  have "profile_entry_valid sample_b64 ''p1'' (sample_profile ''p1'')"
    by (simp add: profile_entry_valid_def sample_profile_entry)
  then show "fmpred (profile_entry_valid sample_b64) (doc_entries sample_document)"
    by (simp add: sample_document_def fmpred_upd)
qed (simp_all add: sample_document_def profile_document_empty_def fmdrop_fmupd)

lemmas sample_store_simps =
  sample_store_def two_documents_def sample_profile_entry sample_document_simps
  profile_lock_def profile_read_def profile_write_def profile_remove_regular_def profile_sync_parent_def profiles_path_def
  quiet_simps do_defs entry_at_def put_def del_def ok_or_def map_err_def Let_def append_file_def rename_allowed_def
  move_tree_def del_tree_def

abbreviation sample_saved :: disk where
  "sample_saved \<equiv> [([''profiles.json''], FsFile [1]), ([''profiles.lock''], FsFile [])]"

lemma sample_save: "profile_save sample_store (sample_profile ''p1'') (quiet []) = (Inr (), quiet sample_saved)"
  by (simp add: profile_save_def profile_upsert_def sample_store_simps)

lemma sample_get: "\<exists>x. profile_get sample_store ''p1'' (quiet sample_saved) = (Inr x, quiet sample_saved)"
  by (simp add: profile_get_def profile_list_def sample_store_simps)

lemma sample_remove:
  "profile_remove sample_store ''p1'' (quiet sample_saved) =
    (Inr (Some (sample_profile ''p1'')), quiet [([''profiles.json''], FsFile [0]), ([''profiles.lock''], FsFile [])])"
  by (simp add: profile_remove_def sample_store_simps)

lemma profile_store_view_saved:
  "profile_readable sample_store (quiet sample_saved) \<and> profile_view sample_store (quiet sample_saved) ''p1'' = Some (sample_profile ''p1'')"
proof -
  have "profile_document_at sample_store (disk (quiet sample_saved)) = Some sample_document"
    by (simp add: profile_document_at_def document_at_def profile_document_valid_def sample_store_simps)
  then show ?thesis
    using sample_store_readable by (simp add: profile_readable_def profile_view_def sample_document_simps)
qed

text \<open>C28: the profile store refines a map with atomic updates. Whatever calls of the operating system
  are refused or torn, a save leaves a readable store that holds the old map or the map with the new
  profile, and an acknowledged save is what a later lookup returns, after any saves (failed or not) of
  profiles with other ids.\<close>

theorem profile_store_refines_map:
  assumes "profile_readable self w" "is_ok (profile_id_parse (vp_profile_id p))" "profile_save self p w = (r, w1)"
  shows "profile_readable self w1 \<and>
    profile_view self w1 \<in> {profile_view self w, (profile_view self w)(vp_profile_id p \<mapsto> p)} \<and>
    (r = Inr () \<and> list_all (\<lambda>q. is_ok (profile_id_parse (vp_profile_id q)) \<and> vp_profile_id q \<noteq> vp_profile_id p) ps \<and>
       profile_get self (vp_profile_id p) (save_all self ps w1) = (Inr x, w2) \<longrightarrow> x = Some p)"
proof -
  have t: "profile_typed (vp_profile_id p) p" using assms(2) by (simp add: profile_typed_def)
  have "x = Some p" if r: "r = Inr ()" and ps: "list_all (\<lambda>q. is_ok (profile_id_parse (vp_profile_id q)) \<and> vp_profile_id q \<noteq> vp_profile_id p) ps"
    and get: "profile_get self (vp_profile_id p) (save_all self ps w1) = (Inr x, w2)"
  proof (rule profiles.acknowledged_write_durable [OF assms(1) t assms(3) [unfolded r] _ _ get [unfolded save_all_put_all]])
    show "list_all (\<lambda>kv. profile_typed (fst kv) (snd kv)) (map (\<lambda>p. (vp_profile_id p, p)) ps)"
      using ps by (simp add: list_all_iff profile_typed_def)
    show "vp_profile_id p \<notin> fst ` set (map (\<lambda>p. (vp_profile_id p, p)) ps)"
      using ps by (auto simp: list_all_iff)
  qed
  then show ?thesis using profiles.put_atomic [OF assms(1) t assms(3)] by auto
qed

theorem profile_store_refines_map_witness:
  "profile_get sample_store ''p1'' (snd (profile_save sample_store (sample_profile ''p1'') (quiet []))) = (Inr (Some (sample_profile ''p1'')), quiet sample_saved)"
proof -
  obtain x where x: "profile_get sample_store ''p1'' (quiet sample_saved) = (Inr x, quiet sample_saved)"
    using sample_get by blast
  have "x = Some (sample_profile ''p1'')"
    using profile_store_refines_map [OF sample_store_readable _ sample_save, of "[]" x "quiet sample_saved"] x
    by (simp add: sample_profile_entry save_all_def)
  then show ?thesis by (simp add: sample_save x)
qed



end
