(* ===== verification/Configuration_Store.thy ===== *)
theory Configuration_Store
  imports Store_Interface Plans
begin

text \<open>
  \<^verbatim>\<open>crates/guardian-configuration/src\<close>: the stores of capture plans and of repository registrations, two
  JSON documents behind one lock file each, replaced through a scratch file (\<^verbatim>\<open>storage.rs\<close>). The JSON
  codecs and SHA-256 are parameters. A registration is checked against the disk it names, at every
  read of the document.
\<close>

section \<open>Definitions\<close>

datatype configuration_store_error = ConfigurationInvalid | ConfigurationUnavailable

subsection \<open>Shared storage\<close>

definition read_json :: "'d json_codec \<Rightarrow> path \<Rightarrow> (world, configuration_store_error, 'd option) action" where
  "read_json codec path =
     do_match (stat path) (\<lambda>r.
       case r of
         Inl NotFound \<Rightarrow> do_return None
       | Inr (FsFile _) \<Rightarrow>
           do_then (do_map_err (\<lambda>_. ConfigurationUnavailable) (read_file path)) (\<lambda>bytes.
           do_map_err (\<lambda>_. ConfigurationInvalid) (do_lift (map_sum id Some (ok_or (from_json codec bytes) ()))))
       | _ \<Rightarrow> do_fail ConfigurationInvalid)"

definition config_remove_regular :: "path \<Rightarrow> (world, configuration_store_error, unit) action" where
  "config_remove_regular path =
     do_match (stat path) (\<lambda>r.
       case r of
         Inr (FsFile _) \<Rightarrow> do_map_err (\<lambda>_. ConfigurationUnavailable) (remove_file path)
       | Inr _ \<Rightarrow> do_fail ConfigurationInvalid
       | Inl NotFound \<Rightarrow> do_return ()
       | Inl _ \<Rightarrow> do_fail ConfigurationUnavailable)"

definition write_json :: "'d json_codec \<Rightarrow> path \<Rightarrow> 'd \<Rightarrow> (world, configuration_store_error, unit) action" where
  "write_json codec path value =
     (if path = [] then do_fail ConfigurationUnavailable
      else
        let parent = butlast path; temporary = with_extension path ''json.tmp'' in
        do_then (do_map_err (\<lambda>_. ConfigurationUnavailable) (create_dir_all parent)) (\<lambda>_.
        do_then (do_map_err (\<lambda>_. ConfigurationUnavailable) (stat parent)) (\<lambda>parent_metadata.
          if parent_metadata \<noteq> FsDir then do_fail ConfigurationInvalid
          else
            do_then (config_remove_regular temporary) (\<lambda>_.
            do_then (do_lift (ok_or (to_json codec value) ConfigurationInvalid)) (\<lambda>bytes.
            do_then (do_map_err (\<lambda>_. ConfigurationUnavailable) (create_new temporary)) (\<lambda>_.
            do_then (do_map_err (\<lambda>_. ConfigurationUnavailable) (do_then (write_file temporary bytes) (\<lambda>_. sync))) (\<lambda>_.
            do_then (do_map_err (\<lambda>_. ConfigurationUnavailable) (rename temporary path)) (\<lambda>_.
            do_return ()))))))))"

definition config_lock :: "path \<Rightarrow> (world, configuration_store_error, unit) action" where
  "config_lock path =
     (if path = [] then do_fail ConfigurationUnavailable
      else
        let parent = butlast path in
        do_then (do_map_err (\<lambda>_. ConfigurationUnavailable) (create_dir_all parent)) (\<lambda>_.
        do_then (do_map_err (\<lambda>_. ConfigurationUnavailable) (open_or_create (parent @ [''configuration.lock'']))) (\<lambda>_.
        do_map_err (\<lambda>_. ConfigurationUnavailable) lock_exclusive)))"

subsection \<open>Capture plans\<close>

definition PLANS_FORMAT_VERSION :: u32 where
  "PLANS_FORMAT_VERSION = 1"

record stored_capture_plan =
  sc_plan :: filesystem_capture_plan
  sc_sha256 :: string
  sc_source_layout :: "source_layout option"

record 'x plan_env =
  pl_directory :: path
  pl_codec :: "(stored_capture_plan, 'x) document json_codec"
  pl_plan_json :: "filesystem_capture_plan \<Rightarrow> byte list option"
  pl_sha256 :: hash_function
  pl_no_extensions :: 'x

definition stored_capture_plan_new ::
  "'x plan_env \<Rightarrow> filesystem_capture_plan \<Rightarrow> configuration_store_error + stored_capture_plan" where
  "stored_capture_plan_new env plan =
     and_then (map_err (\<lambda>_. ConfigurationInvalid) (canonical_sha256 (pl_plan_json env) (pl_sha256 env) plan)) (\<lambda>sha256.
     Inr \<lparr>sc_plan = plan, sc_sha256 = sha256, sc_source_layout = None\<rparr>)"

definition with_source_layout ::
  "stored_capture_plan \<Rightarrow> source_layout \<Rightarrow> configuration_store_error + stored_capture_plan" where
  "with_source_layout self layout =
     and_then (map_err (\<lambda>_. ConfigurationInvalid) (source_layout_validate layout)) (\<lambda>_.
     Inr (self\<lparr>sc_source_layout := Some layout\<rparr>))"

definition stored_capture_plan_validate :: "'x plan_env \<Rightarrow> stored_capture_plan \<Rightarrow> configuration_store_error + unit" where
  "stored_capture_plan_validate env self =
     and_then (map_err (\<lambda>_. ConfigurationInvalid) (canonical_sha256 (pl_plan_json env) (pl_sha256 env) (sc_plan self))) (\<lambda>sha256.
     and_then (ok_if (sha256 = sc_sha256 self) () ConfigurationInvalid) (\<lambda>_.
     case sc_source_layout self of
       Some layout \<Rightarrow> map_err (\<lambda>_. ConfigurationInvalid) (source_layout_validate layout)
     | None \<Rightarrow> Inr ()))"

definition plan_document_empty :: "'x \<Rightarrow> (stored_capture_plan, 'x) document" where
  "plan_document_empty no_extensions =
     \<lparr>doc_format_version = PLANS_FORMAT_VERSION, doc_entries = fmempty, doc_extensions = no_extensions\<rparr>"

definition plans_path :: "'x plan_env \<Rightarrow> path" where
  "plans_path self = pl_directory self @ [''plans.json'']"

definition plan_entry_valid :: "'x plan_env \<Rightarrow> string \<Rightarrow> stored_capture_plan \<Rightarrow> bool" where
  "plan_entry_valid self i plan \<longleftrightarrow>
     is_ok (plan_id_parse i) \<and> fc_plan_id (sc_plan plan) = i \<and> is_ok (stored_capture_plan_validate self plan)"

definition plan_read :: "'x plan_env \<Rightarrow> (world, configuration_store_error, (stored_capture_plan, 'x) document) action" where
  "plan_read self =
     do_then (read_json (pl_codec self) (plans_path self)) (\<lambda>found.
       let document = case found of Some document \<Rightarrow> document | None \<Rightarrow> plan_document_empty (pl_no_extensions self) in
       if doc_format_version document \<noteq> PLANS_FORMAT_VERSION then do_fail ConfigurationInvalid
       else if fmpred (plan_entry_valid self) (doc_entries document) then do_return document
       else do_fail ConfigurationInvalid)"

definition plan_list :: "'x plan_env \<Rightarrow> (world, configuration_store_error, stored_capture_plan list) action" where
  "plan_list self =
     do_then (config_lock (plans_path self)) (\<lambda>_.
     do_then (plan_read self) (\<lambda>document. do_return (document_values (doc_entries document))))"

definition plan_upsert :: "'x plan_env \<Rightarrow> stored_capture_plan \<Rightarrow> (world, configuration_store_error, unit) action" where
  "plan_upsert self plan =
     do_then (do_lift (stored_capture_plan_validate self plan)) (\<lambda>_.
     do_then (config_lock (plans_path self)) (\<lambda>_.
     do_then (plan_read self) (\<lambda>document.
     write_json (pl_codec self) (plans_path self)
       (document\<lparr>doc_entries := fmupd (fc_plan_id (sc_plan plan)) plan (doc_entries document)\<rparr>))))"

subsection \<open>Repository registrations\<close>

definition REPOSITORIES_FORMAT_VERSION :: u32 where
  "REPOSITORIES_FORMAT_VERSION = 1"

record repository_registration =
  rr_repository_id :: string
  rr_label :: string
  rr_path :: string

record 'x registry_env =
  rg_directory :: path
  rg_codec :: "(repository_registration, 'x) document json_codec"
  rg_no_extensions :: 'x

text \<open>The components of a path, as \<open>Path::components\<close> reads them, and \<open>canonicalize\<close> compared with the
  path itself: they agree when no component before the last is a link and none is \<open>..\<close> (which names no
  entry of the disk).\<close>

definition os_path :: "string \<Rightarrow> path" where
  "os_path p = filter (\<lambda>c. c \<notin> {'''', ''.''}) (split_on slash p)"

definition is_absolute :: "string \<Rightarrow> bool" where
  "is_absolute p \<longleftrightarrow> (case p of c # _ \<Rightarrow> c = slash | [] \<Rightarrow> False)"

definition canonicalizes_to_itself :: "path \<Rightarrow> (world, fs_error, bool) action" where
  "canonicalizes_to_itself p = io (\<lambda>d.
     (if entry_at d p = None then Inl NotFound
      else Inr (list_all (\<lambda>n. entry_at d (take n p) = Some FsDir) [0..<length p]), d)) whole"

definition repository_registration_validate :: "repository_registration \<Rightarrow> (world, configuration_store_error, unit) action" where
  "repository_registration_validate self =
     (let label_valid = rr_label self \<noteq> [] \<and> length (rr_label self) \<le> 128 \<and> \<not> has_control (rr_label self) in
      if \<not> label_valid \<or> \<not> is_absolute (rr_path self) then do_fail ConfigurationInvalid
      else
        do_then (do_map_err (\<lambda>_. ConfigurationInvalid) (stat (os_path (rr_path self)))) (\<lambda>metadata.
          if metadata \<noteq> FsDir then do_fail ConfigurationInvalid
          else
            do_then (do_map_err (\<lambda>_. ConfigurationUnavailable) (canonicalizes_to_itself (os_path (rr_path self)))) (\<lambda>same.
            do_lift (ok_if same () ConfigurationInvalid))))"

definition repository_registration_new ::
  "string \<Rightarrow> string \<Rightarrow> string \<Rightarrow> (world, configuration_store_error, repository_registration) action" where
  "repository_registration_new repository_id label path =
     (let registration = \<lparr>rr_repository_id = repository_id, rr_label = label, rr_path = path\<rparr> in
      do_then (repository_registration_validate registration) (\<lambda>_. do_return registration))"

definition repository_document_empty :: "'x \<Rightarrow> (repository_registration, 'x) document" where
  "repository_document_empty no_extensions =
     \<lparr>doc_format_version = REPOSITORIES_FORMAT_VERSION, doc_entries = fmempty, doc_extensions = no_extensions\<rparr>"

definition repositories_path :: "'x registry_env \<Rightarrow> path" where
  "repositories_path self = rg_directory self @ [''repositories.json'']"

definition check_registration :: "string \<times> repository_registration \<Rightarrow> (world, configuration_store_error, unit) action" where
  "check_registration entry =
     (case entry of (i, registration) \<Rightarrow>
        if \<not> is_ok (repository_id_parse i) \<or> rr_repository_id registration \<noteq> i then do_fail ConfigurationInvalid
        else do_map_err (\<lambda>_. ConfigurationInvalid) (repository_registration_validate registration))"

definition document_items :: "(string, 'v) fmap \<Rightarrow> (string \<times> 'v) list" where
  "document_items m = map (\<lambda>k. (k, the (fmlookup m k))) (sorted_list_of_fset (fmdom m))"

definition registry_read :: "'x registry_env \<Rightarrow> (world, configuration_store_error, (repository_registration, 'x) document) action" where
  "registry_read self =
     do_then (read_json (rg_codec self) (repositories_path self)) (\<lambda>found.
       let document = case found of Some document \<Rightarrow> document | None \<Rightarrow> repository_document_empty (rg_no_extensions self) in
       if doc_format_version document \<noteq> REPOSITORIES_FORMAT_VERSION then do_fail ConfigurationInvalid
       else
         do_then (do_each check_registration (document_items (doc_entries document))) (\<lambda>_.
         do_return document))"

definition registry_list :: "'x registry_env \<Rightarrow> (world, configuration_store_error, repository_registration list) action" where
  "registry_list self =
     do_then (config_lock (repositories_path self)) (\<lambda>_.
     do_then (registry_read self) (\<lambda>document. do_return (document_values (doc_entries document))))"

definition registry_get :: "'x registry_env \<Rightarrow> string \<Rightarrow> (world, configuration_store_error, repository_registration option) action" where
  "registry_get self i =
     do_then (registry_list self) (\<lambda>entries. do_return (find (\<lambda>entry. rr_repository_id entry = i) entries))"

definition registry_upsert :: "'x registry_env \<Rightarrow> repository_registration \<Rightarrow> (world, configuration_store_error, unit) action" where
  "registry_upsert self registration =
     do_then (repository_registration_validate registration) (\<lambda>_.
     do_then (config_lock (repositories_path self)) (\<lambda>_.
     do_then (registry_read self) (\<lambda>document.
     write_json (rg_codec self) (repositories_path self)
       (document\<lparr>doc_entries := fmupd (rr_repository_id registration) registration (doc_entries document)\<rparr>))))"

definition registry_remove :: "'x registry_env \<Rightarrow> string \<Rightarrow> (world, configuration_store_error, repository_registration option) action" where
  "registry_remove self i =
     do_then (config_lock (repositories_path self)) (\<lambda>_.
     do_then (registry_read self) (\<lambda>document.
       let removed = fmlookup (doc_entries document) i in
       if removed \<noteq> None
       then do_then (write_json (rg_codec self) (repositories_path self)
           (document\<lparr>doc_entries := fmdrop i (doc_entries document)\<rparr>)) (\<lambda>_. do_return removed)
       else do_return removed))"

definition registry_update_path ::
  "'x registry_env \<Rightarrow> string \<Rightarrow> string \<Rightarrow> (world, configuration_store_error, repository_registration option) action" where
  "registry_update_path self i path =
     do_then (config_lock (repositories_path self)) (\<lambda>_.
     do_then (registry_read self) (\<lambda>document.
       case fmlookup (doc_entries document) i of
         None \<Rightarrow> do_return None
       | Some current \<Rightarrow>
           do_then (repository_registration_new i (rr_label current) path) (\<lambda>updated.
           do_then (write_json (rg_codec self) (repositories_path self)
             (document\<lparr>doc_entries := fmupd i updated (doc_entries document)\<rparr>)) (\<lambda>_.
           do_return (Some updated)))))"

section \<open>The replacement discipline\<close>

text \<open>Either store keeps its document in a file of its directory; the scratch file has the name that
  \<open>with_extension\<close> gives it.\<close>

locale configuration_file = swapped_file directory name temp scratch
  for directory :: path and name temp :: string and scratch :: "string set" +
  assumes temp_name: "file_stem name @ ''.json.tmp'' = temp" and lock_scratch: "''configuration.lock'' \<in> scratch"
begin

lemma temporary_eq: "with_extension target ''json.tmp'' = temporary" "butlast target = directory" "target \<noteq> []"
  using temp_name by (simp_all add: with_extension_def target_def temporary_def)

lemma config_lock_kept: "triple (holds (kept d)) (config_lock target) (\<lambda>_. holds (kept d)) (\<lambda>_. holds (kept d))"
  unfolding config_lock_def temporary_eq Let_def
  by (simp add: temporary_eq)
    (intro triple_then [OF triple_relabel [OF create_dir_all_kept]]
      triple_then [OF triple_relabel [OF open_or_create_kept [OF lock_scratch]]] triple_relabel lock_exclusive_triple)

text \<open>The document a read returns is the one the disk holds.\<close>

lemma read_json_kept:
  "triple (holds (kept d)) (read_json codec target)
    (\<lambda>found. holds (\<lambda>d'. kept d d' \<and>
       (case found of
          None \<Rightarrow> entry_at d' target = None
        | Some doc \<Rightarrow> \<exists>bs. entry_at d' target = Some (FsFile bs) \<and> from_json codec bs = Some doc)))
    (\<lambda>_. holds (kept d))"
proof -
  let ?Q = "\<lambda>found. holds (\<lambda>d'. kept d d' \<and>
       (case found of
          None \<Rightarrow> entry_at d' target = None
        | Some doc \<Rightarrow> \<exists>bs. entry_at d' target = Some (FsFile bs) \<and> from_json codec bs = Some doc))"
  let ?parse = "\<lambda>bytes. do_map_err (\<lambda>_. ConfigurationInvalid) (do_lift (map_sum id Some (ok_or (from_json codec bytes) ())))"
  have s: "triple (holds (kept d)) (stat target) (\<lambda>_. holds (kept d)) (\<lambda>e. holds (\<lambda>d'. kept d d' \<and> (e = NotFound \<longrightarrow> entry_at d' target = None)))"
    unfolding stat_def by (rule io_rule) (auto simp: ok_or_def split: option.splits)
  have f: "triple (holds (kept d)) (do_then (do_map_err (\<lambda>_. ConfigurationUnavailable) (read_file target)) ?parse) ?Q (\<lambda>_. holds (kept d))"
    by (rule triple_then [OF triple_relabel [OF read_file_triple [of "kept d"]]])
      (auto simp: triple_def do_map_err_def ok_or_def split: option.splits)
  show ?thesis
    unfolding read_json_def
  proof (rule triple_match [OF s])
    fix e
    show "triple (holds (kept d)) (case Inr e of
         Inl NotFound \<Rightarrow> do_return None
       | Inr (FsFile _) \<Rightarrow> do_then (do_map_err (\<lambda>_. ConfigurationUnavailable) (read_file target)) ?parse
       | _ \<Rightarrow> do_fail ConfigurationInvalid) ?Q (\<lambda>_. holds (kept d))"
      using f by (cases e) (simp_all add: triple_done)
  qed (auto simp: triple_def split: fs_error.splits)
qed

lemma write_json_swaps:
  "triple (holds (kept d)) (write_json codec target doc)
    (\<lambda>_. holds (\<lambda>d'. \<exists>bs. to_json codec doc = Some bs \<and> swapped bs d d'))
    (\<lambda>_. holds (\<lambda>d'. kept d d' \<or> (\<exists>bs. to_json codec doc = Some bs \<and> swapped bs d d')))"
proof -
  let ?J = "\<lambda>d'. \<exists>bs. to_json codec doc = Some bs \<and> swapped bs d d'"
  let ?E = "\<lambda>_ :: configuration_store_error. holds (\<lambda>d'. kept d d' \<or> ?J d')"
  have weak: "triple (holds P) m (\<lambda>x. holds (Q x)) ?E" if "triple (holds P) m (\<lambda>x. holds (Q x)) (\<lambda>_. holds (kept d))"
    for P Q and m :: "(world, configuration_store_error, 'r) action"
    using that by (rule triple_weaken) auto
  have rr: "triple (holds (kept d)) (config_remove_regular temporary) (\<lambda>_. holds (kept d)) (\<lambda>_. holds (kept d))"
    unfolding config_remove_regular_def
    by (rule triple_match [OF read_only_kept])
      (auto split: entry.splits fs_error.splits intro: triple_done triple_relabel remove_temporary_kept)
  have ser: "triple (holds (kept d)) (do_then (do_lift (ok_or (to_json codec doc) ConfigurationInvalid)) (\<lambda>bytes.
            do_then (do_map_err (\<lambda>_. ConfigurationUnavailable) (create_new temporary)) (\<lambda>_.
            do_then (do_map_err (\<lambda>_. ConfigurationUnavailable) (do_then (write_file temporary bytes) (\<lambda>_. sync))) (\<lambda>_.
            do_then (do_map_err (\<lambda>_. ConfigurationUnavailable) (rename temporary target)) (\<lambda>_.
            do_return ()))))) (\<lambda>_. holds ?J) ?E"
    by (rule triple_lift, rule replace_triple) (auto simp: ok_or_def triple_def split: option.splits)
  have "triple (holds (kept d)) (do_then (do_map_err (\<lambda>_. ConfigurationUnavailable) (create_dir_all directory)) (\<lambda>_.
        do_then (do_map_err (\<lambda>_. ConfigurationUnavailable) (stat directory)) (\<lambda>parent_metadata.
          if parent_metadata \<noteq> FsDir then do_fail ConfigurationInvalid
          else
            do_then (config_remove_regular temporary) (\<lambda>_.
            do_then (do_lift (ok_or (to_json codec doc) ConfigurationInvalid)) (\<lambda>bytes.
            do_then (do_map_err (\<lambda>_. ConfigurationUnavailable) (create_new temporary)) (\<lambda>_.
            do_then (do_map_err (\<lambda>_. ConfigurationUnavailable) (do_then (write_file temporary bytes) (\<lambda>_. sync))) (\<lambda>_.
            do_then (do_map_err (\<lambda>_. ConfigurationUnavailable) (rename temporary target)) (\<lambda>_.
            do_return ())))))))) (\<lambda>_. holds ?J) ?E"
    by (intro triple_then [OF weak [OF triple_relabel [OF create_dir_all_kept]]]
        triple_then [OF weak [OF triple_relabel [OF read_only_kept]]] triple_if ser
        triple_then [OF weak [OF rr]] weak [OF triple_done(2)])
  then show ?thesis by (simp add: write_json_def Let_def temporary_eq)
qed

end

section \<open>The plan store\<close>

definition plan_document_valid :: "'x plan_env \<Rightarrow> (stored_capture_plan, 'x) document \<Rightarrow> bool" where
  "plan_document_valid self document \<longleftrightarrow>
     doc_format_version document = PLANS_FORMAT_VERSION \<and> fmpred (plan_entry_valid self) (doc_entries document)"

interpretation plan_file: configuration_file directory "''plans.json''" "''plans.json.tmp''" "{''plans.json.tmp'', ''configuration.lock''}"
  for directory
  by unfold_locales (auto simp: file_stem_def)

lemma plan_target: "plan_file.target (pl_directory self) = plans_path self"
  by (simp add: plan_file.target_def plans_path_def)

lemma plan_read_triple:
  "triple (holds (plan_file.kept (pl_directory self) d)) (plan_read self)
    (\<lambda>doc. holds (\<lambda>d'. plan_file.kept (pl_directory self) d d' \<and>
       document_at (pl_codec self) (plan_document_valid self) (plan_document_empty (pl_no_extensions self)) (plan_file.target (pl_directory self)) d' = Some doc))
    (\<lambda>_. holds (plan_file.kept (pl_directory self) d))"
  unfolding plan_read_def Let_def plan_target [symmetric]
  by (rule triple_then [OF plan_file.read_json_kept])
    (auto simp: triple_def document_at_def plan_document_valid_def split: option.splits)

interpretation plan_docs: document_store "pl_directory self" "''plans.json''" "''plans.json.tmp''" "{''plans.json.tmp'', ''configuration.lock''}"
    "pl_codec self" "plan_document_valid self" "plan_document_empty (pl_no_extensions self)"
    "config_lock (plans_path self)" "plan_read self" "write_json (pl_codec self) (plans_path self)"
  for self
  by unfold_locales
    (simp_all only: plan_read_triple plan_file.config_lock_kept plan_file.write_json_swaps flip: plan_target,
      simp add: plan_document_valid_def plan_document_empty_def)

definition plan_readable :: "'x plan_env \<Rightarrow> world \<Rightarrow> bool" where
  "plan_readable self w \<longleftrightarrow> codec_ok (pl_codec self) \<and>
     document_at (pl_codec self) (plan_document_valid self) (plan_document_empty (pl_no_extensions self)) (plans_path self) (disk w) \<noteq> None"

definition plan_view :: "'x plan_env \<Rightarrow> world \<Rightarrow> string \<Rightarrow> stored_capture_plan option" where
  "plan_view self w = fmlookup (doc_entries (the
     (document_at (pl_codec self) (plan_document_valid self) (plan_document_empty (pl_no_extensions self)) (plans_path self) (disk w))))"

definition plan_typed :: "string \<Rightarrow> stored_capture_plan \<Rightarrow> bool" where
  "plan_typed i plan \<longleftrightarrow> is_ok (plan_id_parse i) \<and> fc_plan_id (sc_plan plan) = i"

lemma plan_docs_simps:
  fixes self :: "'x plan_env"
  shows "plan_docs.readable TYPE('x) self w \<longleftrightarrow> plan_readable self w" "plan_docs.view TYPE('x) self w = plan_view self w"
  by (simp_all add: plan_docs.readable_def plan_readable_def plan_docs.view_def plan_view_def plan_target)

lemma plan_document_valid_simps:
  "plan_document_valid self doc \<Longrightarrow> plan_entry_valid self i plan \<Longrightarrow>
     plan_document_valid self (doc\<lparr>doc_entries := fmupd i plan (doc_entries doc)\<rparr>)"
  "plan_document_valid self doc \<Longrightarrow> fmpred (\<lambda>k v. fc_plan_id (sc_plan v) = k) (doc_entries doc)"
  by (auto simp: plan_document_valid_def plan_entry_valid_def fmpred_iff intro!: fmpred_upd)

lemma plan_upsert_transforms:
  assumes typed: "plan_typed i plan"
  shows "plan_docs.transforms self (plan_upsert self plan) (\<lambda>_ _. True) (\<lambda>doc. doc\<lparr>doc_entries := fmupd i plan (doc_entries doc)\<rparr>)"
  unfolding plan_upsert_def
proof (rule plan_docs.transforms_lift)
  fix u assume "stored_capture_plan_validate self plan = Inr u"
  then have "plan_entry_valid self i plan" "fc_plan_id (sc_plan plan) = i"
    using typed by (auto simp: plan_entry_valid_def plan_typed_def is_ok_def)
  then show "plan_docs.transforms self (do_then (config_lock (plans_path self)) (\<lambda>_. do_then (plan_read self) (\<lambda>document.
     write_json (pl_codec self) (plans_path self) (document\<lparr>doc_entries := fmupd (fc_plan_id (sc_plan plan)) plan (doc_entries document)\<rparr>))))
     (\<lambda>_ _. True) (\<lambda>doc. doc\<lparr>doc_entries := fmupd i plan (doc_entries doc)\<rparr>)"
    using plan_docs.transforms_write [where self = self and g = "\<lambda>doc. doc\<lparr>doc_entries := fmupd i plan (doc_entries doc)\<rparr>"]
    by (simp add: plan_document_valid_simps)
qed

lemma plan_list_transforms:
  "plan_docs.transforms self (plan_list self) (\<lambda>x doc. x = document_values (doc_entries doc)) (\<lambda>doc. doc)"
  unfolding plan_list_def by (rule plan_docs.transforms_list)

lemma plan_find_transforms:
  "plan_docs.transforms self (do_then (plan_list self) (\<lambda>plans. do_return (find (\<lambda>p. fc_plan_id (sc_plan p) = i) plans)))
     (\<lambda>x doc. x = find (\<lambda>p. fc_plan_id (sc_plan p) = i) (document_values (doc_entries doc))) (\<lambda>doc. doc)"
  by (rule plan_docs.transforms_return [OF plan_list_transforms]) simp

lemmas plan_put = plan_docs.transforms_put [unfolded plan_docs_simps]
lemmas plan_query = plan_docs.transforms_query [unfolded plan_docs_simps]

interpretation plans: keyed_store "plan_readable self" "plan_view self" plan_typed "\<lambda>_. plan_upsert self"
    "\<lambda>i. do_then (plan_list self) (\<lambda>plans. do_return (find (\<lambda>p. fc_plan_id (sc_plan p) = i) plans))"
  for self :: "'x plan_env"
proof unfold_locales
  fix s t :: world and k v and r :: "configuration_store_error + unit"
  assume "plan_readable self s" "plan_typed k v" "plan_upsert self v s = (r, t)"
  then show "plan_readable self t \<and> (plan_view self t = plan_view self s \<or> plan_view self t = (plan_view self s)(k \<mapsto> v))"
    using plan_put(1,2) [OF plan_upsert_transforms] by blast
next
  fix s t :: world and k v and u :: unit
  assume "plan_readable self s" "plan_typed k v" "plan_upsert self v s = (Inr u, t)"
  then show "plan_view self t = (plan_view self s)(k \<mapsto> v)"
    using plan_put(3) [OF plan_upsert_transforms] by blast
next
  fix s t :: world and k and r :: "configuration_store_error + stored_capture_plan option"
  assume "plan_readable self s" "do_then (plan_list self) (\<lambda>plans. do_return (find (\<lambda>p. fc_plan_id (sc_plan p) = k) plans)) s = (r, t)"
  then show "plan_readable self t \<and> plan_view self t = plan_view self s"
    using plan_query(1,2) [OF plan_find_transforms] by blast
next
  fix s t :: world and k and x :: "stored_capture_plan option"
  assume "plan_readable self s" "do_then (plan_list self) (\<lambda>plans. do_return (find (\<lambda>p. fc_plan_id (sc_plan p) = k) plans)) s = (Inr x, t)"
  then obtain doc :: "(stored_capture_plan, 'x) document" where "plan_document_valid self doc" "plan_view self s = fmlookup (doc_entries doc)"
    "x = find (\<lambda>p. fc_plan_id (sc_plan p) = k) (document_values (doc_entries doc))"
    using plan_query(3) [OF plan_find_transforms _ _ refl] by blast
  then show "x = plan_view self s k"
    by (simp add: find_document_values plan_document_valid_simps)
qed

section \<open>The registry of repositories\<close>

definition registry_document_valid :: "(repository_registration, 'x) document \<Rightarrow> bool" where
  "registry_document_valid document \<longleftrightarrow>
     doc_format_version document = REPOSITORIES_FORMAT_VERSION \<and>
     fmpred (\<lambda>i r. is_ok (repository_id_parse i) \<and> rr_repository_id r = i) (doc_entries document)"

definition registry_document_at :: "'x registry_env \<Rightarrow> disk \<Rightarrow> (repository_registration, 'x) document option" where
  "registry_document_at self =
     document_at (rg_codec self) registry_document_valid (repository_document_empty (rg_no_extensions self)) (repositories_path self)"

definition registry_readable :: "'x registry_env \<Rightarrow> world \<Rightarrow> bool" where
  "registry_readable self w \<longleftrightarrow> codec_ok (rg_codec self) \<and> registry_document_at self (disk w) \<noteq> None"

definition registry_view :: "'x registry_env \<Rightarrow> world \<Rightarrow> string \<Rightarrow> repository_registration option" where
  "registry_view self w = fmlookup (doc_entries (the (registry_document_at self (disk w))))"

definition registry_typed :: "string \<Rightarrow> repository_registration \<Rightarrow> bool" where
  "registry_typed i r \<longleftrightarrow> is_ok (repository_id_parse i) \<and> rr_repository_id r = i"

interpretation registry_file: configuration_file directory "''repositories.json''" "''repositories.json.tmp''"
    "{''repositories.json.tmp'', ''configuration.lock''}"
  for directory
  by unfold_locales (auto simp: file_stem_def)

abbreviation registry_kept :: "'x registry_env \<Rightarrow> disk \<Rightarrow> disk \<Rightarrow> bool" where
  "registry_kept self \<equiv> registry_file.kept (rg_directory self)"

lemma registry_target: "registry_file.target (rg_directory self) = repositories_path self"
  by (simp add: registry_file.target_def repositories_path_def)

text \<open>Checking a registration only reads the disk.\<close>

lemma canonicalizes_triple: "triple (holds \<Phi>) (canonicalizes_to_itself p) (\<lambda>_. holds \<Phi>) (\<lambda>_. holds \<Phi>)"
  unfolding canonicalizes_to_itself_def by (rule io_read_only) simp

lemma registration_validate_triple:
  "triple (holds \<Phi>) (repository_registration_validate r) (\<lambda>_. holds \<Phi>) (\<lambda>_. holds \<Phi>)"
proof -
  have s: "triple (holds \<Phi>) (stat p) (\<lambda>_. holds \<Phi>) (\<lambda>_. holds \<Phi>)" for p
    by (rule triple_weaken [OF stat_triple [of \<Phi>]]) auto
  have l: "triple (holds \<Phi>) (do_lift x) (\<lambda>_. holds \<Phi>) (\<lambda>_. holds \<Phi>)" for x :: "configuration_store_error + unit"
    by (cases x) (auto simp: triple_def)
  show ?thesis
    unfolding repository_registration_validate_def Let_def
    by (intro triple_if triple_done triple_then [OF triple_relabel [OF s]] triple_then [OF triple_relabel [OF canonicalizes_triple]] l)
qed

lemma check_registration_triple: "triple (holds \<Phi>) (check_registration e) (\<lambda>_. holds \<Phi>) (\<lambda>_. holds \<Phi>)"
  unfolding check_registration_def
  by (cases e) (simp add: triple_done triple_relabel [OF registration_validate_triple])

lemma check_registrations_triple: "triple (holds \<Phi>) (do_each check_registration es) (\<lambda>_. holds \<Phi>) (\<lambda>_. holds \<Phi>)"
  by (rule triple_each) (rule check_registration_triple)

lemma check_registrations_ok:
  "do_each check_registration es s = (Inr (), t) \<Longrightarrow> (i, r) \<in> set es \<Longrightarrow> is_ok (repository_id_parse i) \<and> rr_repository_id r = i"
proof (induction es arbitrary: s)
  case (Cons e es)
  then show ?case
    by (auto simp: do_then_def check_registration_def split: prod.splits sum.splits if_splits)
qed simp

lemma set_document_items: "(i, v) \<in> set (document_items m) \<longleftrightarrow> fmlookup m i = Some v"
  by (auto simp: document_items_def image_iff fmlookup_dom_iff)

lemma registry_read_triple:
  "triple (holds (registry_kept self d)) (registry_read self)
    (\<lambda>doc. holds (\<lambda>d'. registry_kept self d d' \<and> registry_document_at self d' = Some doc)) (\<lambda>_. holds (registry_kept self d))"
proof -
  let ?F = "\<lambda>found d'. registry_kept self d d' \<and>
       (case found of
          None \<Rightarrow> entry_at d' (repositories_path self) = None
        | Some doc \<Rightarrow> \<exists>bs. entry_at d' (repositories_path self) = Some (FsFile bs) \<and> from_json (rg_codec self) bs = Some doc)"
  let ?doc = "\<lambda>found. case found of Some document \<Rightarrow> document | None \<Rightarrow> repository_document_empty (rg_no_extensions self)"
  have c: "triple (holds (?F found)) (do_each check_registration (document_items (doc_entries doc)))
      (\<lambda>_. holds (\<lambda>d'. ?F found d' \<and> fmpred (\<lambda>i r. is_ok (repository_id_parse i) \<and> rr_repository_id r = i) (doc_entries doc)))
      (\<lambda>_. holds (registry_kept self d))" for found doc
  proof (rule tripleI)
    fix s x t assume a: "holds (?F found) s" "do_each check_registration (document_items (doc_entries doc)) s = (Inr x, t)"
    have "holds (?F found) t" by (rule triple_ok [OF check_registrations_triple [of "?F found"] a])
    moreover have "is_ok (repository_id_parse i) \<and> rr_repository_id r = i" if "fmlookup (doc_entries doc) i = Some r" for i r
      using check_registrations_ok [OF a(2) [unfolded unit_eq [of x]], of i r] that by (simp add: set_document_items)
    ultimately show "holds (\<lambda>d'. ?F found d' \<and> fmpred (\<lambda>i r. is_ok (repository_id_parse i) \<and> rr_repository_id r = i) (doc_entries doc)) t"
      by (simp add: fmpred_iff)
  next
    fix s e t assume "holds (?F found) s" "do_each check_registration (document_items (doc_entries doc)) s = (Inl e, t)"
    from triple_err [OF check_registrations_triple [of "?F found"] this] show "holds (registry_kept self d) t" by simp
  qed
  show ?thesis
    unfolding registry_read_def Let_def
  proof (rule triple_then)
    fix found
    show "triple (holds (?F found)) (if doc_format_version (?doc found) \<noteq> REPOSITORIES_FORMAT_VERSION then do_fail ConfigurationInvalid
       else do_then (do_each check_registration (document_items (doc_entries (?doc found)))) (\<lambda>_. do_return (?doc found)))
      (\<lambda>doc. holds (\<lambda>d'. registry_kept self d d' \<and> registry_document_at self d' = Some doc)) (\<lambda>_. holds (registry_kept self d))"
    proof (cases "doc_format_version (?doc found) = REPOSITORIES_FORMAT_VERSION")
      case True
      show ?thesis
        using True by simp (rule triple_then [OF c], auto simp: triple_def registry_document_at_def document_at_def registry_document_valid_def split: option.splits)
    qed (simp add: triple_def)
  qed (rule registry_file.read_json_kept [of "rg_directory self", unfolded registry_target])
qed

interpretation registry_docs: document_store "rg_directory self" "''repositories.json''" "''repositories.json.tmp''"
    "{''repositories.json.tmp'', ''configuration.lock''}" "rg_codec self" registry_document_valid "repository_document_empty (rg_no_extensions self)"
    "config_lock (repositories_path self)" "registry_read self" "write_json (rg_codec self) (repositories_path self)"
  for self
  by unfold_locales
    (simp_all only: registry_read_triple [unfolded registry_document_at_def] registry_target registry_file.config_lock_kept [of "rg_directory self", unfolded registry_target]
      registry_file.write_json_swaps [of "rg_directory self", unfolded registry_target],
      simp add: registry_document_valid_def repository_document_empty_def)

lemma registry_docs_simps:
  fixes self :: "'x registry_env"
  shows "registry_docs.readable TYPE('x) self w \<longleftrightarrow> registry_readable self w" "registry_docs.view TYPE('x) self w = registry_view self w"
  by (simp_all add: registry_docs.readable_def registry_readable_def registry_docs.view_def registry_view_def registry_document_at_def registry_target)

lemma registry_document_valid_simps:
  "registry_document_valid doc \<Longrightarrow> registry_document_valid (doc\<lparr>doc_entries := fmdrop i (doc_entries doc)\<rparr>)"
  "registry_document_valid doc \<Longrightarrow> registry_typed i r \<Longrightarrow> registry_document_valid (doc\<lparr>doc_entries := fmupd i r (doc_entries doc)\<rparr>)"
  "registry_document_valid doc \<Longrightarrow> fmpred (\<lambda>k v. rr_repository_id v = k) (doc_entries doc)"
  by (auto simp: registry_document_valid_def registry_typed_def fmpred_iff intro!: fmpred_drop fmpred_upd)

lemma registry_upsert_transforms:
  assumes "registry_typed i r"
  shows "registry_docs.transforms self (registry_upsert self r) (\<lambda>_ _. True) (\<lambda>doc. doc\<lparr>doc_entries := fmupd i r (doc_entries doc)\<rparr>)"
proof -
  have i: "rr_repository_id r = i" using assms by (simp add: registry_typed_def)
  show ?thesis
    unfolding registry_upsert_def i
    by (rule registry_docs.transforms_after [OF registration_validate_triple [where \<Phi> = "\<lambda>d'. d' = _"]], rule registry_docs.transforms_write)
      (rule registry_document_valid_simps(2) [OF _ assms])
qed

lemma registry_remove_transforms:
  "registry_docs.transforms self (registry_remove self i) (\<lambda>x doc. x = fmlookup (doc_entries doc) i) (\<lambda>doc. doc\<lparr>doc_entries := fmdrop i (doc_entries doc)\<rparr>)"
  unfolding registry_remove_def by (rule registry_docs.transforms_remove) (rule registry_document_valid_simps)

lemma registry_get_transforms:
  "registry_docs.transforms self (registry_get self i)
     (\<lambda>x doc. x = find (\<lambda>v. rr_repository_id v = i) (document_values (doc_entries doc))) (\<lambda>doc. doc)"
  unfolding registry_get_def registry_list_def
  by (rule registry_docs.transforms_return [OF registry_docs.transforms_list]) simp

text \<open>Moving a registration keeps its id and its label.\<close>

definition moved :: "string \<Rightarrow> string \<Rightarrow> (repository_registration, 'x) document \<Rightarrow> (repository_registration, 'x) document" where
  "moved i path doc =
     (case fmlookup (doc_entries doc) i of
        None \<Rightarrow> doc
      | Some current \<Rightarrow> doc\<lparr>doc_entries := fmupd i (current\<lparr>rr_path := path\<rparr>) (doc_entries doc)\<rparr>)"

lemma registry_update_path_transforms:
  "registry_docs.transforms self (registry_update_path self i path)
     (\<lambda>x doc. x = map_option (rr_path_update (\<lambda>_. path)) (fmlookup (doc_entries doc) i)) (moved i path)"
  unfolding registry_update_path_def
proof (rule registry_docs.transformsI)
  fix d doc assume a: "codec_ok (rg_codec self)" "registry_docs.doc_at self d = Some doc" "registry_document_valid doc"
  show "triple (holds (registry_kept self d))
     (case fmlookup (doc_entries doc) i of None \<Rightarrow> do_return None
      | Some current \<Rightarrow>
          do_then (repository_registration_new i (rr_label current) path) (\<lambda>updated.
          do_then (write_json (rg_codec self) (repositories_path self) (doc\<lparr>doc_entries := fmupd i updated (doc_entries doc)\<rparr>)) (\<lambda>_.
          do_return (Some updated))))
     (\<lambda>x. holds (\<lambda>d'. x = map_option (rr_path_update (\<lambda>_. path)) (fmlookup (doc_entries doc) i) \<and> registry_docs.doc_at self d' = Some (moved i path doc)))
     (\<lambda>_. holds (\<lambda>d'. registry_docs.doc_at self d' \<in> {Some doc, Some (moved i path doc)}))"
  proof (cases "fmlookup (doc_entries doc) i")
    case None
    then show ?thesis using a(2) by (auto simp: triple_def moved_def dest: registry_docs.doc_kept)
  next
    case (Some current)
    let ?new = "current\<lparr>rr_path := path\<rparr>"
    have i: "rr_repository_id current = i" "is_ok (repository_id_parse i)"
      using a(3) Some by (auto simp: registry_document_valid_def fmpred_iff)
    then have cur: "registry_typed i ?new" "\<lparr>rr_repository_id = i, rr_label = rr_label current, rr_path = path\<rparr> = ?new"
      by (simp_all add: registry_typed_def)
    have m: "moved i path doc = doc\<lparr>doc_entries := fmupd i ?new (doc_entries doc)\<rparr>" using Some by (simp add: moved_def)
    let ?E = "\<lambda>_ :: configuration_store_error. holds (\<lambda>d'. registry_docs.doc_at self d' \<in> {Some doc, Some (moved i path doc)})"
    have v: "triple (holds (registry_kept self d)) (repository_registration_validate r) (\<lambda>_. holds (registry_kept self d)) ?E" for r
      by (rule triple_weaken [OF registration_validate_triple [of "registry_kept self d"]]) (simp_all add: a(2) registry_docs.doc_kept)
    have n: "triple (holds (registry_kept self d)) (repository_registration_new i (rr_label current) path)
        (\<lambda>x. holds (\<lambda>d'. registry_kept self d d' \<and> x = ?new)) ?E"
      unfolding repository_registration_new_def Let_def cur
      by (rule triple_then [OF v]) (simp add: triple_def)
    have w: "triple (holds (\<lambda>d'. registry_kept self d d' \<and> x = ?new))
        (do_then (write_json (rg_codec self) (repositories_path self) (doc\<lparr>doc_entries := fmupd i x (doc_entries doc)\<rparr>)) (\<lambda>_. do_return (Some x)))
        (\<lambda>x. holds (\<lambda>d'. x = Some ?new \<and> registry_docs.doc_at self d' = Some (moved i path doc))) ?E" for x
    proof (cases "x = ?new")
      case True
      have "triple (holds (registry_kept self d))
          (do_then (write_json (rg_codec self) (repositories_path self) (moved i path doc)) (\<lambda>_. do_return (Some ?new)))
          (\<lambda>x. holds (\<lambda>d'. x = Some ?new \<and> registry_docs.doc_at self d' = Some (moved i path doc))) ?E"
        by (rule triple_then [OF registry_docs.rewrite_triple [OF a(1,2) registry_document_valid_simps(2) [OF a(3) cur(1), folded m]]]) (simp add: triple_def)
      then show ?thesis using True by (simp add: m)
    qed (simp add: triple_def)
    show ?thesis using triple_then [OF n w] by (simp add: Some)
  qed
qed

lemmas registry_put = registry_docs.transforms_put [unfolded registry_docs_simps]
lemmas registry_delete = registry_docs.transforms_delete [unfolded registry_docs_simps]
lemmas registry_query = registry_docs.transforms_query [unfolded registry_docs_simps]
lemmas registry_run = registry_docs.transforms_run [unfolded registry_docs_simps]

interpretation registry: deletable_store "registry_readable self" "registry_view self" registry_typed
    "\<lambda>_. registry_upsert self" "registry_get self" "registry_remove self"
  for self :: "'x registry_env"
proof unfold_locales
  fix s t :: world and k v and r :: "configuration_store_error + unit"
  assume "registry_readable self s" "registry_typed k v" "registry_upsert self v s = (r, t)"
  then show "registry_readable self t \<and> (registry_view self t = registry_view self s \<or> registry_view self t = (registry_view self s)(k \<mapsto> v))"
    using registry_put(1,2) [OF registry_upsert_transforms] by blast
next
  fix s t :: world and k v and u :: unit
  assume "registry_readable self s" "registry_typed k v" "registry_upsert self v s = (Inr u, t)"
  then show "registry_view self t = (registry_view self s)(k \<mapsto> v)"
    using registry_put(3) [OF registry_upsert_transforms] by blast
next
  fix s t :: world and k and r :: "configuration_store_error + repository_registration option"
  assume "registry_readable self s" "registry_get self k s = (r, t)"
  then show "registry_readable self t \<and> registry_view self t = registry_view self s"
    using registry_query(1,2) [OF registry_get_transforms] by blast
next
  fix s t :: world and k and x :: "repository_registration option"
  assume "registry_readable self s" "registry_get self k s = (Inr x, t)"
  then obtain doc :: "(repository_registration, 'x) document" where "registry_document_valid doc" "registry_view self s = fmlookup (doc_entries doc)"
    "x = find (\<lambda>v. rr_repository_id v = k) (document_values (doc_entries doc))"
    using registry_query(3) [OF registry_get_transforms _ _ refl] by blast
  then show "x = registry_view self s k"
    by (simp add: find_document_values registry_document_valid_simps)
next
  fix s t :: world and k and r :: "configuration_store_error + repository_registration option"
  assume "registry_readable self s" "registry_remove self k s = (r, t)"
  then show "registry_readable self t \<and> (registry_view self t = registry_view self s \<or> registry_view self t = (registry_view self s)(k := None))"
    using registry_delete(1,2) [OF registry_remove_transforms] by blast
next
  fix s t :: world and k and b :: "repository_registration option"
  assume "registry_readable self s" "registry_remove self k s = (Inr b, t)"
  then show "registry_view self t = (registry_view self s)(k := None)"
    using registry_delete(3) [OF registry_remove_transforms] by blast
qed

section \<open>Abstract specification of the registry\<close>

text \<open>A registry is a map from ids to registrations; what each operation does to it.\<close>

datatype registry_op = RegistryUpsert repository_registration | RegistryRemove string | RegistryMove string string

primrec op_typed :: "registry_op \<Rightarrow> bool" where
  "op_typed (RegistryUpsert r) = is_ok (repository_id_parse (rr_repository_id r))"
| "op_typed (RegistryRemove i) = True"
| "op_typed (RegistryMove i path) = True"

primrec op_effect :: "registry_op \<Rightarrow> (string \<Rightarrow> repository_registration option) \<Rightarrow> string \<Rightarrow> repository_registration option" where
  "op_effect (RegistryUpsert r) m = m(rr_repository_id r \<mapsto> r)"
| "op_effect (RegistryRemove i) m = m(i := None)"
| "op_effect (RegistryMove i path) m = m(i := map_option (rr_path_update (\<lambda>_. path)) (m i))"

primrec op_run :: "'x registry_env \<Rightarrow> registry_op \<Rightarrow> world \<Rightarrow> bool \<times> world" where
  "op_run self (RegistryUpsert r) w = (case registry_upsert self r w of (res, w') \<Rightarrow> (is_ok res, w'))"
| "op_run self (RegistryRemove i) w = (case registry_remove self i w of (res, w') \<Rightarrow> (is_ok res, w'))"
| "op_run self (RegistryMove i path) w = (case registry_update_path self i path w of (res, w') \<Rightarrow> (is_ok res, w'))"

lemma fmlookup_moved:
  "fmlookup (doc_entries (moved i path doc)) = (fmlookup (doc_entries doc))(i := map_option (rr_path_update (\<lambda>_. path)) (fmlookup (doc_entries doc) i))"
  by (auto simp: moved_def fun_eq_iff split: option.splits)

lemma op_run_refines:
  assumes "registry_readable self w" "op_typed oper" "op_run self oper w = (acknowledged, w')"
  shows "registry_readable self w' \<and>
    (registry_view self w' = op_effect oper (registry_view self w) \<or> (\<not> acknowledged \<and> registry_view self w' = registry_view self w))"
proof (cases oper)
  case (RegistryUpsert r)
  obtain res where res: "registry_upsert self r w = (res, w')" "acknowledged = is_ok res"
    using assms(3) RegistryUpsert by (auto split: prod.splits)
  have ty: "registry_typed (rr_repository_id r) r" using assms(2) RegistryUpsert by (simp add: registry_typed_def)
  note up = registry_put [OF registry_upsert_transforms [OF ty] assms(1) res(1)]
  show ?thesis using up(1,2) up(3) res(2) RegistryUpsert by (cases res) (auto simp: is_ok_def)
next
  case (RegistryRemove i)
  obtain res where res: "registry_remove self i w = (res, w')" "acknowledged = is_ok res"
    using assms(3) RegistryRemove by (auto split: prod.splits)
  note rm = registry_delete [OF registry_remove_transforms assms(1) res(1)]
  show ?thesis using rm(1,2) rm(3) res(2) RegistryRemove by (cases res) (auto simp: is_ok_def)
next
  case (RegistryMove i path)
  obtain res where res: "registry_update_path self i path w = (res, w')" "acknowledged = is_ok res"
    using assms(3) RegistryMove by (auto split: prod.splits)
  show ?thesis
    by (rule registry_run [OF registry_update_path_transforms assms(1) res(1)])
      (cases res; auto simp: res(2) RegistryMove fmlookup_moved is_ok_def)
qed

section \<open>Properties\<close>

text \<open>C30: the repository registry implements its abstract specification: after any sequence of
  registrations, removals and moves, whatever calls of the operating system are refused or torn, the
  document on the disk is readable and stands for the map obtained by performing, in order, every
  acknowledged operation and some of the failed ones.\<close>

theorem registry_refines_map:
  assumes "registry_readable self w" "list_all op_typed ops" "run_all (op_run self) ops w = (acks, w')"
  shows "registry_readable self w' \<and> registry_view self w' \<in> outcomes op_effect (zip ops acks) (registry_view self w)"
  by (rule run_all_outcomes [where step = "op_run self" and ok = op_typed]) (fact op_run_refines assms)+

definition upsert_plans :: "'x plan_env \<Rightarrow> stored_capture_plan list \<Rightarrow> world \<Rightarrow> world" where
  "upsert_plans self ps w = fold (\<lambda>p w. snd (plan_upsert self p w)) ps w"

lemma upsert_plans_put_all:
  fixes self :: "'x plan_env"
  shows "upsert_plans self ps w = plans.put_all TYPE('x) self (map (\<lambda>p. (fc_plan_id (sc_plan p), p)) ps) w"
  by (induction ps arbitrary: w) (simp_all add: upsert_plans_def)

lemma plan_document_listing:
  assumes "plan_document_valid self doc" "q \<in> set (document_values (doc_entries doc))"
  shows "stored_capture_plan_validate self q = Inr ()"
proof -
  have "is_ok (stored_capture_plan_validate self q)"
    using assms by (auto simp: set_document_values plan_document_valid_def plan_entry_valid_def fmpred_iff)
  then show ?thesis by (auto simp: is_ok_def split: sum.splits)
qed

text \<open>C31: an acknowledged plan is found unchanged by every later listing, after any later saves of other
  plans (failed or not), and a listing returns only plans whose recorded digest is the digest of their
  content and whose layout is valid, each id once.\<close>

theorem plan_store_durable:
  assumes "plan_readable self w" "is_ok (plan_id_parse (fc_plan_id (sc_plan p)))" "plan_upsert self p w = (Inr u, w1)"
    and "list_all (\<lambda>q. is_ok (plan_id_parse (fc_plan_id (sc_plan q))) \<and> fc_plan_id (sc_plan q) \<noteq> fc_plan_id (sc_plan p)) ps"
    and "plan_list self (upsert_plans self ps w1) = (Inr xs, w2)"
  shows "p \<in> set xs \<and> distinct (map (\<lambda>q. fc_plan_id (sc_plan q)) xs) \<and>
    (\<forall>q\<in>set xs. canonical_sha256 (pl_plan_json self) (pl_sha256 self) (sc_plan q) = Inr (sc_sha256 q) \<and>
       pred_option (\<lambda>layout. source_layout_validate layout = Inr ()) (sc_source_layout q))"
proof -
  let ?id = "\<lambda>q. fc_plan_id (sc_plan q)" and ?w = "upsert_plans self ps w1"
  have ty: "plan_typed (?id p) p" using assms(2) by (simp add: plan_typed_def)
  have tys: "list_all (\<lambda>kv. plan_typed (fst kv) (snd kv)) (map (\<lambda>p. (?id p, p)) ps)" "?id p \<notin> fst ` set (map (\<lambda>p. (?id p, p)) ps)"
    using assms(4) by (auto simp: list_all_iff plan_typed_def)
  have "do_then (plan_list self) (\<lambda>plans. do_return (find (\<lambda>q. ?id q = ?id p) plans)) ?w = (Inr (find (\<lambda>q. ?id q = ?id p) xs), w2)"
    using assms(5) by (simp add: do_then_def)
  from plans.acknowledged_write_durable [OF assms(1) ty assms(3) tys this [unfolded upsert_plans_put_all]]
  have "p \<in> set xs" by (auto simp: find_Some_iff)
  have "plan_readable self w1" using plans.put_atomic [OF assms(1) ty assms(3)] by blast
  then have "plan_readable self ?w" using plans.put_all_readable tys(1) by (simp add: upsert_plans_put_all)
  from plan_query(3) [OF plan_list_transforms this assms(5) refl]
  obtain doc where doc: "plan_document_valid self doc" "xs = document_values (doc_entries doc)" by blast
  have "canonical_sha256 (pl_plan_json self) (pl_sha256 self) (sc_plan q) = Inr (sc_sha256 q) \<and>
       pred_option (\<lambda>layout. source_layout_validate layout = Inr ()) (sc_source_layout q)" if "q \<in> set xs" for q
    using plan_document_listing [OF doc(1), of q] that doc(2)
    by (auto simp: stored_capture_plan_validate_def and_then_def map_err_def ok_if_def split: sum.splits if_splits option.splits)
  then show ?thesis
    using \<open>p \<in> set xs\<close> doc distinct_document_values [OF plan_document_valid_simps(2) [OF doc(1)]] by simp
qed

text \<open>A read of the registry fails while the directory of any registration is missing.\<close>

lemma registry_read_stuck:
  assumes "registry_document_at self d = Some doc" "fmlookup (doc_entries doc) i = Some r" "entry_at d (os_path (rr_path r)) \<noteq> Some FsDir"
    and "\<not> prefix (rg_directory self) (os_path (rr_path r))" "\<not> prefix (os_path (rr_path r)) (rg_directory self)"
  shows "triple (holds (registry_kept self d)) (registry_read self) (\<lambda>_ _. False) (\<lambda>_ _. True)"
proof -
  let ?K = "registry_kept self d" and ?p = "os_path (rr_path r)"
  have "registry_file.elsewhere (rg_directory self) ?p"
    using assms(4,5) by (auto simp: registry_file.elsewhere_def registry_file.target_def dest: append_prefixD)
  then have gone: "entry_at d' ?p \<noteq> Some FsDir" if "?K d'" for d'
    using that assms(3) by (simp add: registry_file.kept_def registry_file.frame_def)
  have s: "triple (holds ?K) (stat ?p) (\<lambda>e. holds (\<lambda>d'. ?K d' \<and> e \<noteq> FsDir)) (\<lambda>_. holds ?K)"
    unfolding stat_def by (rule io_rule) (auto simp: ok_or_def gone split: option.splits)
  have v: "triple (holds ?K) (repository_registration_validate r) (\<lambda>_ _. False) (\<lambda>_. holds ?K)"
    unfolding repository_registration_validate_def Let_def
  proof (intro triple_if triple_done(2), rule triple_then [OF triple_relabel [OF s]])
    fix e
    show "triple (holds (\<lambda>d'. ?K d' \<and> e \<noteq> FsDir)) (if e \<noteq> FsDir then do_fail ConfigurationInvalid
        else do_then (do_map_err (\<lambda>_. ConfigurationUnavailable) (canonicalizes_to_itself ?p)) (\<lambda>same. do_lift (ok_if same () ConfigurationInvalid)))
      (\<lambda>_ _. False) (\<lambda>_. holds ?K)"
      by (cases "e = FsDir") (simp_all add: triple_def)
  qed
  have c: "triple (holds ?K) (check_registration (i, r)) (\<lambda>_ _. False) (\<lambda>_. holds ?K)"
    by (simp add: check_registration_def triple_done triple_relabel [OF v])
  have e: "triple (holds ?K) (do_each check_registration (document_items (doc_entries doc))) (\<lambda>_ _. False) (\<lambda>_. holds ?K)"
  proof (rule triple_each_stuck)
    show "(i, r) \<in> set (document_items (doc_entries doc))" by (simp add: set_document_items assms(2))
  qed (rule check_registration_triple c)+
  show ?thesis
    unfolding registry_read_def Let_def
  proof (rule triple_then)
    fix found
    let ?doc = "case found of Some document \<Rightarrow> document | None \<Rightarrow> repository_document_empty (rg_no_extensions self)"
    let ?F = "\<lambda>d'. ?K d' \<and> (case found of None \<Rightarrow> entry_at d' (repositories_path self) = None
        | Some doc \<Rightarrow> \<exists>bs. entry_at d' (repositories_path self) = Some (FsFile bs) \<and> from_json (rg_codec self) bs = Some doc)"
    have same: "?doc = doc" if "?F d'" for d'
    proof -
      have "entry_at d' (repositories_path self) = entry_at d (repositories_path self)"
        using that by (simp add: registry_file.kept_def registry_target)
      then show ?thesis
        using that assms(1) by (auto simp: registry_document_at_def document_at_def split: option.splits if_splits)
    qed
    show "triple (holds ?F) (if doc_format_version ?doc \<noteq> REPOSITORIES_FORMAT_VERSION then do_fail ConfigurationInvalid
       else do_then (do_each check_registration (document_items (doc_entries ?doc))) (\<lambda>_. do_return ?doc)) (\<lambda>_ _. False) (\<lambda>_ _. True)"
    proof (cases "?doc = doc")
      case True
      have "triple (holds ?K) (do_then (do_each check_registration (document_items (doc_entries doc))) (\<lambda>_. do_return doc)) (\<lambda>_ _. False) (\<lambda>_ _. True)"
        using e by (auto simp: triple_def do_then_def split: prod.splits sum.splits)
      then show ?thesis unfolding True by (auto simp: triple_def)
    qed (use same in \<open>auto simp: triple_def\<close>)
  qed (rule triple_weaken [OF registry_file.read_json_kept [of "rg_directory self", unfolded registry_target]], auto)
qed

text \<open>C32: when the directory of one registered repository is missing (or is no longer a directory), every
  operation of the registry fails: it cannot be listed, the registration can be neither removed nor
  moved to another path, and no other repository can be registered.\<close>

theorem registry_blocked_by_missing_directory:
  assumes "registry_document_at self (disk w) = Some doc" "fmlookup (doc_entries doc) i = Some r" "entry_at (disk w) (os_path (rr_path r)) \<noteq> Some FsDir"
    and "\<not> prefix (rg_directory self) (os_path (rr_path r))" "\<not> prefix (os_path (rr_path r)) (rg_directory self)"
  shows "\<not> is_ok (fst (registry_list self w)) \<and> \<not> is_ok (fst (registry_remove self j w)) \<and>
    \<not> is_ok (fst (registry_update_path self j path w)) \<and> \<not> is_ok (fst (registry_upsert self r' w))"
proof -
  let ?K = "registry_kept self (disk w)"
  have locked: "triple (holds ?K) (do_then (config_lock (repositories_path self)) (\<lambda>_. do_then (registry_read self) f)) (\<lambda>_ _. False) (\<lambda>_ _. True)"
    for f :: "(repository_registration, 'a) document \<Rightarrow> (world, configuration_store_error, 'r) action"
  proof (rule triple_then)
    show "triple (holds ?K) (config_lock (repositories_path self)) (\<lambda>_. holds ?K) (\<lambda>_ _. True)"
      by (rule triple_weaken [OF registry_file.config_lock_kept [of "rg_directory self", unfolded registry_target]]) auto
    show "triple (holds ?K) (do_then (registry_read self) f) (\<lambda>_ _. False) (\<lambda>_ _. True)"
      by (rule triple_then [OF registry_read_stuck [OF assms]]) (simp add: triple_def)
  qed
  have fails: "\<not> is_ok (fst (m w))" if "triple (holds ?K) m (\<lambda>_ _. False) (\<lambda>_ _. True)" for m :: "(world, configuration_store_error, 'r) action"
    using triple_ok [OF that, of w] by (cases "m w") (auto simp: is_ok_def registry_file.kept_refl split: sum.splits)
  have up: "triple (holds ?K) (registry_upsert self r') (\<lambda>_ _. False) (\<lambda>_ _. True)"
    unfolding registry_upsert_def
    by (rule triple_then [OF triple_weaken [OF registration_validate_triple [of ?K]] locked]) auto
  show ?thesis
    unfolding registry_list_def registry_remove_def registry_update_path_def
    by (intro conjI fails [OF locked] fails [OF up])
qed

definition sample_registration :: repository_registration where
  "sample_registration = \<lparr>rr_repository_id = ''r1'', rr_label = ''nas'', rr_path = ''/mnt/nas''\<rparr>"

definition sample_registry_document :: "(repository_registration, unit) document" where
  "sample_registry_document = (repository_document_empty ())\<lparr>doc_entries := fmupd ''r1'' sample_registration fmempty\<rparr>"

definition sample_registry :: "unit registry_env" where
  "sample_registry = \<lparr>rg_directory = [''config''], rg_codec = two_documents sample_registry_document (repository_document_empty ()), rg_no_extensions = ()\<rparr>"

text \<open>The disk with the mounted and with the unmounted drive.\<close>

definition sample_mounted :: disk where
  "sample_mounted = [([''config''], FsDir), ([''mnt''], FsDir), ([''mnt'', ''nas''], FsDir)]"

definition sample_unmounted :: disk where
  "sample_unmounted = [([''config'', ''repositories.json''], FsFile [1]), ([''config''], FsDir), ([''mnt''], FsDir)]"

lemma sample_registration_simps:
  "os_path (rr_path sample_registration) = [''mnt'', ''nas'']" "is_absolute (rr_path sample_registration)"
  "rr_label sample_registration \<noteq> []" "length (rr_label sample_registration) \<le> 128" "\<not> has_control (rr_label sample_registration)"
  "rr_repository_id sample_registration = ''r1''" "is_ok (repository_id_parse ''r1'')"
  by code_simp+

lemma sample_registry_simps:
  "(repository_document_empty ())\<lparr>doc_entries := fmupd ''r1'' sample_registration (doc_entries (repository_document_empty ()))\<rparr> = sample_registry_document"
  "doc_format_version (repository_document_empty x) = REPOSITORIES_FORMAT_VERSION" "document_items (doc_entries (repository_document_empty x)) = []"
  "registry_document_valid (repository_document_empty ())" "registry_document_valid sample_registry_document"
  "fmlookup (doc_entries sample_registry_document) ''r1'' = Some sample_registration"
  using sample_registration_simps(6,7)
  by (simp_all add: sample_registry_document_def repository_document_empty_def document_items_def registry_document_valid_def fmpred_upd
      sorted_list_of_fset.rep_eq)

theorem registry_refines_map_witness:
  "\<exists>w'. run_all (op_run sample_registry) [RegistryUpsert sample_registration] (quiet sample_mounted) = ([True], w') \<and>
     registry_view sample_registry w' ''r1'' = Some sample_registration"
proof -
  have at: "registry_document_at sample_registry sample_mounted = Some (repository_document_empty ())"
    by (simp add: registry_document_at_def document_at_def sample_registry_def sample_mounted_def entry_at_def repositories_path_def)
  then have r: "registry_readable sample_registry (quiet sample_mounted)"
    by (simp add: registry_readable_def disk_quiet) (simp add: sample_registry_def two_documents_ok)
  have [simp]: "''config'' \<noteq> ''mnt''" "[0..<2] = [0, 1::nat]" by (simp_all add: upt_rec)
  have "\<exists>w'. registry_upsert sample_registry sample_registration (quiet sample_mounted) = (Inr (), w')"
    by (simp add: registry_upsert_def repository_registration_validate_def canonicalizes_to_itself_def io_quiet sample_registration_simps sample_registry_simps
        sample_registry_def sample_mounted_def config_lock_def registry_read_def read_json_def write_json_def config_remove_regular_def repositories_path_def
        with_extension_def file_stem_def two_documents_def
        quiet_simps do_defs entry_at_def put_def del_def ok_or_def Let_def append_file_def rename_allowed_def move_tree_def del_tree_def ok_if_def)
  then obtain w' where run: "run_all (op_run sample_registry) [RegistryUpsert sample_registration] (quiet sample_mounted) = ([True], w')"
    by (auto simp: is_ok_def)
  have ty: "list_all op_typed [RegistryUpsert sample_registration]"
    by (simp add: sample_registration_simps)
  show ?thesis
    using registry_refines_map [OF r ty run] run by (simp add: sample_registration_simps)
qed

theorem registry_blocked_by_missing_directory_witness:
  "\<not> is_ok (fst (registry_update_path sample_registry ''r1'' ''/mnt/disk2'' (quiet sample_unmounted)))"
proof -
  have "registry_document_at sample_registry (disk (quiet sample_unmounted)) = Some sample_registry_document"
    by (simp add: registry_document_at_def document_at_def sample_registry_def sample_unmounted_def entry_at_def repositories_path_def disk_quiet
        two_documents_def sample_registry_simps)
  then show ?thesis
    using registry_blocked_by_missing_directory [of sample_registry "quiet sample_unmounted" sample_registry_document "''r1''" sample_registration
      "''r1''" "''/mnt/disk2''" sample_registration] sample_registry_simps(6)
    by (simp add: sample_registration_simps sample_registry_def disk_quiet sample_unmounted_def entry_at_def)
qed

definition sample_plan :: filesystem_capture_plan where
  "sample_plan = \<lparr>fc_plan_id = ''plan-1'', fc_version = 1, fc_profile_id = ''p1'', fc_repository_id = ''r1'', fc_roots = [''/srv''], fc_database_path = None\<rparr>"

definition sample_stored :: stored_capture_plan where
  "sample_stored = \<lparr>sc_plan = sample_plan, sc_sha256 = ''07'', sc_source_layout = None\<rparr>"

definition sample_plan_document :: "(stored_capture_plan, unit) document" where
  "sample_plan_document = (plan_document_empty ())\<lparr>doc_entries := fmupd ''plan-1'' sample_stored fmempty\<rparr>"

definition sample_plan_store :: "unit plan_env" where
  "sample_plan_store = \<lparr>pl_directory = [], pl_codec = two_documents sample_plan_document (plan_document_empty ()),
     pl_plan_json = (\<lambda>_. Some []), pl_sha256 = (\<lambda>_. [7]), pl_no_extensions = ()\<rparr>"

lemma sample_stored_simps:
  "canonical_sha256 (\<lambda>_. Some []) (\<lambda>_. [7]) (sc_plan sample_stored) = Inr ''07''" "sc_sha256 sample_stored = ''07''" "sc_source_layout sample_stored = None"
  "fc_plan_id (sc_plan sample_stored) = ''plan-1''" "is_ok (plan_id_parse ''plan-1'')"
  by code_simp+

lemma sample_plan_store_simps:
  "(plan_document_empty ())\<lparr>doc_entries := fmupd ''plan-1'' sample_stored (doc_entries (plan_document_empty ()))\<rparr> = sample_plan_document"
  "doc_format_version (plan_document_empty x) = PLANS_FORMAT_VERSION" "fmpred P (doc_entries (plan_document_empty x))"
  "doc_format_version sample_plan_document = PLANS_FORMAT_VERSION"
  by (simp_all add: sample_plan_document_def plan_document_empty_def)

lemma sample_plan_entry: "fmpred (plan_entry_valid sample_plan_store) (doc_entries sample_plan_document)"
proof -
  have "plan_entry_valid sample_plan_store ''plan-1'' sample_stored"
    by (simp add: plan_entry_valid_def sample_stored_simps stored_capture_plan_validate_def sample_plan_store_def map_err_def and_then_def ok_if_def is_ok_def [of "Inr ()"])
  then show ?thesis by (simp add: sample_plan_document_def plan_document_empty_def fmpred_upd)
qed

abbreviation sample_plan_saved :: disk where
  "sample_plan_saved \<equiv> [([''plans.json''], FsFile [1]), ([''configuration.lock''], FsFile [])]"

lemmas plan_operation_defs = plan_upsert_def plan_list_def config_lock_def plan_read_def read_json_def write_json_def config_remove_regular_def plans_path_def
  with_extension_def file_stem_def two_documents_def sample_stored_simps sample_plan_store_simps
  quiet_simps do_defs entry_at_def put_def del_def ok_or_def Let_def append_file_def rename_allowed_def move_tree_def del_tree_def ok_if_def map_err_def and_then_def

lemma sample_plan_upsert: "plan_upsert sample_plan_store sample_stored (quiet []) = (Inr (), quiet sample_plan_saved)"
  by (simp add: sample_plan_store_def stored_capture_plan_validate_def plan_operation_defs)

lemma sample_plan_list:
  "plan_list sample_plan_store (quiet sample_plan_saved) = (Inr (document_values (doc_entries sample_plan_document)), quiet sample_plan_saved)"
  using sample_plan_entry by (simp add: sample_plan_store_def plan_operation_defs)

theorem plan_store_durable_witness:
  "\<exists>xs w. plan_list sample_plan_store (snd (plan_upsert sample_plan_store sample_stored (quiet []))) = (Inr xs, w) \<and> sample_stored \<in> set xs"
proof -
  have r: "plan_readable sample_plan_store (quiet [])"
    by (simp add: plan_readable_def sample_plan_store_def two_documents_ok document_at_def entry_at_def disk_quiet plans_path_def)
  show ?thesis
    using plan_store_durable [OF r _ sample_plan_upsert, of "[]"] sample_plan_list
    by (simp add: upsert_plans_def sample_stored_simps sample_plan_upsert)
qed

end
