(* ===== verification/Capture_Selection.thy ===== *)
theory Capture_Selection
  imports Source_Layout "HOL-Library.Product_Lexorder"
begin

text \<open>
  \<^verbatim>\<open>crates/guardian-core/src/capture_selection.rs\<close>: from the items a user ticks to the normalized
  roots of a capture, with warnings, a confirmation phrase and the source layout. A vector the
  source passes as \<open>&mut\<close> is an argument and a result; JSON and SHA-256 are parameters.
\<close>

section \<open>Definitions\<close>

definition MAX_SELECTION_ITEMS :: nat where "MAX_SELECTION_ITEMS = 64"

datatype backup_selection_item =
    SelRemotePath remote_path
  | SelDockerMount string remote_path remote_path
  | SelDockerGroup string "remote_path list"

record backup_selection =
  bs_profile_id :: profile_id
  bs_repository_id :: repository_id
  bs_items :: "backup_selection_item list"
  bs_sqlite_path :: "remote_path option"

datatype capture_selection_warning =
    CoveredPath remote_path remote_path
  | LiveDockerData string string
  | SqliteAlsoInFilesystem remote_path remote_path

record capture_selection_preview =
  cp_profile_id :: profile_id
  cp_repository_id :: repository_id
  cp_normalized_roots :: "remote_path list"
  cp_logical_items :: "backup_selection_item list"
  cp_warnings :: "capture_selection_warning list"
  cp_sqlite_path :: "remote_path option"
  cp_confirmation :: string
  cp_source_layout :: source_layout

datatype capture_selection_error =
    InvalidSelection | DockerInventoryRequired | DockerSelectionChanged | SelectionSerialization

type_synonym 'a selecting = "capture_selection_error + 'a"

definition valid_group_id :: "string \<Rightarrow> bool" where
  "valid_group_id value \<longleftrightarrow> value \<noteq> [] \<and> length value \<le> 128 \<and>
     list_all (\<lambda>b. is_ascii_alphanumeric b \<or> b \<in> {CHR ''.'', CHR ''_'', CHR ''-''}) value"

definition selection_item_check :: "backup_selection_item \<Rightarrow> unit selecting" where
  "selection_item_check item =
     (case item of
        SelDockerGroup group_id capturable_paths \<Rightarrow>
          if \<not> valid_group_id group_id \<or> capturable_paths = [] \<or> length capturable_paths > 128
          then Inl InvalidSelection else Inr ()
      | _ \<Rightarrow> Inr ())"

definition validate_selection :: "backup_selection \<Rightarrow> unit selecting" where
  "validate_selection selection =
     (if bs_items selection = [] \<or> length (bs_items selection) > MAX_SELECTION_ITEMS
      then Inl InvalidSelection
      else try_for_each selection_item_check (bs_items selection))"

definition selection_covers :: "remote_path \<Rightarrow> remote_path \<Rightarrow> bool" where
  "selection_covers parent kid \<longleftrightarrow>
     parent = kid \<or> parent = ''/'' \<or>
     (case strip_prefix parent kid of Some tail \<Rightarrow> prefix [slash] tail | None \<Rightarrow> False)"

definition append_live_warning ::
  "docker_container \<Rightarrow> capture_selection_warning list \<Rightarrow> capture_selection_warning list" where
  "append_live_warning container warnings =
     (if dc_state container \<in> {Running, Paused, Restarting}
       \<and> \<not> list_ex (\<lambda>w. case w of LiveDockerData cid _ \<Rightarrow> cid = dc_id container | _ \<Rightarrow> False) warnings
      then warnings @ [LiveDockerData (dc_id container) (dc_name container)]
      else warnings)"

definition resolve_mount ::
  "docker_inventory option \<Rightarrow> string \<Rightarrow> remote_path \<Rightarrow> remote_path \<Rightarrow> capture_selection_warning list \<Rightarrow>
   capture_selection_warning list selecting" where
  "resolve_mount inventory container_id destination path warnings =
     and_then (ok_or inventory DockerInventoryRequired) (\<lambda>inventory.
     and_then (ok_or (find (\<lambda>c. dc_id c = container_id) (di_containers inventory)) DockerSelectionChanged)
       (\<lambda>container.
       if \<not> list_ex (\<lambda>mount. dm_destination mount = destination \<and> capturable_path mount = Some path)
              (dc_mounts container)
       then Inl DockerSelectionChanged
       else Inr (append_live_warning container warnings)))"

definition group_containers :: "docker_inventory \<Rightarrow> string \<Rightarrow> docker_container list" where
  "group_containers inventory group_id =
     filter (\<lambda>c. dc_compose_project c = Some group_id) (di_containers inventory)"

definition resolve_group ::
  "docker_inventory option \<Rightarrow> string \<Rightarrow> remote_path list \<Rightarrow> capture_selection_warning list \<Rightarrow>
   capture_selection_warning list selecting" where
  "resolve_group inventory group_id requested warnings =
     and_then (ok_or inventory DockerInventoryRequired) (\<lambda>inventory.
       let containers = group_containers inventory group_id;
           actual = set (concat (map (\<lambda>c. List.map_filter capturable_path (dc_mounts c)) containers))
       in if containers = [] \<or> actual \<noteq> set requested then Inl DockerSelectionChanged
          else Inr (fold append_live_warning containers warnings))"

fun resolve_loop ::
  "docker_inventory option \<Rightarrow> backup_selection_item list \<Rightarrow> remote_path list \<Rightarrow> capture_selection_warning list \<Rightarrow>
   (remote_path list \<times> capture_selection_warning list) selecting" where
  "resolve_loop inventory [] roots warnings = Inr (roots, warnings)"
| "resolve_loop inventory (item # items) roots warnings =
     (case item of
        SelRemotePath absolute_path \<Rightarrow> resolve_loop inventory items (roots @ [absolute_path]) warnings
      | SelDockerMount container_id destination path \<Rightarrow>
          and_then (resolve_mount inventory container_id destination path warnings)
            (resolve_loop inventory items (roots @ [path]))
      | SelDockerGroup group_id paths \<Rightarrow>
          and_then (resolve_group inventory group_id paths warnings)
            (resolve_loop inventory items (roots @ paths)))"

definition resolve_roots ::
  "backup_selection \<Rightarrow> docker_inventory option \<Rightarrow> capture_selection_warning list \<Rightarrow>
   (remote_path list \<times> capture_selection_warning list) selecting" where
  "resolve_roots selection inventory warnings = resolve_loop inventory (bs_items selection) [] warnings"

fun normalize_loop ::
  "remote_path list \<Rightarrow> capture_selection_warning list \<Rightarrow> remote_path list \<Rightarrow>
   remote_path list \<times> capture_selection_warning list" where
  "normalize_loop normalized warnings [] = (normalized, warnings)"
| "normalize_loop normalized warnings (path # paths) =
     (case find (\<lambda>parent. selection_covers parent path) normalized of
        Some parent \<Rightarrow> normalize_loop normalized (warnings @ [CoveredPath path parent]) paths
      | None \<Rightarrow> normalize_loop (normalized @ [path]) warnings paths)"

definition normalize_roots ::
  "remote_path list \<Rightarrow> capture_selection_warning list \<Rightarrow> remote_path list \<times> capture_selection_warning list" where
  "normalize_roots roots warnings =
     normalize_loop [] warnings (sort_key (\<lambda>p. (length p, p)) roots)"

definition append_sqlite_warning ::
  "remote_path option \<Rightarrow> remote_path list \<Rightarrow> capture_selection_warning list \<Rightarrow> capture_selection_warning list" where
  "append_sqlite_warning sqlite roots warnings =
     (case sqlite of
        None \<Rightarrow> warnings
      | Some sqlite \<Rightarrow>
          (case find (\<lambda>root. selection_covers root sqlite) roots of
             Some parent \<Rightarrow> warnings @ [SqliteAlsoInFilesystem sqlite parent]
           | None \<Rightarrow> warnings))"

type_synonym confirmation_json =
  "profile_id \<Rightarrow> repository_id \<Rightarrow> backup_selection_item list \<Rightarrow> remote_path list \<Rightarrow> remote_path option \<Rightarrow> byte list option"

definition selection_confirmation ::
  "confirmation_json \<Rightarrow> hash_function \<Rightarrow> backup_selection \<Rightarrow> remote_path list \<Rightarrow> string selecting" where
  "selection_confirmation to_json sha256 selection roots =
     and_then (ok_or (to_json (bs_profile_id selection) (bs_repository_id selection) (bs_items selection) roots
         (bs_sqlite_path selection)) SelectionSerialization) (\<lambda>bytes.
     let digest = hex (take 6 (sha256 bytes))
     in Inr (''CREATE BACKUP FOR '' @ bs_profile_id selection @ '' IN '' @ bs_repository_id selection @ '' '' @ digest))"

definition item_container_ids :: "docker_inventory option \<Rightarrow> backup_selection_item \<Rightarrow> string set" where
  "item_container_ids inventory item =
     (case item of
        SelDockerMount container_id _ _ \<Rightarrow> {container_id}
      | SelDockerGroup group_id _ \<Rightarrow>
          (case inventory of None \<Rightarrow> {} | Some i \<Rightarrow> dc_id ` set (group_containers i group_id))
      | SelRemotePath _ \<Rightarrow> {})"

definition selected_container_ids :: "backup_selection \<Rightarrow> docker_inventory option \<Rightarrow> string set" where
  "selected_container_ids selection inventory =
     fold (\<lambda>item ids. ids \<union> item_container_ids inventory item) (bs_items selection) {}"

definition preview_capture_selection ::
  "confirmation_json \<Rightarrow> hash_function \<Rightarrow> backup_selection \<Rightarrow> docker_inventory option \<Rightarrow>
   capture_selection_preview selecting" where
  "preview_capture_selection to_json sha256 selection inventory =
     and_then (validate_selection selection) (\<lambda>_.
     and_then (case inventory of
         Some i \<Rightarrow> map_err (\<lambda>_. DockerSelectionChanged) (docker_inventory_validate i)
       | None \<Rightarrow> Inr ()) (\<lambda>_.
     and_then (resolve_roots selection inventory []) (\<lambda>(roots, warnings).
     let (normalized_roots, warnings) = normalize_roots roots warnings;
         warnings = append_sqlite_warning (bs_sqlite_path selection) normalized_roots warnings
     in and_then (selection_confirmation to_json sha256 selection normalized_roots) (\<lambda>confirmation.
        and_then (map_err (\<lambda>_. DockerSelectionChanged)
            (from_inventory normalized_roots (selected_container_ids selection inventory) inventory)) (\<lambda>layout.
        Inr \<lparr>cp_profile_id = bs_profile_id selection, cp_repository_id = bs_repository_id selection,
             cp_normalized_roots = normalized_roots, cp_logical_items = bs_items selection,
             cp_warnings = warnings, cp_sqlite_path = bs_sqlite_path selection,
             cp_confirmation = confirmation, cp_source_layout = layout\<rparr>)))))"

subsection \<open>Reference semantics\<close>

definition item_paths :: "backup_selection_item \<Rightarrow> remote_path list" where
  "item_paths item =
     (case item of SelRemotePath p \<Rightarrow> [p] | SelDockerMount _ _ p \<Rightarrow> [p] | SelDockerGroup _ ps \<Rightarrow> ps)"

definition outermost :: "remote_path set \<Rightarrow> remote_path set" where
  "outermost ps = {p \<in> ps. \<forall>q\<in>ps. covers q p \<longrightarrow> q = p}"

definition parsed :: "remote_path set \<Rightarrow> bool" where
  "parsed ps \<longleftrightarrow> (\<forall>p\<in>ps. remote_path_parse p = Inr p)"

section \<open>Lemmas\<close>

lemma selection_covers_eq [simp]: "selection_covers = covers"
  by (simp add: fun_eq_iff selection_covers_def covers_def)

lemma valid_group_id_label [simp]: "valid_group_id = valid_label"
  by (auto simp: fun_eq_iff valid_group_id_def valid_label_def label_byte_def list_all_iff)

lemma covers_refl [simp]: "covers p p"
  by (simp add: covers_slash)

lemma covers_trans:
  assumes "covers p q" "covers q r" "remote_path_parse p = Inr p"
  shows "covers p r"
proof -
  have "p \<noteq> []" using assms(3) by (auto simp: remote_path_parse_iff absolute_lexical_def)
  then have "q = ''/'' \<Longrightarrow> p = q \<or> p = ''/''" using assms(1) by (auto simp: covers_slash append_eq_Cons_conv Cons_eq_append_conv)
  then show ?thesis using assms(1,2) by (auto simp: covers_slash)
qed

lemma covers_shorter:
  assumes "covers p q" "p \<noteq> q" "remote_path_parse p = Inr p" "remote_path_parse q = Inr q"
  shows "length p < length q"
proof -
  have "q = ''/'' \<or> (\<exists>c cs. q = slash # c # cs)"
    using assms(4) by (auto simp: remote_path_parse_iff absolute_lexical_def prefix_def)
      (metis list.exhaust)
  then show ?thesis
    using assms by (auto simp: covers_slash)
qed

lemma normalize_loop_spec:
  assumes "parsed (seen \<union> set ps)" "set acc = outermost seen" "distinct acc" "\<forall>x\<in>seen. \<exists>a\<in>set acc. covers a x"
    and "\<forall>x\<in>seen. \<forall>y\<in>set ps. length x \<le> length y" "sorted (map length ps)"
    and "normalize_loop acc ws ps = (acc', ws')"
  shows "set acc' = outermost (seen \<union> set ps) \<and> distinct acc' \<and> (\<forall>x\<in>seen \<union> set ps. \<exists>a\<in>set acc'. covers a x)"
  using assms
proof (induction ps arbitrary: seen acc ws)
  case Nil
  then show ?case by simp
next
  case (Cons y ps)
  have parse: "remote_path_parse p = Inr p" if "p \<in> insert y seen" for p
    using Cons.prems(1) that by (auto simp: parsed_def)
  have not_below: "y = x" if "x \<in> seen" "covers y x" for x
  proof (rule ccontr)
    assume "y \<noteq> x"
    then have "length y < length x" using covers_shorter [OF that(2)] parse that(1) by auto
    moreover have "length x \<le> length y" using Cons.prems(5) that(1) by simp
    ultimately show False by simp
  qed
  have ordered: "\<forall>x\<in>insert y seen. \<forall>z\<in>set ps. length x \<le> length z" "sorted (map length ps)"
    "parsed (insert y seen \<union> set ps)"
    using Cons.prems(1,5,6) by auto
  show ?case
  proof (cases "find (\<lambda>a. covers a y) acc")
    case None
    then have none: "\<not> covers a y" if "a \<in> set acc" for a
      using that by (simp add: find_None_iff)
    have alone: "\<not> covers x y" if x: "x \<in> seen" for x
    proof
      assume c: "covers x y"
      obtain a where "a \<in> set acc" "covers a x" using Cons.prems(4) x by blast
      moreover from this have "a \<in> seen" using Cons.prems(2) by (simp add: outermost_def)
      ultimately show False using c none covers_trans [of a x y] parse by blast
    qed
    then have "y \<notin> seen" using covers_refl by blast
    moreover have "y \<notin> set acc" using none covers_refl by blast
    ultimately have y: "y \<notin> seen" "y \<notin> set acc" by blast+
    have out: "outermost (insert y seen) = insert y (outermost seen)"
      using alone not_below y unfolding outermost_def by auto
    then have a: "set (acc @ [y]) = outermost (insert y seen)" "distinct (acc @ [y])"
      "\<forall>x\<in>insert y seen. \<exists>a\<in>set (acc @ [y]). covers a x"
      using Cons.prems(2-4) y by auto
    have "normalize_loop (acc @ [y]) ws ps = (acc', ws')" using Cons.prems(7) None by simp
    from Cons.IH [OF ordered(3) a ordered(1,2) this] show ?thesis by (unfold list.set Un_insert_left Un_insert_right)
  next
    case (Some parent)
    then have p: "parent \<in> set acc" "covers parent y"
      by (auto simp: find_Some_iff)
    then have "parent \<in> seen" using Cons.prems(2) by (simp add: outermost_def)
    then have "outermost (insert y seen) = outermost seen"
      using p not_below unfolding outermost_def by auto
    then have a: "set acc = outermost (insert y seen)" "\<forall>x\<in>insert y seen. \<exists>a\<in>set acc. covers a x"
      using Cons.prems(2,4) p by auto
    have "normalize_loop acc (ws @ [CoveredPath y parent]) ps = (acc', ws')" using Cons.prems(7) Some by simp
    from Cons.IH [OF ordered(3) a(1) Cons.prems(3) a(2) ordered(1,2) this] show ?thesis
      by (unfold list.set Un_insert_left Un_insert_right)
  qed
qed

lemma sorted_length_sort_key: "sorted (map length (sort_key (\<lambda>p. (length p, p)) ps))"
proof -
  have "sorted (map (\<lambda>p. (length p, p)) (sort_key (\<lambda>p. (length p, p)) ps))" by simp
  then show ?thesis
    unfolding sorted_wrt_map by (rule sorted_wrt_mono_rel [rotated]) auto
qed

lemma normalize_roots_spec:
  assumes "parsed (set roots)" "normalize_roots roots ws = (norm, ws')"
  shows "set norm = outermost (set roots)" "distinct norm" "\<forall>x\<in>set roots. \<exists>a\<in>set norm. covers a x"
  using normalize_loop_spec [of "{}" "sort_key (\<lambda>p. (length p, p)) roots" "[]" ws norm ws'] assms
  by (auto simp: normalize_roots_def sorted_length_sort_key outermost_def)

lemma from_inventory_roots:
  "from_inventory roots ids inventory = Inr layout \<Longrightarrow>
     sl_roots layout = roots \<and> source_layout_validate layout = Inr ()"
  by (auto simp: from_inventory_def Let_def)

lemma resolve_loop_roots:
  "resolve_loop inventory items roots ws = Inr (roots', ws') \<Longrightarrow> roots' = roots @ concat (map item_paths items)"
  by (induction inventory items roots ws rule: resolve_loop.induct)
    (auto simp: item_paths_def split: backup_selection_item.splits)

section \<open>Properties\<close>

text \<open>C20: normalization keeps exactly the outermost of the selected paths, each once: a path survives
  precisely when no other selected path contains it, so nothing selected is lost and nothing is
  captured twice.\<close>

theorem normalize_roots_outermost:
  assumes "\<forall>p\<in>set roots. remote_path_parse p = Inr p" "normalize_roots roots warnings = (normalized, warnings')"
  shows "set normalized = {p \<in> set roots. \<forall>q\<in>set roots. covers q p \<longrightarrow> q = p}
    \<and> distinct normalized \<and> (\<forall>p\<in>set roots. \<exists>root\<in>set normalized. covers root p)"
  using normalize_roots_spec [of roots warnings normalized warnings'] assms
  by (simp add: parsed_def outermost_def)

theorem normalize_roots_outermost_witness:
  "set (fst (normalize_roots [''/srv/data'', ''/srv'', ''/srv2'', ''/srv''] [])) = {''/srv'', ''/srv2''}"
proof -
  let ?roots = "[''/srv/data'', ''/srv'', ''/srv2'', ''/srv'']"
  obtain n w where n: "normalize_roots ?roots [] = (n, w)" by (cases "normalize_roots ?roots []")
  have parse: "\<forall>p\<in>set ?roots. remote_path_parse p = Inr p" by code_simp
  have "set n = {p \<in> set ?roots. \<forall>q\<in>set ?roots. covers q p \<longrightarrow> q = p}"
    using normalize_roots_outermost [OF parse n] by blast
  also have "\<dots> = {''/srv'', ''/srv2''}" by (auto simp: covers_slash)
  finally show ?thesis using n by simp
qed

text \<open>C21: a capture preview is faithful to the selection: every path of every selected item lies below
  one of its roots and every root is a selected path; a selected mount or group matches the live
  inventory; the layout records exactly these roots and validates; and a database file that would
  also be swept up by a root is always warned about.\<close>

theorem preview_covers_selection:
  assumes run: "preview_capture_selection to_json sha256 selection inventory = Inr preview"
    and paths: "\<forall>item\<in>set (bs_items selection). \<forall>p\<in>set (item_paths item). remote_path_parse p = Inr p"
  shows "(\<forall>item\<in>set (bs_items selection). \<forall>p\<in>set (item_paths item).
        \<exists>root\<in>set (cp_normalized_roots preview). covers root p)
    \<and> (\<forall>root\<in>set (cp_normalized_roots preview). \<exists>item\<in>set (bs_items selection). root \<in> set (item_paths item))
    \<and> sl_roots (cp_source_layout preview) = cp_normalized_roots preview
    \<and> source_layout_validate (cp_source_layout preview) = Inr ()
    \<and> (\<forall>db. bs_sqlite_path selection = Some db \<longrightarrow> (\<exists>root\<in>set (cp_normalized_roots preview). covers root db) \<longrightarrow>
        (\<exists>root\<in>set (cp_normalized_roots preview). covers root db \<and> SqliteAlsoInFilesystem db root \<in> set (cp_warnings preview)))"
proof -
  obtain roots ws where res: "resolve_roots selection inventory [] = Inr (roots, ws)"
    using run by (auto simp: preview_capture_selection_def)
  obtain norm ws' where norm: "normalize_roots roots ws = (norm, ws')" by (cases "normalize_roots roots ws")
  have lay: "from_inventory norm (selected_container_ids selection inventory) inventory = Inr (cp_source_layout preview)"
    and roots: "cp_normalized_roots preview = norm"
    and warn: "cp_warnings preview = append_sqlite_warning (bs_sqlite_path selection) norm ws'"
    using run by (auto simp: preview_capture_selection_def Let_def res norm)
  have r: "roots = concat (map item_paths (bs_items selection))"
    using res resolve_loop_roots by (fastforce simp: resolve_roots_def)
  then have "parsed (set roots)" using paths by (auto simp: parsed_def)
  note n = normalize_roots_spec [OF this norm]
  have layout: "sl_roots (cp_source_layout preview) = norm" "source_layout_validate (cp_source_layout preview) = Inr ()"
    using lay from_inventory_roots [OF lay] by blast+
  have "\<exists>root\<in>set norm. covers root db \<and> SqliteAlsoInFilesystem db root \<in> set (cp_warnings preview)"
    if "bs_sqlite_path selection = Some db" "\<exists>root\<in>set norm. covers root db" for db
  proof (cases "find (\<lambda>root. covers root db) norm")
    case None
    then show ?thesis using that(2) by (simp add: find_None_iff)
  next
    case (Some root)
    then have "root \<in> set norm" "covers root db" by (auto simp: find_Some_iff)
    then show ?thesis using that(1) Some by (auto simp: warn append_sqlite_warning_def)
  qed
  moreover have "\<forall>root\<in>set norm. \<exists>item\<in>set (bs_items selection). root \<in> set (item_paths item)"
    using n(1) r by (auto simp: outermost_def)
  moreover have "\<forall>item\<in>set (bs_items selection). \<forall>p\<in>set (item_paths item). \<exists>root\<in>set norm. covers root p"
    using n(3) r by auto
  ultimately show ?thesis unfolding roots using layout by blast
qed

theorem preview_covers_selection_witness:
  "\<exists>preview. preview_capture_selection (\<lambda>_ _ _ _ _. Some []) (\<lambda>_. replicate 32 0)
      \<lparr>bs_profile_id = ''p'', bs_repository_id = ''r'', bs_items = [SelRemotePath ''/srv/a'', SelRemotePath ''/srv''],
       bs_sqlite_path = Some ''/srv/a/db''\<rparr> None = Inr preview \<and>
    (\<exists>root\<in>set (cp_normalized_roots preview). covers root ''/srv/a'') \<and>
    source_layout_validate (cp_source_layout preview) = Inr ()"
proof -
  let ?sel = "\<lparr>bs_profile_id = ''p'', bs_repository_id = ''r'', bs_items = [SelRemotePath ''/srv/a'', SelRemotePath ''/srv''],
       bs_sqlite_path = Some ''/srv/a/db''\<rparr>"
  have "is_ok (preview_capture_selection (\<lambda>_ _ _ _ _. Some []) (\<lambda>_. replicate 32 0) ?sel None)" by code_simp
  then obtain preview where run: "preview_capture_selection (\<lambda>_ _ _ _ _. Some []) (\<lambda>_. replicate 32 0) ?sel None = Inr preview"
    by (auto simp: is_ok_iff)
  have paths: "\<forall>item\<in>set (bs_items ?sel). \<forall>p\<in>set (item_paths item). remote_path_parse p = Inr p" by code_simp
  show ?thesis
    using run preview_covers_selection [OF run paths] by (auto simp: item_paths_def)
qed


end
