(* ===== verification/Remote_Browser.thy ===== *)
theory Remote_Browser
  imports Profiles
begin

text \<open>
  \<^verbatim>\<open>crates/guardian-core/src/remote_browser.rs\<close>: paging through a remote directory. The page a remote
  host returns is untrusted; \<open>remote_browse_page_validate_for\<close> is what makes it safe to show.
\<close>

section \<open>Definitions\<close>

definition MAX_REMOTE_PAGE_ENTRIES :: nat where "MAX_REMOTE_PAGE_ENTRIES = 200"

datatype remote_entry_kind = Directory | RegularFile | Symlink | OtherEntry

datatype remote_entry_unavailable_reason = IsSymlink | SpecialFile

record remote_browse_request =
  br_directory :: remote_path
  br_cursor :: "string option"
  br_limit :: u16

record remote_browse_entry =
  be_name :: string
  be_absolute_path :: remote_path
  be_kind :: remote_entry_kind
  be_size :: "u64 option"
  be_modified_at :: "timestamp option"
  be_selectable :: bool
  be_unavailable_reason :: "remote_entry_unavailable_reason option"

record remote_browse_page =
  bp_directory :: remote_path
  bp_entries :: "remote_browse_entry list"
  bp_next_cursor :: "string option"
  bp_truncated :: bool

datatype remote_browse_error = InvalidRequest | InvalidPage | InvalidEntry | DuplicateEntry

datatype remote_browser_port_error = BrowserRejected | BrowserUnavailable

datatype browse_remote_directory_error =
    BrowseProfileNotFound
  | BrowseProfileStore profile_store_port_error
  | Browser remote_browser_port_error
  | BrowseInvalidRequest remote_browse_error
  | BrowseInvalidPage remote_browse_error

definition valid_cursor :: "string \<Rightarrow> bool" where
  "valid_cursor value \<longleftrightarrow> value \<noteq> [] \<and> length value \<le> 128 \<and>
     list_all (\<lambda>b. is_ascii_alphanumeric b \<or> b \<in> {CHR ''-'', CHR ''_''}) value"

definition remote_browse_request_validate :: "remote_browse_request \<Rightarrow> remote_browse_error + unit" where
  "remote_browse_request_validate self =
     (let cursor_valid = (case br_cursor self of None \<Rightarrow> True | Some c \<Rightarrow> valid_cursor c)
      in ok_if (unat (br_limit self) > 0 \<and> unat (br_limit self) \<le> MAX_REMOTE_PAGE_ENTRIES \<and> cursor_valid)
           () InvalidRequest)"

definition remote_browse_entry_validate :: "remote_path \<Rightarrow> remote_browse_entry \<Rightarrow> remote_browse_error + unit" where
  "remote_browse_entry_validate parent self =
     (let valid_name = be_name self \<noteq> [] \<and> length (be_name self) \<le> 255 \<and> \<not> has_control (be_name self)
            \<and> \<not> contains_any [slash, backslash] (be_name self)
      in and_then (map_err (\<lambda>_. InvalidEntry) (child parent (be_name self))) (\<lambda>expected.
         let selection_valid = (case be_kind self of
               Directory \<Rightarrow> be_selectable self \<and> be_unavailable_reason self = None
             | RegularFile \<Rightarrow> be_selectable self \<and> be_unavailable_reason self = None
             | Symlink \<Rightarrow> \<not> be_selectable self \<and> be_unavailable_reason self \<noteq> None
             | OtherEntry \<Rightarrow> \<not> be_selectable self \<and> be_unavailable_reason self \<noteq> None)
         in ok_if (valid_name \<and> expected = be_absolute_path self \<and> selection_valid) () InvalidEntry))"

fun entries_loop :: "remote_path \<Rightarrow> remote_path set \<Rightarrow> remote_browse_entry list \<Rightarrow> remote_browse_error + unit" where
  "entries_loop directory paths [] = Inr ()"
| "entries_loop directory paths (entry # entries) =
     and_then (remote_browse_entry_validate directory entry) (\<lambda>_.
       if be_absolute_path entry \<in> paths then Inl DuplicateEntry
       else entries_loop directory (insert (be_absolute_path entry) paths) entries)"

definition remote_browse_page_validate_for ::
  "remote_browse_page \<Rightarrow> remote_browse_request \<Rightarrow> remote_browse_error + unit" where
  "remote_browse_page_validate_for self request =
     (if bp_directory self \<noteq> br_directory request
       \<or> length (bp_entries self) > unat (br_limit request)
       \<or> (case bp_next_cursor self of Some c \<Rightarrow> \<not> valid_cursor c | None \<Rightarrow> False)
       \<or> bp_truncated self \<noteq> (bp_next_cursor self \<noteq> None)
      then Inl InvalidPage
      else entries_loop (bp_directory self) {} (bp_entries self))"

definition browse_remote_directory_execute ::
  "(profile_id \<Rightarrow> ('s, profile_store_port_error, vds_profile option) action) \<Rightarrow>
   (vds_profile \<Rightarrow> remote_browse_request \<Rightarrow> ('s, remote_browser_port_error, remote_browse_page) action) \<Rightarrow>
   profile_id \<Rightarrow> remote_browse_request \<Rightarrow> ('s, browse_remote_directory_error, remote_browse_page) action" where
  "browse_remote_directory_execute get list_directory profile_id request =
     do_then (do_lift (map_err BrowseInvalidRequest (remote_browse_request_validate request))) (\<lambda>_.
     do_then (do_map_err BrowseProfileStore (get profile_id)) (\<lambda>found.
     do_then (do_lift (ok_or found BrowseProfileNotFound)) (\<lambda>profile.
     do_then (do_map_err Browser (list_directory profile request)) (\<lambda>page.
     do_then (do_lift (map_err BrowseInvalidPage (remote_browse_page_validate_for page request))) (\<lambda>_.
     do_return page)))))"

section \<open>Lemmas\<close>

lemma entries_loop_ok:
  "entries_loop d paths es = Inr () \<longleftrightarrow>
     (\<forall>e\<in>set es. remote_browse_entry_validate d e = Inr ()) \<and> distinct (map be_absolute_path es) \<and>
     be_absolute_path ` set es \<inter> paths = {}"
  by (induction d paths es rule: entries_loop.induct) auto

lemma entry_below_directory:
  assumes d: "remote_path_parse d = Inr d" and e: "remote_browse_entry_validate d e = Inr ()"
  shows "remote_path_parse (be_absolute_path e) = Inr (be_absolute_path e)"
    "path_components (be_absolute_path e) = path_components d @ [be_name e]"
proof -
  have c: "child d (be_name e) = Inr (be_absolute_path e)" "be_name e \<noteq> []" "slash \<notin> set (be_name e)"
    using e by (auto simp: remote_browse_entry_validate_def Let_def contains_any_iff)
  then show "remote_path_parse (be_absolute_path e) = Inr (be_absolute_path e)"
    by (auto simp: child_def remote_path_parse_iff)
  show "path_components (be_absolute_path e) = path_components d @ [be_name e]"
    using components_child [OF d c] .
qed

section \<open>Properties\<close>

text \<open>C22: a page that reaches the user stays inside what was asked: every entry is a direct child of the
  requested directory under exactly its displayed name, names do not repeat, there are at most as
  many entries as requested (never more than 200), a continuation cursor is present exactly when the
  page is truncated, and links and special files can never be selected.\<close>

theorem browse_page_confined:
  assumes run: "browse_remote_directory_execute get list_directory profile_id request s = (Inr page, t)"
    and dir: "remote_path_parse (br_directory request) = Inr (br_directory request)"
  shows "bp_directory page = br_directory request
    \<and> length (bp_entries page) \<le> unat (br_limit request) \<and> unat (br_limit request) \<le> 200
    \<and> (bp_truncated page \<longleftrightarrow> bp_next_cursor page \<noteq> None)
    \<and> distinct (map be_name (bp_entries page))
    \<and> (\<forall>e\<in>set (bp_entries page).
         path_components (be_absolute_path e) = path_components (br_directory request) @ [be_name e]
         \<and> (be_selectable e \<longleftrightarrow> be_kind e \<in> {Directory, RegularFile}))"
proof -
  have req: "remote_browse_request_validate request = Inr ()"
    and page: "remote_browse_page_validate_for page request = Inr ()"
    using run by (auto simp: browse_remote_directory_execute_def do_then_ok)
  have d: "bp_directory page = br_directory request" "length (bp_entries page) \<le> unat (br_limit request)"
    "bp_truncated page \<longleftrightarrow> bp_next_cursor page \<noteq> None"
    and es: "\<forall>e\<in>set (bp_entries page). remote_browse_entry_validate (br_directory request) e = Inr ()"
    and paths: "distinct (map be_absolute_path (bp_entries page))"
    using page by (auto simp: remote_browse_page_validate_for_def entries_loop_ok split: if_splits)
  have below: "remote_path_parse (be_absolute_path e) = Inr (be_absolute_path e)"
    "path_components (be_absolute_path e) = path_components (br_directory request) @ [be_name e]"
    if "e \<in> set (bp_entries page)" for e
    using entry_below_directory [OF dir] es that by blast+
  have "inj_on be_name (set (bp_entries page))"
  proof (rule inj_onI)
    fix x y assume xy: "x \<in> set (bp_entries page)" "y \<in> set (bp_entries page)" "be_name x = be_name y"
    have "be_absolute_path x = be_absolute_path y"
      by (rule components_inject [OF below(1) [OF xy(1)] below(1) [OF xy(2)]])
        (simp add: below(2) [OF xy(1)] below(2) [OF xy(2)] xy(3))
    moreover have "inj_on be_absolute_path (set (bp_entries page))"
      using paths by (simp add: distinct_map)
    ultimately show "x = y" using xy by (blast dest: inj_onD)
  qed
  then have names: "distinct (map be_name (bp_entries page))"
    using paths by (simp add: distinct_map)
  have sel: "be_selectable e \<longleftrightarrow> be_kind e \<in> {Directory, RegularFile}" if "e \<in> set (bp_entries page)" for e
    using bspec [OF es that] by (cases "be_kind e") (auto simp: remote_browse_entry_validate_def Let_def)
  have "unat (br_limit request) \<le> 200"
    using req by (simp add: remote_browse_request_validate_def Let_def MAX_REMOTE_PAGE_ENTRIES_def)
  then show ?thesis using d names below(2) sel by blast
qed

theorem browse_page_confined_witness:
  "let request = \<lparr>br_directory = ''/srv'', br_cursor = None, br_limit = 2\<rparr>;
       entry = \<lparr>be_name = ''a b'', be_absolute_path = ''/srv/a b'', be_kind = Symlink, be_size = None, be_modified_at = None,
         be_selectable = False, be_unavailable_reason = Some IsSymlink\<rparr>;
       page = \<lparr>bp_directory = ''/srv'', bp_entries = [entry], bp_next_cursor = None, bp_truncated = False\<rparr>
   in \<exists>t. browse_remote_directory_execute (\<lambda>_ s. (Inr (Some undefined), s)) (\<lambda>_ _ s. (Inr page, s)) ''p'' request () = (Inr page, t) \<and>
        path_components (be_absolute_path entry) = path_components ''/srv'' @ [''a b'']"
proof -
  let ?request = "\<lparr>br_directory = ''/srv'', br_cursor = None, br_limit = 2\<rparr>"
  let ?entry = "\<lparr>be_name = ''a b'', be_absolute_path = ''/srv/a b'', be_kind = Symlink, be_size = None, be_modified_at = None,
         be_selectable = False, be_unavailable_reason = Some IsSymlink\<rparr>"
  let ?page = "\<lparr>bp_directory = ''/srv'', bp_entries = [?entry], bp_next_cursor = None, bp_truncated = False\<rparr>"
  have "remote_browse_request_validate ?request = Inr ()" "remote_browse_page_validate_for ?page ?request = Inr ()"
    by code_simp+
  then have run: "browse_remote_directory_execute (\<lambda>_ s. (Inr (Some undefined), s)) (\<lambda>_ _ s. (Inr ?page, s)) ''p'' ?request ()
      = (Inr ?page, ())"
    by (simp add: browse_remote_directory_execute_def do_then_def do_map_err_def ok_or_def)
  have dir: "remote_path_parse (br_directory ?request) = Inr (br_directory ?request)" by code_simp
  show ?thesis
    using run browse_page_confined [OF run dir] unfolding Let_def by auto
qed

end
