(* ===== verification/Jobs.thy ===== *)
theory Jobs
  imports Identifiers
begin

text \<open>
  \<^verbatim>\<open>crates/guardian-core/src/{state,cancellation,job_registry}.rs\<close>: the states of a backup, the
  cancellation handle shared between threads and the registry of running jobs. A
  \<open>CancellationHandle\<close> is an \<open>Arc<AtomicBool>\<close>: handles are addresses into a store of flags, so that
  clones alias. The mutex is the atomicity of the registry's operations; a poisoned mutex is a flag.
\<close>

section \<open>Definitions\<close>

datatype backup_state = Planned | Staging | Captured | Verifying | Sealed | BackupFailed | Cancelled | Quarantined

definition can_transition_to :: "backup_state \<Rightarrow> backup_state \<Rightarrow> bool" where
  "can_transition_to self nxt \<longleftrightarrow>
     (self, nxt) \<in> {(Planned, Staging), (Planned, Cancelled),
       (Staging, Captured), (Staging, BackupFailed), (Staging, Cancelled),
       (Captured, Verifying), (Captured, Quarantined),
       (Verifying, Sealed), (Verifying, BackupFailed), (Verifying, Quarantined)}"

type_synonym handle = nat

record job_registry =
  jobs :: "run_id \<rightharpoonup> handle"
  flags :: "handle \<Rightarrow> bool"
  poisoned :: bool

definition registry_default :: job_registry where
  "registry_default = \<lparr>jobs = Map.empty, flags = (\<lambda>_. False), poisoned = False\<rparr>"

definition handle_cancel :: "handle \<Rightarrow> job_registry \<Rightarrow> job_registry" where
  "handle_cancel h self = self\<lparr>flags := (flags self)(h := True)\<rparr>"

definition is_cancelled :: "handle \<Rightarrow> job_registry \<Rightarrow> bool" where
  "is_cancelled h self = flags self h"

definition register :: "run_id \<Rightarrow> handle \<Rightarrow> job_registry \<Rightarrow> job_registry" where
  "register run_id h self =
     (if poisoned self then self else self\<lparr>jobs := (jobs self)(run_id \<mapsto> h)\<rparr>)"

definition registry_cancel :: "run_id \<Rightarrow> job_registry \<Rightarrow> bool \<times> job_registry" where
  "registry_cancel run_id self =
     (if poisoned self then (False, self)
      else case jobs self run_id of
        Some h \<Rightarrow> (True, handle_cancel h self)
      | None \<Rightarrow> (False, self))"

definition unregister :: "run_id \<Rightarrow> job_registry \<Rightarrow> job_registry" where
  "unregister run_id self =
     (if poisoned self then self else self\<lparr>jobs := (jobs self)(run_id := None)\<rparr>)"

definition registration_drop :: "run_id \<Rightarrow> job_registry \<Rightarrow> job_registry" where
  "registration_drop run_id self = unregister run_id self"

subsection \<open>Interleaved use\<close>

text \<open>
  The concurrent system: the registry and the live registrations (the guards still in scope), each
  with the handle its job polls. A job starts under a run id no live job has (run ids are fresh
  UUIDs) and with a handle of its own, ends by dropping its guard, and anyone may cancel any id.
\<close>

record job_system =
  registry :: job_registry
  live :: "run_id \<rightharpoonup> handle"
  spent :: "handle set"

definition system_start :: job_system where
  "system_start = \<lparr>registry = registry_default, live = Map.empty, spent = {}\<rparr>"

inductive job_step :: "job_system \<Rightarrow> job_system \<Rightarrow> bool" where
  job_begins: "live s run_id = None \<Longrightarrow> h \<notin> spent s \<Longrightarrow>
     job_step s \<lparr>registry = register run_id h (registry s), live = (live s)(run_id \<mapsto> h),
                 spent = insert h (spent s)\<rparr>"
| job_ends: "live s run_id \<noteq> None \<Longrightarrow>
     job_step s \<lparr>registry = registration_drop run_id (registry s), live = (live s)(run_id := None),
                 spent = spent s\<rparr>"
| job_cancel_requested:
    "job_step s (s\<lparr>registry := snd (registry_cancel run_id (registry s))\<rparr>)"

inductive job_reachable :: "job_system \<Rightarrow> bool" where
  initially: "job_reachable system_start"
| onward: "job_reachable s \<Longrightarrow> job_step s t \<Longrightarrow> job_reachable t"

inductive_cases job_stepE: "job_step s t"

definition job_inv :: "job_system \<Rightarrow> bool" where
  "job_inv s \<longleftrightarrow>
     \<not> poisoned (registry s) \<and> jobs (registry s) = live s \<and> ran (live s) \<subseteq> spent s \<and>
     inj_on (live s) (dom (live s)) \<and> (\<forall>h. flags (registry s) h \<longrightarrow> h \<in> spent s)"

section \<open>Lemmas\<close>

lemmas registry_defs = register_def registry_cancel_def unregister_def registration_drop_def handle_cancel_def

lemma ran_upd_none: "ran (m(k := None)) \<subseteq> ran m"
  by (auto simp: ran_def)

lemma job_inv_begins:
  assumes "job_inv s" "live s run_id = None" "h \<notin> spent s"
  shows "job_inv \<lparr>registry = register run_id h (registry s), live = (live s)(run_id \<mapsto> h), spent = insert h (spent s)\<rparr>"
proof -
  have "live s x \<noteq> Some h" for x
    using assms by (auto simp: job_inv_def ran_def)
  then have "inj_on ((live s)(run_id \<mapsto> h)) (dom ((live s)(run_id \<mapsto> h)))"
    using assms by (auto simp: job_inv_def inj_on_def)
  with assms show ?thesis by (auto simp: job_inv_def register_def ran_def split: if_splits)
qed

lemma job_inv_ends:
  assumes "job_inv s"
  shows "job_inv \<lparr>registry = registration_drop run_id (registry s), live = (live s)(run_id := None), spent = spent s\<rparr>"
proof -
  have "inj_on ((live s)(run_id := None)) (dom ((live s)(run_id := None)))"
    using assms by (auto simp: job_inv_def inj_on_def)
  with assms show ?thesis
    using ran_upd_none [of "live s" run_id] by (auto simp: job_inv_def registry_defs)
qed

lemma job_inv_cancel:
  assumes "job_inv s"
  shows "job_inv (s\<lparr>registry := snd (registry_cancel run_id (registry s))\<rparr>)"
  using assms by (auto simp: job_inv_def registry_defs ran_def split: option.splits)

lemma job_reachable_inv: "job_reachable s \<Longrightarrow> job_inv s"
proof (induction rule: job_reachable.induct)
  case initially
  then show ?case by (simp add: job_inv_def system_start_def registry_default_def)
next
  case (onward s t)
  from onward(2,3) show ?case
    by (auto elim!: job_stepE intro: job_inv_begins job_inv_ends job_inv_cancel)
qed

text \<open>A run of the backup state machine: the states it passes through.\<close>

fun backup_run :: "backup_state list \<Rightarrow> bool" where
  "backup_run [] = False"
| "backup_run [s] = True"
| "backup_run (s # t # rest) = (can_transition_to s t \<and> backup_run (t # rest))"

fun stage :: "backup_state \<Rightarrow> nat" where
  "stage Planned = 0" | "stage Staging = 1" | "stage Captured = 2" | "stage Verifying = 3"
| "stage Sealed = 4" | "stage BackupFailed = 4" | "stage Cancelled = 4" | "stage Quarantined = 4"

lemma transition_cases:
  "can_transition_to Planned t \<longleftrightarrow> t = Staging \<or> t = Cancelled"
  "can_transition_to Staging t \<longleftrightarrow> t = Captured \<or> t = BackupFailed \<or> t = Cancelled"
  "can_transition_to Captured t \<longleftrightarrow> t = Verifying \<or> t = Quarantined"
  "can_transition_to Verifying t \<longleftrightarrow> t = Sealed \<or> t = BackupFailed \<or> t = Quarantined"
  "\<not> can_transition_to Sealed t" "\<not> can_transition_to BackupFailed t"
  "\<not> can_transition_to Cancelled t" "\<not> can_transition_to Quarantined t"
  by (auto simp: can_transition_to_def)

lemma transition_stage: "can_transition_to s t \<Longrightarrow> stage s < stage t"
  by (cases s) (auto simp: transition_cases)

lemma backup_run_length: "backup_run (s # rest) \<Longrightarrow> length rest + stage s \<le> stage (last (s # rest))"
proof (induction rest arbitrary: s)
  case (Cons t rest)
  then have "length rest + stage t \<le> stage (last (t # rest))" "stage s < stage t"
    by (auto dest: transition_stage)
  then show ?case by simp
qed simp

lemma stage_bound: "stage s \<le> 4"
  by (cases s) auto

lemma backup_run_Cons: "backup_run (s # rest) \<longleftrightarrow> rest = [] \<or> can_transition_to s (hd rest) \<and> backup_run rest"
  by (cases rest) auto

section \<open>Properties\<close>

text \<open>C15: the only way to a sealed backup is through verification: a run of the state machine from
  \<open>Planned\<close> that ends in \<open>Sealed\<close> passes through staging, capture and verification in this order
  and through nothing else, and every run ends after at most four transitions.\<close>

theorem sealed_only_through_verification:
  "(backup_run (Planned # rest) \<and> last (Planned # rest) = Sealed \<longleftrightarrow> rest = [Staging, Captured, Verifying, Sealed])
   \<and> (backup_run (s # later) \<longrightarrow> length later \<le> 4)"
proof -
  have tail: "backup_run (Verifying # r) \<and> last (Verifying # r) = Sealed \<longleftrightarrow> r = [Sealed]" for r
    by (cases r; cases "tl r") (auto simp: transition_cases)
  have caught: "backup_run (Captured # r) \<and> last (Captured # r) = Sealed \<longleftrightarrow> r = [Verifying, Sealed]" for r
    using tail [of "tl r"] by (cases r) (auto simp: transition_cases backup_run_Cons [of Quarantined])
  have staged: "backup_run (Staging # r) \<and> last (Staging # r) = Sealed \<longleftrightarrow> r = [Captured, Verifying, Sealed]" for r
    using caught [of "tl r"]
    by (cases r) (auto simp: transition_cases backup_run_Cons [of BackupFailed] backup_run_Cons [of Cancelled])
  have "backup_run (Planned # rest) \<and> last (Planned # rest) = Sealed \<longleftrightarrow> rest = [Staging, Captured, Verifying, Sealed]"
    using staged [of "tl rest"]
    by (cases rest) (auto simp: transition_cases backup_run_Cons [of Cancelled])
  moreover have "length later \<le> 4" if "backup_run (s # later)"
    using backup_run_length [OF that] stage_bound [of "last (s # later)"] by linarith
  ultimately show ?thesis by blast
qed

theorem sealed_only_through_verification_witness:
  "backup_run [Planned, Staging, Captured, Verifying, Sealed] \<and> \<not> backup_run [Planned, Staging, Captured, Sealed]"
  using sealed_only_through_verification [of "[Staging, Captured, Verifying, Sealed]" Planned "[Staging]"]
    sealed_only_through_verification [of "[Staging, Captured, Sealed]" Planned "[Staging]"]
  by auto



end
