(* ===== verification/Spec2Isabelle.thy ===== *)
theory Spec2Isabelle
  imports Capture_Request Retention_Reconcile Vault Profile_Store Configuration_Store Plans Capture_Selection Remote_Browser Retention_Policy Jobs Envelope
begin

text \<open>
  VDS-Guardian backs up a Linux server over SSH into a local repository of signed, encrypted and
  immutable backups, and restores or deploys them again. It is a Rust workspace under
  \<^verbatim>\<open>src/crates\<close>; this development models its core and proves what makes it correct. A Rust
  \<open>Result\<close> is a sum with the error on the left, a \<open>String\<close> is the list of its UTF-8 bytes, a fixed-width
  integer is a word, a struct a record, an enum a datatype, and an effectful call is an action: a
  function from a state to a result and the state after it, where the effects made before an error
  stay. A call of a library that is not in the repository (JSON, base64, SHA-256, AES-GCM, Argon2id,
  Ed25519, tar, zstd, the random generator, the clock) is an argument of the definitions that need it; what a
  theorem relies on of it is a hypothesis of that theorem, and a witness shows the hypothesis can hold.

  \<^bold>\<open>Shared vocabulary.\<close> \<open>Prelude\<close> has results, actions, byte strings and printing; \<open>File_System\<close> the calls of
  \<open>std::fs\<close> on an explicit disk, with a fault schedule that can refuse or tear every single call (a crash
  refuses everything from some call on); \<open>Streams\<close> readers that return arbitrary short reads and sinks.

  \<^bold>\<open>Domain\<close> (\<^verbatim>\<open>guardian-core\<close>). \<open>Identifiers\<close> (\<^verbatim>\<open>identifiers.rs\<close>): the validated names, confinement of
  relative paths, timestamps ordered as strings. \<open>Profiles\<close> (\<^verbatim>\<open>profile.rs, host_trust.rs\<close>): host pins and
  the trust decision. \<open>Docker_Inventory\<close>, \<open>Source_Layout\<close>, \<open>Capture_Selection\<close>, \<open>Remote_Browser\<close> (the files
  of those names): what an operator may select and what a capture then contains. \<open>Manifest\<close>
  (\<^verbatim>\<open>manifest.rs, signature.rs\<close>): assembling, validating and sealing. \<open>Retention_Policy\<close> (\<^verbatim>\<open>retention.rs\<close>).
  \<open>Plans\<close> (\<^verbatim>\<open>plan.rs, restore.rs, deploy.rs, replace.rs\<close>): confirmation phrases and approval. \<open>Jobs\<close>
  (\<^verbatim>\<open>state.rs, cancellation.rs, job_registry.rs\<close>): the backup state machine, and cancellation under every
  interleaving of threads.
  \<open>Capture\<close> (\<^verbatim>\<open>capture.rs, embedded_database.rs, storage.rs, archive.rs, audit.rs\<close>): the two capture use cases
  over their ports. What they rely on of the storage port is the locale \<open>storage_run\<close>, interpreted on the
  repository adapter; the end-to-end theorem says that a capture that succeeds is a backup that verifies.

  \<^bold>\<open>Encryption\<close> (\<^verbatim>\<open>guardian-encryption\<close>). \<open>Envelope\<close>: the chunked envelope, its exact accepted language,
  the round trip for every way the reader splits its input, nonce reuse, and the recovery bundle.

  \<^bold>\<open>Persistent stores.\<close> \<open>Store_Interface\<close> states as locales what a document file that is replaced by an
  atomic rename gives its clients (\<open>document_store\<close>, \<open>outcomes\<close>); they are interpreted by \<open>Profile_Store\<close>
  (\<^verbatim>\<open>guardian-profile-store\<close>), \<open>Configuration_Store\<close> (\<^verbatim>\<open>guardian-configuration\<close>) and \<open>Vault\<close>
  (\<^verbatim>\<open>guardian-vault\<close>): under any faults each refines a map, and acknowledged writes are durable.

  \<^bold>\<open>Local repository\<close> (\<^verbatim>\<open>guardian-local-repository\<close>). \<open>Repository_Files\<close> (\<^verbatim>\<open>filesystem.rs, error.rs\<close>):
  atomic writes. \<open>Retention_Journal\<close>, \<open>Retention_Recovery\<close>, \<open>Retention_Reconcile\<close> (\<^verbatim>\<open>retention.rs,
  retention_journal.rs\<close>): deletion is all or nothing across crashes. \<open>Repository_Inventory\<close>
  (\<^verbatim>\<open>signature_file.rs, verification.rs, inventory.rs\<close>): a backup is accepted exactly when it is intact.
  \<open>Repository\<close> (\<^verbatim>\<open>repository.rs, repository/{recovery,credential,audit}.rs\<close>): opening, locking and keys.
  \<open>Staging\<close> (\<^verbatim>\<open>staging.rs, core_adapter.rs\<close>): a run from its staging directory to the sealed backup.
  \<^bold>\<open>Capture composition\<close> (\<^verbatim>\<open>guardian-capture\<close>). \<open>Capture_Request\<close> (\<^verbatim>\<open>request.rs\<close>): a saved plan becomes the requests
  of the use cases, and the clock is printed as a timestamp, compared with a calendar that counts days.

  \<^bold>\<open>Bounds and fuel.\<close> No definition needs fuel: every loop of the source recurses on data or has a
  measure (the payload walk on the 64 levels it allows, \<open>create_dir_all\<close> on the length of the path,
  readers on the bytes left).

  \<^bold>\<open>Not modelled.\<close> Power failures that lose synced data, Windows access control lists, and permissions
  (a permission change succeeds or fails but has no effect on the disk). The tar and zstd containers, the OpenSSH processes, the operating-system keyring, signing, deployment,
  and the command line, agent and desktop front ends.
\<close>

end
